(* ===== verification/Prelude.thy ===== *)
theory Prelude
  imports Main "HOL-Library.Word" "HOL-Library.AList"
begin

text \<open>
  Shared vocabulary of the development: Go's fixed-width integers, the outcome of a Go
  statement that may panic, slice indexing and slicing with Go's run-time bounds checks,
  insertion into a slice, and the generic lemmas on lists and association lists that the
  component theories use.  The locale \<open>guarded_system\<close> at the end lifts an invariant of
  single operations to every sequence of operations; each stateful component interprets it.
\<close>

named_theorems go_slice "bounds-checked slice operations, unfolded"
named_theorems go_step "one-step behaviour of the operations of a component"

section \<open>Machine integers and outcomes\<close>

text \<open>
  \<open>int64\<close> is read with \<^const>\<open>sint\<close> (two's complement), \<open>uint32\<close> with
  \<^const>\<open>unat\<close>; addition and multiplication wrap around, as in Go.
\<close>

type_synonym int64 = "64 word"
type_synonym uint32 = "32 word"
type_synonym byte = "8 word"

lemma int64_eqI: "sint a = sint b \<Longrightarrow> a = (b :: int64)"
  by (simp add: signed_word_eqI)

lemma sint_word_of_int:
  "- (2 ^ 63) \<le> x \<Longrightarrow> x < 2 ^ 63 \<Longrightarrow> sint (word_of_int x :: int64) = x"
  by (simp add: signed_take_bit_int_eq_self sint_sbintrunc')

lemma sint_word_of_int_above:
  assumes "2 ^ 63 \<le> x" and "x < 2 ^ 64"
  shows "sint (word_of_int x :: int64) = x - 2 ^ 64"
proof -
  have "(word_of_int x :: int64) = word_of_int (x - 2 ^ 64)"
    by (simp add: word_of_int_eq_iff take_bit_eq_mod)
  also have "sint \<dots> = x - 2 ^ 64" using assms by (intro sint_word_of_int) auto
  finally show ?thesis .
qed

text \<open>
  A statement either completes or panics.  Deferred unlocks run in both cases, so the
  state after a panic is visible to later callers; operations return it beside the outcome.
\<close>

datatype outcome = Completed | Panicked

datatype 'a result = Value 'a | Panic

section \<open>Slices\<close>

text \<open>\<^verbatim>\<open>xs[i]\<close>, \<^verbatim>\<open>xs[i:]\<close> and \<^verbatim>\<open>xs[:i]\<close>; \<^const>\<open>None\<close> is the run-time bounds panic.\<close>

definition go_index :: "'a list \<Rightarrow> int \<Rightarrow> 'a option" where
  "go_index xs i = (if 0 \<le> i \<and> i < int (length xs) then Some (xs ! nat i) else None)"

definition go_from :: "'a list \<Rightarrow> int \<Rightarrow> 'a list option" where
  "go_from xs i = (if 0 \<le> i \<and> i \<le> int (length xs) then Some (drop (nat i) xs) else None)"

definition go_upto :: "'a list \<Rightarrow> int \<Rightarrow> 'a list option" where
  "go_upto xs i = (if 0 \<le> i \<and> i \<le> int (length xs) then Some (take (nat i) xs) else None)"

text \<open>
  The insertion idiom \<^verbatim>\<open>append(xs[:i], append([]T{x}, xs[i:]...)...)\<close>: it panics when
  \<open>i\<close> is past the end.
\<close>

definition insert_at :: "nat \<Rightarrow> 'a \<Rightarrow> 'a list \<Rightarrow> 'a list" where
  "insert_at i x xs = take i xs @ x # drop i xs"

definition go_insert :: "'a list \<Rightarrow> int \<Rightarrow> 'a \<Rightarrow> 'a list option" where
  "go_insert xs i x =
     (if 0 \<le> i \<and> i \<le> int (length xs) then Some (insert_at (nat i) x xs) else None)"

text \<open>
  The capacity after an append that makes the slice \<open>n\<close> long: unchanged while it fits,
  otherwise chosen by the runtime (the parameter \<open>grow\<close>).
\<close>

definition append_cap :: "(nat \<Rightarrow> nat \<Rightarrow> nat) \<Rightarrow> nat \<Rightarrow> nat \<Rightarrow> nat" where
  "append_cap grow cap n = (if n \<le> cap then cap else grow cap n)"

declare go_index_def [go_slice] go_from_def [go_slice] go_upto_def [go_slice]
  go_insert_def [go_slice] append_cap_def [go_slice]

lemma go_index_eq_Some_iff:
  "go_index xs i = Some x \<longleftrightarrow> 0 \<le> i \<and> i < int (length xs) \<and> x = xs ! nat i"
  by (auto simp: go_index_def)

lemma go_index_in_set: "go_index xs i = Some x \<Longrightarrow> x \<in> set xs"
  by (auto simp: go_index_def split: if_splits)

lemma go_index_of_nat [simp]: "i < length xs \<Longrightarrow> go_index xs (int i) = Some (xs ! i)"
  by (simp add: go_index_def)

lemma go_insert_of_nat [simp]: "i \<le> length xs \<Longrightarrow> go_insert xs (int i) x = Some (insert_at i x xs)"
  by (simp add: go_insert_def)

lemma length_insert_at [simp]: "length (insert_at i x xs) = Suc (length xs)"
  by (simp add: insert_at_def)

lemma set_insert_at [simp]: "set (insert_at i x xs) = insert x (set xs)"
proof -
  have "set (take i xs) \<union> set (drop i xs) = set xs"
    by (metis append_take_drop_id set_append)
  then show ?thesis by (auto simp: insert_at_def)
qed

lemma nth_insert_at:
  "i \<le> length xs \<Longrightarrow>
   insert_at i x xs ! j = (if j < i then xs ! j else if j = i then x else xs ! (j - 1))"
  by (auto simp: insert_at_def nth_append nth_Cons' min_def)

lemma le_trans_int: "m \<le> n \<Longrightarrow> int n \<le> b \<Longrightarrow> int m \<le> b"
  by simp

section \<open>Association lists\<close>

text \<open>
  A Go map whose iteration order or size matters is an association list with distinct keys,
  updated by \<^const>\<open>AList.update\<close> and \<^const>\<open>AList.delete\<close>.
\<close>

abbreviation keys_of :: "('k \<times> 'v) list \<Rightarrow> 'k list" where
  "keys_of m \<equiv> map fst m"

abbreviation distinct_keys :: "('k \<times> 'v) list \<Rightarrow> bool" where
  "distinct_keys m \<equiv> distinct (keys_of m)"

lemma distinct_keys_update [simp, intro]: "distinct_keys m \<Longrightarrow> distinct_keys (AList.update k v m)"
  by (rule distinct_update)

lemma distinct_keys_delete [simp, intro]: "distinct_keys m \<Longrightarrow> distinct_keys (AList.delete k m)"
  by (rule distinct_delete)

lemma map_of_update [simp]: "map_of (AList.update k v m) = (map_of m)(k \<mapsto> v)"
  by (rule update_conv')

lemma map_of_delete_upd [simp]: "map_of (AList.delete k m) = (map_of m)(k := None)"
  by (rule delete_conv')

lemma length_update:
  "length (AList.update k v m) = (if k \<in> set (keys_of m) then length m else Suc (length m))"
  by (induction m) auto

lemma length_update_le: "length (AList.update k v m) \<le> Suc (length m)"
  by (simp add: length_update)

lemma length_delete_in:
  "distinct_keys m \<Longrightarrow> k \<in> set (keys_of m) \<Longrightarrow> Suc (length (AList.delete k m)) = length m"
proof (induction m)
  case Nil
  then show ?case by simp
next
  case (Cons p m)
  show ?case
  proof (cases "fst p = k")
    case True
    with Cons.prems have "AList.delete k m = m"
      by (intro delete_id) (auto simp: image_iff)
    with True show ?thesis by (cases p) simp
  next
    case False
    with Cons show ?thesis by (cases p) auto
  qed
qed

lemma map_of_filter_keys:
  "distinct_keys m \<Longrightarrow>
   map_of (filter (\<lambda>(k, v). P k v) m) k
     = (case map_of m k of None \<Rightarrow> None | Some v \<Rightarrow> if P k v then Some v else None)"
  by (induction m) (auto simp: map_of_eq_None_iff image_iff split: option.splits)

lemma distinct_keys_filter [simp, intro]: "distinct_keys m \<Longrightarrow> distinct_keys (filter P m)"
  by (rule distinct_map_filter)

lemma zip_insert_at:
  "i \<le> length xs \<Longrightarrow> length ys = length xs \<Longrightarrow>
   zip (insert_at i x xs) (insert_at i y ys) = insert_at i (x, y) (zip xs ys)"
  by (simp add: insert_at_def take_zip drop_zip)

lemma map_of_split: "map_of m k = (case map_of (take i m) k of None \<Rightarrow> map_of (drop i m) k | Some v \<Rightarrow> Some v)"
proof -
  have "map_of m k = map_of (take i m @ drop i m) k" by simp
  then show ?thesis
    by (simp only: map_of_append map_add_def)
qed

lemma map_of_insert_at:
  "k \<notin> fst ` set (take i m) \<Longrightarrow>
   map_of (insert_at i (k, v) m) k' = (if k' = k then Some v else map_of m k')"
  using map_of_split[of m k' i]
  by (auto simp: insert_at_def map_add_def map_of_eq_None_iff[symmetric] split: option.splits)

lemma map_of_zip_first:
  assumes "i < length ks" and "length vs = length ks" and "\<And>j. j < i \<Longrightarrow> ks ! j \<noteq> ks ! i"
  shows "map_of (zip ks vs) (ks ! i) = Some (vs ! i)"
proof -
  have "map_of (take i (zip ks vs)) (ks ! i) = None"
    using assms by (auto simp: map_of_eq_None_iff in_set_conv_nth)
  moreover have "drop i (zip ks vs) = (ks ! i, vs ! i) # drop (Suc i) (zip ks vs)"
    using assms by (subst Cons_nth_drop_Suc [symmetric]) auto
  ultimately show ?thesis by (subst map_of_split [of _ _ i]) simp
qed

section \<open>Runs of operations\<close>

text \<open>
  The contract every stateful component has: an invariant that each operation keeps, where
  \<open>ok s e\<close> says which operations a client may issue in a state.  What is proved here holds
  of any sequence of operations.
\<close>

locale guarded_system =
  fixes step :: "'s \<Rightarrow> 'e \<Rightarrow> 's"
    and ok :: "'s \<Rightarrow> 'e \<Rightarrow> bool"
    and inv :: "'s \<Rightarrow> bool"
  assumes inv_step: "inv s \<Longrightarrow> ok s e \<Longrightarrow> inv (step s e)"
begin

fun run_ok :: "'s \<Rightarrow> 'e list \<Rightarrow> bool" where
  "run_ok s [] = True"
| "run_ok s (e # es) = (ok s e \<and> run_ok (step s e) es)"

lemma inv_run: "inv s \<Longrightarrow> run_ok s es \<Longrightarrow> inv (foldl step s es)"
  by (induction es arbitrary: s) (auto intro: inv_step)

lemma inv_run_always: "inv s \<Longrightarrow> (\<And>s e. ok s e) \<Longrightarrow> inv (foldl step s es)"
  by (induction es arbitrary: s) (auto intro: inv_step)

lemma inv_prefix: "inv s \<Longrightarrow> run_ok s (es @ es') \<Longrightarrow> inv (foldl step s es)"
  by (induction es arbitrary: s) (auto intro: inv_step)

end

end
