(* ===== verification/SortSearch.thy ===== *)
theory SortSearch
  imports Prelude
begin

text \<open>
  Go's \<^verbatim>\<open>sort.Search\<close>, the binary search that the B-tree index calls, and the contract its
  callers rely on.  The locale \<open>lower_bound\<close> is that contract; \<open>ordered_lower_bound\<close> adds a
  comparison function that orders the keys of a sorted list and proves once what a search in
  such a list finds and where an insertion keeps it sorted.
\<close>

section \<open>The library routine\<close>

text \<open>
  \<^verbatim>\<open>i, j := 0, n; for i < j { h := int(uint(i+j) >> 1); if !f(h) { i = h+1 } else { j = h } }\<close>
\<close>

function search_loop :: "(nat \<Rightarrow> bool) \<Rightarrow> nat \<Rightarrow> nat \<Rightarrow> nat" where
  "search_loop f i j =
     (if i < j then
        (let h = (i + j) div 2 in
         if \<not> f h then search_loop f (Suc h) j else search_loop f i h)
      else i)"
  by pat_completeness auto
termination
  by (relation "measure (\<lambda>(f, i, j). j - i)") auto

declare search_loop.simps [simp del]

lemma search_loop_stop [simp]: "\<not> i < j \<Longrightarrow> search_loop f i j = i"
  by (simp add: search_loop.simps)

lemma search_loop_right:
  "i < j \<Longrightarrow> \<not> f ((i + j) div 2) \<Longrightarrow> search_loop f i j = search_loop f (Suc ((i + j) div 2)) j"
  by (subst search_loop.simps) (simp add: Let_def)

lemma search_loop_left:
  "i < j \<Longrightarrow> f ((i + j) div 2) \<Longrightarrow> search_loop f i j = search_loop f i ((i + j) div 2)"
  by (subst search_loop.simps) (simp add: Let_def)

definition go_search :: "nat \<Rightarrow> (nat \<Rightarrow> bool) \<Rightarrow> nat" where
  "go_search n f = search_loop f 0 n"

definition upward :: "nat \<Rightarrow> (nat \<Rightarrow> bool) \<Rightarrow> bool" where
  "upward n f \<longleftrightarrow> (\<forall>i j. i \<le> j \<longrightarrow> j < n \<longrightarrow> f i \<longrightarrow> f j)"

lemma search_loop_bounds: "i \<le> j \<Longrightarrow> i \<le> search_loop f i j \<and> search_loop f i j \<le> j"
proof (induction f i j rule: search_loop.induct)
  case (1 f i j)
  show ?case
  proof (cases "i < j")
    case True
    let ?h = "(i + j) div 2"
    have h: "i \<le> ?h" "?h < j" using True by auto
    show ?thesis
    proof (cases "f ?h")
      case f: True
      with "1.IH"(2)[OF True refl] h True show ?thesis
        by (simp add: search_loop_left)
    next
      case f: False
      with "1.IH"(1)[OF True refl] h True show ?thesis
        by (simp add: search_loop_right)
    qed
  next
    case False
    with "1.prems" show ?thesis by simp
  qed
qed

lemma search_loop_partition:
  assumes "upward n f" and "j \<le> n" and "i \<le> j"
    and "\<forall>k<i. \<not> f k" and "\<forall>k. j \<le> k \<and> k < n \<longrightarrow> f k"
  shows "(\<forall>k < search_loop f i j. \<not> f k) \<and> (\<forall>k. search_loop f i j \<le> k \<and> k < n \<longrightarrow> f k)"
  using assms
proof (induction f i j rule: search_loop.induct)
  case (1 f i j)
  show ?case
  proof (cases "i < j")
    case True
    let ?h = "(i + j) div 2"
    have h: "i \<le> ?h" "?h < j" using True by auto
    show ?thesis
    proof (cases "f ?h")
      case f: True
      have "\<forall>k. ?h \<le> k \<and> k < n \<longrightarrow> f k"
        using "1.prems"(1) f unfolding upward_def by blast
      with "1.IH"(2)[OF True refl] f h "1.prems" True show ?thesis
        by (simp add: search_loop_left)
    next
      case f: False
      have "\<not> f k" if "k < Suc ?h" for k
      proof
        assume "f k"
        moreover have "k \<le> ?h" "?h < n" using that h "1.prems"(2) by auto
        ultimately have "f ?h" using "1.prems"(1) unfolding upward_def by blast
        with f show False by simp
      qed
      with "1.IH"(1)[OF True refl] f h "1.prems" True show ?thesis
        by (simp add: search_loop_right)
    qed
  next
    case False
    then have "search_loop f i j = i" by simp
    with False "1.prems" show ?thesis by auto
  qed
qed

lemma search_loop_cong:
  "(\<And>h. h < j \<Longrightarrow> f h = g h) \<Longrightarrow> search_loop f i j = search_loop g i j"
proof (induction f i j rule: search_loop.induct)
  case (1 f i j)
  show ?case
  proof (cases "i < j")
    case True
    let ?h = "(i + j) div 2"
    have h: "?h < j" using True by auto
    then have fg: "f ?h = g ?h" using "1.prems" by simp
    show ?thesis
    proof (cases "f ?h")
      case f: True
      have "search_loop f i ?h = search_loop g i ?h"
        using "1.IH"(2)[OF True refl] f "1.prems" h by simp
      with f fg True show ?thesis by (simp add: search_loop_left)
    next
      case f: False
      have "search_loop f (Suc ?h) j = search_loop g (Suc ?h) j"
        using "1.IH"(1)[OF True refl f] "1.prems" by simp
      with f fg True show ?thesis by (simp add: search_loop_right)
    qed
  next
    case False
    then show ?thesis by simp
  qed
qed

text \<open>The search evaluates its predicate below \<open>n\<close> only.\<close>

lemma go_search_cong [fundef_cong]:
  "n = m \<Longrightarrow> (\<And>h. h < m \<Longrightarrow> f h = g h) \<Longrightarrow> go_search n f = go_search m g"
  unfolding go_search_def by (rule subst [where P = "\<lambda>k. _ = search_loop g 0 k"]) (auto intro: search_loop_cong)

section \<open>The contract of the search\<close>

locale lower_bound =
  fixes search :: "nat \<Rightarrow> (nat \<Rightarrow> bool) \<Rightarrow> nat"
  assumes search_le: "search n f \<le> n"
    and search_below: "upward n f \<Longrightarrow> i < search n f \<Longrightarrow> \<not> f i"
    and search_above: "upward n f \<Longrightarrow> search n f \<le> i \<Longrightarrow> i < n \<Longrightarrow> f i"
begin

lemma search_eqI:
  assumes "upward n f" and "p \<le> n" and "\<forall>i<p. \<not> f i" and "p < n \<Longrightarrow> f p"
  shows "search n f = p"
proof (rule antisym)
  show "search n f \<le> p"
  proof (rule ccontr)
    assume "\<not> search n f \<le> p"
    then have "p < search n f" by simp
    with search_below[OF assms(1)] have "\<not> f p" by blast
    moreover have "p < n" using \<open>p < search n f\<close> search_le[of n f] by simp
    ultimately show False using assms(4) by simp
  qed
  show "p \<le> search n f"
  proof (rule ccontr)
    assume "\<not> p \<le> search n f"
    then have "search n f < p" by simp
    moreover from this assms(2) have "f (search n f)"
      by (intro search_above[OF assms(1)]) auto
    ultimately show False using assms(3) by blast
  qed
qed

end

interpretation gs: lower_bound go_search
proof unfold_locales
  fix n f i
  show "go_search n f \<le> n"
    using search_loop_bounds [of 0 n f] by (simp add: go_search_def)
  assume up: "upward n f"
  have part: "(\<forall>k < go_search n f. \<not> f k) \<and> (\<forall>k. go_search n f \<le> k \<and> k < n \<longrightarrow> f k)"
    unfolding go_search_def by (rule search_loop_partition [OF up order_refl]) auto
  show "i < go_search n f \<Longrightarrow> \<not> f i" using part by blast
  show "go_search n f \<le> i \<Longrightarrow> i < n \<Longrightarrow> f i" using part by blast
qed

section \<open>Searching a sorted list\<close>

text \<open>
  \<open>cmp\<close> returns a negative, zero or positive integer and orders the keys that satisfy
  \<open>good\<close>; nothing is assumed about other keys.
\<close>

locale ordered_lower_bound = lower_bound search
  for search :: "nat \<Rightarrow> (nat \<Rightarrow> bool) \<Rightarrow> nat" +
  fixes cmp :: "'k \<Rightarrow> 'k \<Rightarrow> int"
    and good :: "'k \<Rightarrow> bool"
  assumes cmp_sym: "good a \<Longrightarrow> good b \<Longrightarrow> cmp a b = - cmp b a"
    and cmp_eq: "good a \<Longrightarrow> good b \<Longrightarrow> cmp a b = 0 \<longleftrightarrow> a = b"
    and cmp_trans: "good a \<Longrightarrow> good b \<Longrightarrow> good c \<Longrightarrow> cmp a b \<le> 0 \<Longrightarrow> cmp b c \<le> 0 \<Longrightarrow> cmp a c \<le> 0"
begin

definition ascending :: "'k list \<Rightarrow> bool" where
  "ascending ks \<longleftrightarrow> sorted_wrt (\<lambda>a b. cmp a b \<le> 0) ks"

lemma ascending_nth:
  assumes "ascending ks" and "i \<le> j" and "j < length ks" and "good (ks ! i)"
  shows "cmp (ks ! i) (ks ! j) \<le> 0"
proof (cases "i = j")
  case True
  then show ?thesis using cmp_eq[OF assms(4) assms(4)] by simp
next
  case False
  with assms(2) have "i < j" by simp
  with assms(1,3) show ?thesis
    using sorted_wrt_nth_less[of "\<lambda>a b. cmp a b \<le> 0" ks i j] by (simp add: ascending_def)
qed

lemma upward_ge:
  assumes "ascending ks" and g: "\<forall>k\<in>set ks. good k" and "good x"
  shows "upward (length ks) (\<lambda>j. 0 \<le> cmp (ks ! j) x)"
  unfolding upward_def
proof (intro allI impI)
  fix i j
  assume ij: "i \<le> j" "j < length ks" and f: "0 \<le> cmp (ks ! i) x"
  have gi: "good (ks ! i)" and gj: "good (ks ! j)" using g ij by auto
  have "cmp x (ks ! i) \<le> 0" using f cmp_sym[OF gi \<open>good x\<close>] by simp
  moreover have "cmp (ks ! i) (ks ! j) \<le> 0" using assms(1) ij gi by (intro ascending_nth)
  ultimately have "cmp x (ks ! j) \<le> 0" using cmp_trans gi gj \<open>good x\<close> by blast
  then show "0 \<le> cmp (ks ! j) x" using cmp_sym[OF gj \<open>good x\<close>] by simp
qed

definition pos :: "'k list \<Rightarrow> 'k \<Rightarrow> nat" where
  "pos ks x = search (length ks) (\<lambda>j. 0 \<le> cmp (ks ! j) x)"

lemma pos_le: "pos ks x \<le> length ks"
  by (simp add: pos_def search_le)

lemma pos_below:
  assumes "ascending ks" "\<forall>k\<in>set ks. good k" "good x" "i < pos ks x"
  shows "cmp (ks ! i) x < 0"
  using search_below[OF upward_ge[OF assms(1-3)], of i] assms(4) by (simp add: pos_def)

lemma pos_above:
  assumes "ascending ks" "\<forall>k\<in>set ks. good k" "good x" "pos ks x \<le> i" "i < length ks"
  shows "cmp x (ks ! i) \<le> 0"
proof -
  have "0 \<le> cmp (ks ! i) x"
    using search_above[OF upward_ge[OF assms(1-3)], of i] assms(4,5) by (simp add: pos_def)
  moreover have "good (ks ! i)" using assms(2,5) by simp
  ultimately show ?thesis using cmp_sym[of x "ks ! i"] \<open>good x\<close> by simp
qed

lemma pos_eqI:
  assumes "ascending ks" "\<forall>k\<in>set ks. good k" "good x"
    and "p \<le> length ks" "\<forall>i<p. cmp (ks ! i) x < 0" "p < length ks \<Longrightarrow> 0 \<le> cmp (ks ! p) x"
  shows "pos ks x = p"
  unfolding pos_def
  using assms by (intro search_eqI[OF upward_ge]) (auto simp: not_le)

text \<open>The key is present exactly when the search stops on it.\<close>

lemma pos_hit_iff:
  assumes "ascending ks" "\<forall>k\<in>set ks. good k" "good x"
  shows "pos ks x < length ks \<and> cmp x (ks ! pos ks x) = 0 \<longleftrightarrow> x \<in> set ks"
proof
  assume "pos ks x < length ks \<and> cmp x (ks ! pos ks x) = 0"
  then show "x \<in> set ks" using cmp_eq[of x "ks ! pos ks x"] assms by (metis nth_mem)
next
  assume "x \<in> set ks"
  then obtain i where i: "i < length ks" "ks ! i = x" by (auto simp: in_set_conv_nth)
  have "cmp x x = 0" using cmp_eq \<open>good x\<close> by simp
  then have "\<not> i < pos ks x" using pos_below[OF assms, of i] i by auto
  then have le: "pos ks x \<le> i" by simp
  with i have lt: "pos ks x < length ks" by simp
  have gp: "good (ks ! pos ks x)" using assms(2) lt by simp
  have "cmp (ks ! pos ks x) x \<le> 0" using ascending_nth[OF assms(1) le i(1) gp] i(2) by simp
  moreover have "cmp x (ks ! pos ks x) \<le> 0" using pos_above[OF assms order_refl lt] .
  ultimately have "cmp x (ks ! pos ks x) = 0" using cmp_sym[OF gp \<open>good x\<close>] by simp
  with lt show "pos ks x < length ks \<and> cmp x (ks ! pos ks x) = 0" by simp
qed

text \<open>Inserting at the search position keeps the list ascending.\<close>

lemma ascending_insert:
  assumes "ascending ks" "\<forall>k\<in>set ks. good k" "good x"
  shows "ascending (insert_at (pos ks x) x ks)"
proof -
  let ?p = "pos ks x"
  have below: "cmp a x \<le> 0" if a: "a \<in> set (take ?p ks)" for a
  proof -
    obtain i where "i < ?p" "i < length ks" "a = ks ! i"
      using a by (auto simp: in_set_conv_nth)
    then show ?thesis using pos_below[OF assms, of i] by simp
  qed
  have above: "cmp x b \<le> 0" if b: "b \<in> set (drop ?p ks)" for b
  proof -
    obtain i where "i < length ks - ?p" "b = ks ! (?p + i)"
      using b by (auto simp: in_set_conv_nth)
    then show ?thesis using pos_above[OF assms, of "?p + i"] by simp
  qed
  have "sorted_wrt (\<lambda>a b. cmp a b \<le> 0) (take ?p ks @ drop ?p ks)"
    using assms(1) by (simp add: ascending_def)
  then show ?thesis
    unfolding ascending_def insert_at_def sorted_wrt_append
    using below above by auto
qed

text \<open>
  Reading the entry the search stops on, where the keys carry parallel values: it is the
  first entry of the key, so a lookup is \<^const>\<open>map_of\<close> on the pairs.  Inserting at
  the search position shadows older entries of the same key and changes no other lookup.
\<close>

definition lookup :: "'k list \<Rightarrow> 'v list \<Rightarrow> 'k \<Rightarrow> 'v option" where
  "lookup ks vs x =
     (if pos ks x < length ks \<and> cmp x (ks ! pos ks x) = 0 then Some (vs ! pos ks x) else None)"

lemma lookup_map_of:
  assumes asc: "ascending ks" "\<forall>k\<in>set ks. good k" "good x" and len: "length vs = length ks"
  shows "lookup ks vs x = map_of (zip ks vs) x"
proof (cases "x \<in> set ks")
  case True
  let ?p = "pos ks x"
  have hit: "?p < length ks" "cmp x (ks ! ?p) = 0" using pos_hit_iff[OF asc] True by auto
  then have x: "ks ! ?p = x" using cmp_eq[of x "ks ! ?p"] asc by auto
  have "ks ! j \<noteq> x" if "j < ?p" for j
    using pos_below[OF asc that] cmp_eq[OF asc(3) asc(3)] by auto
  with x have "map_of (zip ks vs) x = Some (vs ! ?p)"
    using map_of_zip_first[of ?p ks vs] hit(1) len by auto
  then show ?thesis using hit by (simp add: lookup_def)
next
  case False
  then have "map_of (zip ks vs) x = None" using len by (simp add: map_of_zip_is_None)
  moreover have "lookup ks vs x = None" using pos_hit_iff[OF asc] False by (auto simp: lookup_def)
  ultimately show ?thesis by simp
qed

lemma lookup_insert:
  assumes asc: "ascending ks" "\<forall>k\<in>set ks. good k" "good x" and "good y"
    and len: "length vs = length ks"
  shows "lookup (insert_at (pos ks x) x ks) (insert_at (pos ks x) v vs) y
           = (if y = x then Some v else lookup ks vs y)"
proof -
  let ?p = "pos ks x" and ?z = "zip ks vs"
  have zip: "zip (insert_at ?p x ks) (insert_at ?p v vs) = insert_at ?p (x, v) ?z"
    using len by (simp add: zip_insert_at pos_le)
  have "x \<notin> fst ` set (take ?p ?z)"
  proof
    assume "x \<in> fst ` set (take ?p ?z)"
    then obtain i where "i < ?p" "i < length ks" "x = ks ! i"
      using len by (auto simp: in_set_conv_nth)
    then show False using pos_below[OF asc, of i] cmp_eq[OF asc(3) asc(3)] by simp
  qed
  then have "map_of (insert_at ?p (x, v) ?z) y = (if y = x then Some v else map_of ?z y)"
    by (simp add: map_of_insert_at)
  moreover have "lookup (insert_at ?p x ks) (insert_at ?p v vs) y
      = map_of (zip (insert_at ?p x ks) (insert_at ?p v vs)) y"
    using assms ascending_insert[OF asc] by (intro lookup_map_of) auto
  ultimately show ?thesis using zip lookup_map_of[OF asc(1,2) \<open>good y\<close> len] by simp
qed

lemma ascending_take: "ascending ks \<Longrightarrow> ascending (take n ks)"
  by (simp add: ascending_def sorted_wrt_take)

end

end
