(* ===== verification/BTree.thy ===== *)
theory BTree
  imports SortSearch "HOL-Library.List_Lexorder" "HOL-Library.Char_ord" Complex_Main
begin

text \<open>
  The in-memory index of \<^verbatim>\<open>internal/jsondb/btree.go\<close>.  Nodes are values of a datatype (no
  two nodes share a child, so in-place mutation through pointers is functional update), each
  with the capacity of its key slice, because \<^verbatim>\<open>Insert\<close> tests \<^verbatim>\<open>len(keys) == cap(keys)\<close>.
  The unused field \<^verbatim>\<open>next\<close> is left out.  Values of the index are of any type \<open>'v\<close>.
  Operations return the index beside an \<^typ>\<open>outcome\<close>: the mutex is released by a deferred
  call, so what a panicking call has written stays visible.
\<close>

section \<open>Keys and their comparison\<close>

text \<open>
  A \<^verbatim>\<open>float64\<close> up to what comparison sees of it: a rational (both zeros are \<open>0\<close>), an
  infinity, or NaN, which compares false with everything.
\<close>

datatype float64 = NaN | NegInf | Finite rat | PosInf

instantiation float64 :: ord
begin

fun less_float64 :: "float64 \<Rightarrow> float64 \<Rightarrow> bool" where
  "less_float64 NaN _ = False"
| "less_float64 _ NaN = False"
| "less_float64 NegInf b = (b \<noteq> NegInf)"
| "less_float64 (Finite x) (Finite y) = (x < y)"
| "less_float64 (Finite x) b = (b = PosInf)"
| "less_float64 PosInf _ = False"

definition less_eq_float64 :: "float64 \<Rightarrow> float64 \<Rightarrow> bool" where
  "less_eq_float64 a b \<longleftrightarrow> a < b \<or> (a = b \<and> a \<noteq> NaN)"

instance ..

end

text \<open>The dynamic types an \<^verbatim>\<open>interface{}\<close> key can have; \<open>KOther\<close> is any further one.\<close>

datatype gokey = KString string | KInt64 int64 | KFloat64 float64 | KOther nat

fun compare_key :: "gokey \<Rightarrow> gokey \<Rightarrow> int" where
  "compare_key (KString a) (KString b) = (if a < b then -1 else if b < a then 1 else 0)"
| "compare_key (KInt64 a) (KInt64 b) =
     (if sint a < sint b then -1 else if sint b < sint a then 1 else 0)"
| "compare_key (KFloat64 a) (KFloat64 b) = (if a < b then -1 else if b < a then 1 else 0)"
| "compare_key _ _ = 0"

section \<open>Nodes and the index\<close>

datatype 'v btreeNode =
  BNode (nkeys: "gokey list") (ncap: nat) (nvalues: "'v list list")
        (nchildren: "'v btreeNode list") (nleaf: bool)

record 'v btreeIndex =
  root :: "'v btreeNode"
  degree :: int
  bt_size :: int64

text \<open>What \<^verbatim>\<open>pool.Get\<close> returns: nothing is ever put back, so always a fresh inner node.\<close>

definition pool_node :: "int \<Rightarrow> 'v btreeNode" where
  "pool_node d = BNode [] (nat (d * 2)) [] [] False"

text \<open>\<^const>\<open>None\<close> is the panic of \<^verbatim>\<open>make\<close> on a negative capacity.\<close>

definition NewBTreeIndex :: "int \<Rightarrow> 'v btreeIndex option" where
  "NewBTreeIndex d =
     (if d * 2 < 0 then None
      else Some \<lparr>root = BNode [] (nat (d * 2)) [] [] True, degree = d, bt_size = 0\<rparr>)"

section \<open>Splitting a child\<close>

text \<open>
  \<open>splitChild\<close> slices the upper halves into a fresh node, truncates the child in place, and
  then reads the median from the truncated child.  Every slice and index expression is
  bounds-checked in the order the code evaluates them.
\<close>

definition splitChild ::
  "(nat \<Rightarrow> nat \<Rightarrow> nat) \<Rightarrow> int \<Rightarrow> 'v btreeNode \<Rightarrow> int \<Rightarrow> 'v btreeNode \<times> outcome" where
  "splitChild grow d parent i =
    (case go_index (nchildren parent) i of
       None \<Rightarrow> (parent, Panicked)
     | Some child \<Rightarrow>
       (let mid = d - 1;
            fresh = (pool_node d :: 'v btreeNode);
            upper = (\<lambda>cs. if nleaf child then Some [] else go_from cs (mid + 1));
            lower = (\<lambda>cs. if nleaf child then Some cs else go_upto cs (mid + 1))
        in case (go_from (nkeys child) (mid + 1), go_from (nvalues child) (mid + 1),
                 upper (nchildren child)) of
          (Some rk, Some rv, Some rc) \<Rightarrow>
            (let newNode = BNode rk (append_cap grow (ncap fresh) (length rk)) rv rc (nleaf child)
             in case (go_upto (nkeys child) mid, go_upto (nvalues child) mid,
                      lower (nchildren child)) of
               (Some lk, Some lv, Some lc) \<Rightarrow>
                 (let child' = BNode lk (ncap child) lv lc (nleaf child);
                      kids = (nchildren parent)[nat i := child']
                  in case Option.bind (go_index lk mid) (go_insert (nkeys parent) i) of
                    None \<Rightarrow> (BNode (nkeys parent) (ncap parent) (nvalues parent) kids (nleaf parent),
                             Panicked)
                  | Some pk \<Rightarrow>
                    (let cap' = append_cap grow (ncap parent) (length pk)
                     in case Option.bind (go_index lv mid) (go_insert (nvalues parent) i) of
                       None \<Rightarrow> (BNode pk cap' (nvalues parent) kids (nleaf parent), Panicked)
                     | Some pv \<Rightarrow>
                         (BNode pk cap' pv (insert_at (Suc (nat i)) newNode kids) (nleaf parent),
                          Completed)))
             | _ \<Rightarrow> (parent, Panicked))
        | _ \<Rightarrow> (parent, Panicked)))"

text \<open>
  The median is read at index \<open>degree - 1\<close> of a slice just cut to length \<open>degree - 1\<close>, so no
  split returns normally.
\<close>

lemma splitChild_never_completes: "splitChild grow d parent i \<noteq> (p, Completed)"
  by (auto simp: splitChild_def go_slice Let_def split: option.splits)

section \<open>Insertion\<close>

definition insert_leaf ::
  "(nat \<Rightarrow> nat \<Rightarrow> nat) \<Rightarrow> 'v btreeNode \<Rightarrow> gokey \<Rightarrow> 'v \<Rightarrow> 'v btreeNode \<times> outcome" where
  "insert_leaf grow node key value =
    (let pos = go_search (length (nkeys node)) (\<lambda>j. compare_key (nkeys node ! j) key \<ge> 0);
         ks = insert_at pos key (nkeys node);
         cap' = append_cap grow (ncap node) (length ks)
     in case go_insert (nvalues node) (int pos) [value] of
          None \<Rightarrow> (BNode ks cap' (nvalues node) (nchildren node) (nleaf node), Panicked)
        | Some vs \<Rightarrow> (BNode ks cap' vs (nchildren node) (nleaf node), Completed))"

text \<open>
  The inner-node branch up to the recursive call: choose the child, clamp the position, split
  a full child, append a fresh node when the position is still past the end.  The result is
  the node so far and the child position to descend to, or \<^const>\<open>None\<close> after a panic.
\<close>

definition choose_child ::
  "(nat \<Rightarrow> nat \<Rightarrow> nat) \<Rightarrow> int \<Rightarrow> 'v btreeNode \<Rightarrow> gokey \<Rightarrow> 'v btreeNode \<times> int option" where
  "choose_child grow d node key =
    (let pos0 = int (go_search (length (nkeys node)) (\<lambda>j. compare_key (nkeys node ! j) key \<ge> 0));
         n = int (length (nchildren node));
         pos1 = (if pos0 \<ge> n then n - 1 else pos0)
     in case (if pos1 < n
              then (case go_index (nchildren node) pos1 of
                      None \<Rightarrow> (node, None)
                    | Some c \<Rightarrow>
                        if length (nkeys c) = ncap c
                        then (case splitChild grow d node pos1 of
                                (node', Panicked) \<Rightarrow> (node', None)
                              | (node', Completed) \<Rightarrow>
                                  (node',
                                   Some (if pos1 < int (length (nkeys node'))
                                            \<and> compare_key key (nkeys node' ! nat pos1) > 0
                                         then pos1 + 1 else pos1)))
                        else (node, Some pos1))
              else (node, Some pos1)) of
          (node', None) \<Rightarrow> (node', None)
        | (node', Some pos) \<Rightarrow>
            (if pos \<ge> int (length (nchildren node'))
             then BNode (nkeys node') (ncap node') (nvalues node')
                        (nchildren node' @ [pool_node d]) (nleaf node')
             else node',
             Some pos))"

lemma choose_child_Some:
  "choose_child grow d node key = (node', Some pos) \<Longrightarrow> node' = node \<and> pos < int (length (nchildren node))"
  by (auto simp: choose_child_def Let_def splitChild_never_completes
      split: if_splits option.splits prod.splits outcome.splits)

lemma size_child: "go_index (nchildren node) i = Some c \<Longrightarrow> size c < size node"
proof (cases node)
  case (BNode ks cap vs cs lf)
  assume "go_index (nchildren node) i = Some c"
  then have "c \<in> set cs" using BNode by (auto dest: go_index_in_set)
  then have "size c \<le> size_list size cs" by (simp add: size_list_estimation')
  then show ?thesis using BNode by simp
qed

function (sequential) insertNonFull ::
  "(nat \<Rightarrow> nat \<Rightarrow> nat) \<Rightarrow> int \<Rightarrow> 'v btreeNode \<Rightarrow> gokey \<Rightarrow> 'v \<Rightarrow> 'v btreeNode \<times> outcome" where
  "insertNonFull grow d node key value =
    (if nleaf node then insert_leaf grow node key value
     else
       (case choose_child grow d node key of
          (node', None) \<Rightarrow> (node', Panicked)
        | (node', Some pos) \<Rightarrow>
            (case go_index (nchildren node') pos of
               None \<Rightarrow> (node', Panicked)
             | Some c \<Rightarrow>
                 (case insertNonFull grow d c key value of
                    (c', r) \<Rightarrow>
                      (BNode (nkeys node') (ncap node') (nvalues node')
                             ((nchildren node')[nat pos := c']) (nleaf node'), r)))))"
  by pat_completeness auto

termination
  by (relation "measure (\<lambda>(grow, d, node, key, value). size node)")
     (auto dest!: choose_child_Some [OF sym] size_child)

declare insertNonFull.simps [simp del]

definition btree_Insert ::
  "(nat \<Rightarrow> nat \<Rightarrow> nat) \<Rightarrow> 'v btreeIndex \<Rightarrow> gokey \<Rightarrow> 'v \<Rightarrow> 'v btreeIndex \<times> outcome" where
  "btree_Insert grow bt key value =
    (let node = root bt;
         prepared =
           (if length (nkeys node) = ncap node
            then let newRoot = pool_node (degree bt);
                     newRoot' = BNode (nkeys newRoot) (ncap newRoot) (nvalues newRoot)
                                      (nchildren newRoot @ [node]) False
                 in case splitChild grow (degree bt) newRoot' 0 of
                      (p, Panicked) \<Rightarrow> (bt\<lparr>root := nchildren p ! 0\<rparr>, Panicked)
                    | (p, Completed) \<Rightarrow> (bt\<lparr>root := p\<rparr>, Completed)
            else (bt, Completed))
     in case prepared of
          (bt', Panicked) \<Rightarrow> (bt', Panicked)
        | (bt', Completed) \<Rightarrow>
            (case insertNonFull grow (degree bt) (root bt') key value of
               (node', Panicked) \<Rightarrow> (bt'\<lparr>root := node'\<rparr>, Panicked)
             | (node', Completed) \<Rightarrow>
                 (bt'\<lparr>root := node', bt_size := bt_size bt' + 1\<rparr>, Completed)))"

section \<open>Search\<close>

text \<open>\<open>Value None\<close> is the \<^verbatim>\<open>nil\<close> of an absent key.\<close>

function (sequential) search_node :: "'v btreeNode \<Rightarrow> gokey \<Rightarrow> 'v list option result" where
  "search_node node key =
    (let idx = go_search (length (nkeys node)) (\<lambda>i. compare_key key (nkeys node ! i) \<le> 0)
     in if idx < length (nkeys node) \<and> compare_key key (nkeys node ! idx) = 0
        then (case go_index (nvalues node) (int idx) of
                None \<Rightarrow> Panic | Some v \<Rightarrow> Value (Some v))
        else if nleaf node then Value None
        else (case go_index (nchildren node) (int idx) of
                None \<Rightarrow> Panic | Some c \<Rightarrow> search_node c key))"
  by pat_completeness auto
termination
  by (relation "measure (\<lambda>(node, key). size node)") (auto dest!: size_child)

declare search_node.simps [simp del]

definition btree_Search :: "'v btreeIndex \<Rightarrow> gokey \<Rightarrow> 'v list option result" where
  "btree_Search bt key = search_node (root bt) key"

section \<open>The order on keys of one kind\<close>

text \<open>
  \<^const>\<open>compare_key\<close> orders the keys of one dynamic type (floats other than NaN); keys of
  different types all compare equal, so only an index with keys of one kind is a search tree.
\<close>

datatype kind = StringKind | Int64Kind | Float64Kind

fun has_kind :: "kind \<Rightarrow> gokey \<Rightarrow> bool" where
  "has_kind StringKind (KString _) = True"
| "has_kind Int64Kind (KInt64 _) = True"
| "has_kind Float64Kind (KFloat64 f) = (f \<noteq> NaN)"
| "has_kind _ _ = False"

lemma has_kindE:
  assumes "has_kind \<kappa> k"
  obtains s where "\<kappa> = StringKind" "k = KString s"
  | n where "\<kappa> = Int64Kind" "k = KInt64 n"
  | f where "\<kappa> = Float64Kind" "k = KFloat64 f" "f \<noteq> NaN"
  using assms by (cases "(\<kappa>, k)" rule: has_kind.cases) auto

lemma float64_total: "a \<noteq> NaN \<Longrightarrow> b \<noteq> NaN \<Longrightarrow> (a :: float64) < b \<or> a = b \<or> b < a"
  by (cases a; cases b) auto

lemma float64_asym: "(a :: float64) < b \<Longrightarrow> \<not> b < a"
  by (cases a; cases b) auto

lemma float64_irrefl [simp]: "\<not> (a :: float64) < a"
  by (cases a) auto

lemma float64_trans: "(a :: float64) < b \<Longrightarrow> b < c \<Longrightarrow> a < c"
  by (cases a; cases b; cases c) auto

interpretation kb: ordered_lower_bound go_search compare_key "has_kind \<kappa>" for \<kappa>
proof unfold_locales
  fix a b c
  assume a: "has_kind \<kappa> a" and b: "has_kind \<kappa> b"
  show "compare_key a b = - compare_key b a"
    using a b by (auto elim!: has_kindE dest: float64_asym)
  show "compare_key a b = 0 \<longleftrightarrow> a = b"
    using a b by (auto elim!: has_kindE dest: float64_total int64_eqI split: if_splits)
  assume "has_kind \<kappa> c" "compare_key a b \<le> 0" "compare_key b c \<le> 0"
  then show "compare_key a c \<le> 0"
    using a b by (auto elim!: has_kindE dest: float64_asym float64_total float64_trans split: if_splits)
qed

section \<open>The invariant of a reachable index\<close>

text \<open>
  Splits never complete, so the root of every index that \<^verbatim>\<open>NewBTreeIndex\<close> and
  \<^verbatim>\<open>Insert\<close> produce is a single leaf of at most \<open>2 * degree\<close> ascending keys.
\<close>

definition btree_ok :: "kind \<Rightarrow> 'v btreeIndex \<Rightarrow> bool" where
  "btree_ok \<kappa> bt \<longleftrightarrow>
     1 \<le> degree bt \<and> nleaf (root bt) \<and> nchildren (root bt) = []
     \<and> int (ncap (root bt)) = 2 * degree bt
     \<and> length (nkeys (root bt)) \<le> ncap (root bt)
     \<and> length (nvalues (root bt)) = length (nkeys (root bt))
     \<and> (\<forall>k\<in>set (nkeys (root bt)). has_kind \<kappa> k)
     \<and> kb.ascending (nkeys (root bt))"

text \<open>The entries of the leaf, as an association list.\<close>

definition entries :: "'v btreeIndex \<Rightarrow> (gokey \<times> 'v list) list" where
  "entries bt = zip (nkeys (root bt)) (nvalues (root bt))"

lemma btree_ok_new:
  assumes "NewBTreeIndex d = Some bt" and "1 \<le> d"
  shows "btree_ok \<kappa> bt" and "entries bt = []" and "degree bt = d" and "bt_size bt = 0"
  using assms by (auto simp: NewBTreeIndex_def btree_ok_def kb.ascending_def entries_def)

lemma search_leaf:
  assumes "btree_ok \<kappa> bt" and "has_kind \<kappa> k"
  shows "btree_Search bt k = Value (map_of (entries bt) k)"
proof -
  obtain ks cap vs where r: "root bt = BNode ks cap vs [] True"
    using assms(1) by (cases "root bt") (auto simp: btree_ok_def)
  have ok: "kb.ascending ks" "\<forall>x\<in>set ks. has_kind \<kappa> x" "length vs = length ks"
    using assms(1) by (auto simp: btree_ok_def r)
  have "compare_key k (ks ! i) \<le> 0 \<longleftrightarrow> 0 \<le> compare_key (ks ! i) k" if "i < length ks" for i
    using kb.cmp_sym[of \<kappa> k "ks ! i"] assms(2) ok(2) that by auto
  then have "go_search (length ks) (\<lambda>i. compare_key k (ks ! i) \<le> 0) = kb.pos ks k"
    unfolding kb.pos_def by (intro go_search_cong) auto
  then have "btree_Search bt k = Value (kb.lookup ks vs k)"
    using ok(3) by (simp add: btree_Search_def r search_node.simps kb.lookup_def Let_def)
  then show ?thesis
    using kb.lookup_map_of[OF ok(1,2) assms(2) ok(3)] by (simp add: entries_def r)
qed

text \<open>An insertion below capacity, computed.\<close>

lemma insert_room:
  assumes "btree_ok \<kappa> bt" and "length (nkeys (root bt)) < ncap (root bt)"
    and r: "root bt = BNode ks cap vs [] True"
  shows "btree_Insert grow bt key v =
    (bt\<lparr>root := BNode (insert_at (kb.pos ks key) key ks) cap
                       (insert_at (kb.pos ks key) [v] vs) [] True,
        bt_size := bt_size bt + 1\<rparr>, Completed)"
proof -
  have "go_search (length ks) (\<lambda>j. 0 \<le> compare_key (ks ! j) key) = kb.pos ks key"
    by (simp add: kb.pos_def)
  moreover have "kb.pos ks key \<le> length vs"
    using assms kb.pos_le[of ks key] by (simp add: btree_ok_def)
  ultimately show ?thesis
    using assms
    by (simp add: btree_Insert_def insertNonFull.simps insert_leaf_def append_cap_def Let_def)
qed

lemma ok_insert_room:
  assumes ok: "btree_ok \<kappa> bt" and room: "length (nkeys (root bt)) < ncap (root bt)"
    and k: "has_kind \<kappa> key" and ins: "btree_Insert grow bt key v = (bt', r)"
  shows "r = Completed \<and> btree_ok \<kappa> bt' \<and> degree bt' = degree bt
    \<and> length (entries bt') = Suc (length (entries bt))
    \<and> (\<forall>k'. has_kind \<kappa> k' \<longrightarrow>
           map_of (entries bt') k' = (if k' = key then Some [v] else map_of (entries bt) k'))"
proof -
  obtain ks cap vs where r: "root bt = BNode ks cap vs [] True"
    using ok by (cases "root bt") (auto simp: btree_ok_def)
  have h: "kb.ascending ks" "\<forall>x\<in>set ks. has_kind \<kappa> x" "length vs = length ks"
    using ok by (auto simp: btree_ok_def r)
  note ins' = insert_room[OF ok room r, of grow key v]
  have bt': "bt' = bt\<lparr>root := BNode (insert_at (kb.pos ks key) key ks) cap
                       (insert_at (kb.pos ks key) [v] vs) [] True, bt_size := bt_size bt + 1\<rparr>"
    and "r = Completed"
    using ins ins' by simp_all
  have ok': "btree_ok \<kappa> bt'"
    using ok room k kb.ascending_insert[OF h(1,2) k] by (simp add: btree_ok_def r bt')
  have "map_of (entries bt') k' = (if k' = key then Some [v] else map_of (entries bt) k')"
    if k': "has_kind \<kappa> k'" for k'
  proof -
    have "map_of (entries bt') k' = kb.lookup (nkeys (root bt')) (nvalues (root bt')) k'"
      using ok' k' kb.lookup_map_of[of "nkeys (root bt')" \<kappa> k' "nvalues (root bt')"]
      by (simp add: btree_ok_def entries_def)
    also have "\<dots> = (if k' = key then Some [v] else kb.lookup ks vs k')"
      using kb.lookup_insert[OF h(1,2) k k' h(3)] by (simp add: bt')
    also have "kb.lookup ks vs k' = map_of (entries bt) k'"
      using kb.lookup_map_of[OF h(1,2) k' h(3)] by (simp add: entries_def r)
    finally show ?thesis .
  qed
  with ok' \<open>r = Completed\<close> show ?thesis using h(3) by (simp add: entries_def r bt')
qed

text \<open>An insertion at capacity, computed: the leaf is cut below its median and the call panics.\<close>

lemma insert_full:
  assumes "btree_ok \<kappa> bt" and "length (nkeys (root bt)) = ncap (root bt)"
  shows "btree_Insert grow bt key v =
    (bt\<lparr>root := BNode (take (nat (degree bt - 1)) (nkeys (root bt))) (ncap (root bt))
                      (take (nat (degree bt - 1)) (nvalues (root bt))) [] True\<rparr>, Panicked)"
proof -
  obtain ks cap vs where r: "root bt = BNode ks cap vs [] True"
    using assms(1) by (cases "root bt") (auto simp: btree_ok_def)
  have b: "degree bt \<le> int (length ks)" "1 \<le> degree bt" "length vs = length ks"
    using assms by (auto simp: btree_ok_def r)
  show ?thesis
    using assms b
    by (simp add: btree_Insert_def splitChild_def go_slice pool_node_def r Let_def)
qed

lemma ok_insert:
  assumes "btree_ok \<kappa> bt" and "has_kind \<kappa> key"
  shows "btree_ok \<kappa> (fst (btree_Insert grow bt key v))
    \<and> degree (fst (btree_Insert grow bt key v)) = degree bt"
proof (cases "length (nkeys (root bt)) = ncap (root bt)")
  case True
  from insert_full[OF assms(1) True, of grow key v] assms(1) show ?thesis
    by (auto simp: btree_ok_def kb.ascending_take dest: in_set_takeD)
next
  case False
  with assms(1) have "length (nkeys (root bt)) < ncap (root bt)" by (simp add: btree_ok_def)
  with ok_insert_room[OF assms(1) _ assms(2)] show ?thesis
    by (metis prod.collapse)
qed

text \<open>Any sequence of insertions, panicking calls included.\<close>

abbreviation insert_step ::
  "(nat \<Rightarrow> nat \<Rightarrow> nat) \<Rightarrow> 'v btreeIndex \<Rightarrow> gokey \<times> 'v \<Rightarrow> 'v btreeIndex" where
  "insert_step grow bt e \<equiv> fst (btree_Insert grow bt (fst e) (snd e))"

interpretation bi: guarded_system "insert_step grow" "\<lambda>_ e. has_kind \<kappa> (fst e)"
    "\<lambda>bt. btree_ok \<kappa> bt \<and> degree bt = d" for grow \<kappa> d
  by unfold_locales (auto dest: ok_insert)

lemma run_ok_kinds:
  "(\<forall>e\<in>set es. has_kind \<kappa> (fst e)) \<Longrightarrow> bi.run_ok grow \<kappa> bt es"
  by (induction es arbitrary: bt) auto

section \<open>Properties of the index\<close>

text \<open>
  C5. Below capacity an insertion completes, counts the entry, keeps the index well formed,
  and is seen by every later search: the inserted key finds the new value alone (it shadows
  older values of that key), every other key of the kind finds what it found before.
\<close>

theorem btree_insert_then_search:
  assumes "btree_ok \<kappa> bt" and "length (nkeys (root bt)) < ncap (root bt)"
    and "has_kind \<kappa> key" and "has_kind \<kappa> k'"
  shows "\<exists>bt'. btree_Insert grow bt key v = (bt', Completed) \<and> btree_ok \<kappa> bt'
    \<and> bt_size bt' = bt_size bt + 1
    \<and> btree_Search bt' k' = (if k' = key then Value (Some [v]) else btree_Search bt k')"
proof -
  obtain bt' r where ins: "btree_Insert grow bt key v = (bt', r)" by force
  note ok' = ok_insert_room[OF assms(1-3) ins]
  obtain ks cap vs where r: "root bt = BNode ks cap vs [] True"
    using assms(1) by (cases "root bt") (auto simp: btree_ok_def)
  have "bt_size bt' = bt_size bt + 1"
    using insert_room[OF assms(1,2) r, of grow key v] ins by auto
  then show ?thesis
    using ins ok' assms search_leaf[of \<kappa> bt' k'] search_leaf[of \<kappa> bt k'] by auto
qed

definition sample_index :: "nat btreeIndex" where
  "sample_index = \<lparr>root = BNode [KString ''a'', KString ''c''] 4 [[1], [3]] [] True,
                   degree = 2, bt_size = 2\<rparr>"

lemma sample_index_ok: "btree_ok StringKind sample_index"
  by (simp add: btree_ok_def sample_index_def kb.ascending_def less_char_def of_char_def)

theorem btree_insert_then_search_witness:
  "\<exists>bt'. btree_Insert (\<lambda>_ n. n) sample_index (KString ''b'') 2 = (bt', Completed)
     \<and> btree_ok StringKind bt' \<and> bt_size bt' = bt_size sample_index + 1
     \<and> btree_Search bt' (KString ''b'') = Value (Some [2])"
  using btree_insert_then_search[OF sample_index_ok, of "KString ''b''" "KString ''b''" "\<lambda>_ n. n" 2]
  by (simp add: sample_index_def)

text \<open>
  C17. The insertion that finds the root full panics, for every well-formed index: the split
  truncates the root to its lower \<open>degree - 1\<close> entries before it reads the median past the
  cut, so the key is not inserted and the upper \<open>degree + 1\<close> entries are gone.
\<close>

theorem btree_full_insert_panics:
  assumes "btree_ok \<kappa> bt" and "length (nkeys (root bt)) = ncap (root bt)"
  shows "snd (btree_Insert grow bt key v) = Panicked
    \<and> entries (fst (btree_Insert grow bt key v)) = take (nat (degree bt - 1)) (entries bt)
    \<and> length (entries bt) - length (entries (fst (btree_Insert grow bt key v)))
        = nat (degree bt + 1)
    \<and> bt_size (fst (btree_Insert grow bt key v)) = bt_size bt"
  using assms by (simp add: insert_full[OF assms] entries_def take_zip btree_ok_def) linarith

theorem btree_full_insert_panics_witness:
  "snd (btree_Insert (\<lambda>_ n. n)
      \<lparr>root = BNode [KInt64 1, KInt64 2] 2 [[''x''], [''y'']] [] True, degree = 1, bt_size = 2\<rparr>
      (KInt64 3) ''z'') = Panicked"
  using btree_full_insert_panics[of Int64Kind
      "\<lparr>root = BNode [KInt64 1, KInt64 2] 2 [[''x''], [''y'']] [] True, degree = 1, bt_size = 2\<rparr>"]
  by (simp add: btree_ok_def kb.ascending_def)

text \<open>
  An index built by \<^verbatim>\<open>NewBTreeIndex\<close> and any sequence of insertions of keys of one kind,
  the panicking ones included, is always one leaf of at most \<open>2 * degree\<close> sorted entries: the
  tree never grows a second level.
\<close>

theorem btree_stays_one_leaf:
  assumes "NewBTreeIndex d = Some bt" and "1 \<le> d" and "\<forall>e\<in>set es. has_kind \<kappa> (fst e)"
  shows "nchildren (root (foldl (insert_step grow) bt es)) = []
    \<and> int (length (nkeys (root (foldl (insert_step grow) bt es)))) \<le> 2 * d
    \<and> kb.ascending (nkeys (root (foldl (insert_step grow) bt es)))"
proof -
  have "btree_ok \<kappa> bt \<and> degree bt = d" using btree_ok_new[OF assms(1,2)] by simp
  from bi.inv_run[OF this run_ok_kinds[OF assms(3)], of grow]
  show ?thesis by (auto simp: btree_ok_def)
qed

theorem btree_stays_one_leaf_witness:
  "nchildren (root (foldl (insert_step (\<lambda>_ n. n))
      \<lparr>root = BNode [] 2 [] [] True, degree = 1, bt_size = 0\<rparr>
      [(KInt64 1, ''x''), (KInt64 2, ''y''), (KInt64 3, ''z'')])) = []"
  using btree_stays_one_leaf[of 1 "\<lparr>root = BNode [] 2 [] [] True, degree = 1, bt_size = 0\<rparr>"
      "[(KInt64 1, ''x''), (KInt64 2, ''y''), (KInt64 3, ''z'')]" Int64Kind]
  by (simp add: NewBTreeIndex_def)

text \<open>
  The first \<open>2 * degree\<close> insertions refine updates of a finite map.
\<close>

lemma run_refines_map:
  assumes "btree_ok \<kappa> bt" and "\<forall>e\<in>set es. has_kind \<kappa> (fst e)"
    and "length (entries bt) + length es \<le> nat (2 * degree bt)"
  shows "btree_ok \<kappa> (foldl (insert_step grow) bt es) \<and>
    (\<forall>k. has_kind \<kappa> k \<longrightarrow> map_of (entries (foldl (insert_step grow) bt es)) k =
        (case map_of (rev es) k of Some v \<Rightarrow> Some [v] | None \<Rightarrow> map_of (entries bt) k))"
  using assms
proof (induction es arbitrary: bt)
  case Nil
  then show ?case by simp
next
  case (Cons e es)
  obtain bt' r where ins: "btree_Insert grow bt (fst e) (snd e) = (bt', r)" by force
  have "length (nkeys (root bt)) < ncap (root bt)"
    using Cons.prems by (auto simp: btree_ok_def entries_def)
  note ok' = ok_insert_room[OF Cons.prems(1) this _ ins]
  with Cons.prems Cons.IH[of bt'] ins show ?case
    by (auto simp: map_add_def map_of_append split: option.splits)
qed

text \<open>
  C4. Up to capacity the index is a finite map: after at most \<open>2 * degree\<close> insertions into a
  new index, a search for a key of the kind returns the last value inserted under it, or
  \<^verbatim>\<open>nil\<close> when there is none.
\<close>

theorem btree_refines_map:
  assumes "NewBTreeIndex d = Some bt" and "1 \<le> d" and "\<forall>e\<in>set es. has_kind \<kappa> (fst e)"
    and "length es \<le> nat (2 * d)" and "has_kind \<kappa> k"
  shows "btree_Search (foldl (insert_step grow) bt es) k
    = Value (map_option (\<lambda>v. [v]) (map_of (rev es) k))"
proof -
  note new = btree_ok_new[OF assms(1,2)]
  from run_refines_map[OF new(1)[of \<kappa>] assms(3), of grow] new assms
  show ?thesis by (auto simp: search_leaf split: option.splits)
qed

theorem btree_refines_map_witness:
  "btree_Search (foldl (insert_step (\<lambda>_ n. n))
      \<lparr>root = BNode [] 4 [] [] True, degree = 2, bt_size = 0\<rparr>
      [(KString ''k'', 1), (KString ''j'', 2), (KString ''k'', 3 :: nat)]) (KString ''k'')
   = Value (Some [3])"
  using btree_refines_map[of 2 "\<lparr>root = BNode [] 4 [] [] True, degree = 2, bt_size = 0\<rparr>"
      "[(KString ''k'', 1), (KString ''j'', 2), (KString ''k'', 3 :: nat)]" StringKind "KString ''k''"]
  by (simp add: NewBTreeIndex_def)

text \<open>
  Keys of different dynamic types compare equal, so a search never misses on a key of a
  foreign type: in a nonempty index of strings it returns the values of the smallest string.
\<close>

theorem btree_search_wrong_type_hits:
  assumes "btree_ok StringKind bt" and "nkeys (root bt) \<noteq> []"
  shows "btree_Search bt (KInt64 n) = Value (Some (nvalues (root bt) ! 0))"
proof -
  obtain ks cap vs where r: "root bt = BNode ks cap vs [] True"
    using assms(1) by (cases "root bt") (auto simp: btree_ok_def)
  have z: "compare_key (KInt64 n) (ks ! i) = 0" if "i < length ks" for i
  proof -
    have "has_kind StringKind (ks ! i)" using assms(1) that by (auto simp: btree_ok_def r)
    then show ?thesis by (cases "ks ! i") auto
  qed
  have "go_search (length ks) (\<lambda>i. compare_key (KInt64 n) (ks ! i) \<le> 0) = 0"
    by (rule gs.search_eqI) (auto simp: upward_def z)
  then show ?thesis
    using assms z by (auto simp: btree_Search_def r search_node.simps btree_ok_def Let_def go_index_def)
qed

theorem btree_search_wrong_type_hits_witness:
  "btree_Search sample_index (KInt64 7) = Value (Some [1])"
  using btree_search_wrong_type_hits[OF sample_index_ok, of 7] by (simp add: sample_index_def)

end
