(* ===== verification/Hashing.thy ===== *)
theory Hashing
  imports Prelude
begin

text \<open>
  \<^verbatim>\<open>internal/utils/utils.go\<close>, the hash loop of \<^verbatim>\<open>internal/plugins/plugins.go\<close> and the
  shard choice of \<^verbatim>\<open>internal/jsondb/engine.go\<close>.  Go strings are lists of bytes, one
  \<^typ>\<open>char\<close> each.  The locale \<open>sharding\<close> is the contract of a routing function; the
  rate limiter and the document engine are its two clients.
\<close>

unbundle bit_operations_syntax

section \<open>FNV-1a\<close>

text \<open>The standard library's \<^verbatim>\<open>fnv.New32a\<close>: xor the next byte in, then multiply.\<close>

definition fnv_offset :: uint32 where "fnv_offset = 2166136261"
definition fnv_prime :: uint32 where "fnv_prime = 16777619"

fun fnv32a_write :: "uint32 \<Rightarrow> string \<Rightarrow> uint32" where
  "fnv32a_write h [] = h"
| "fnv32a_write h (c # cs) = fnv32a_write ((h XOR of_char c) * fnv_prime) cs"

text \<open>\<^verbatim>\<open>utils.FNVHash\<close>.\<close>

definition FNVHash :: "string \<Rightarrow> uint32" where
  "FNVHash s = fnv32a_write fnv_offset s"

text \<open>
  The rate limiter's own \<^verbatim>\<open>fnvHash\<close>, a loop over the index; \<open>h ^= uint32(s[i])\<close> and
  \<open>h *= 16777619\<close> are separate statements.
\<close>

function fnvHash_loop :: "string \<Rightarrow> nat \<Rightarrow> uint32 \<Rightarrow> uint32" where
  "fnvHash_loop s i h =
     (if i < length s
      then let h1 = h XOR of_char (s ! i); h2 = h1 * 16777619 in fnvHash_loop s (Suc i) h2
      else h)"
  by pat_completeness auto
termination
  by (relation "measure (\<lambda>(s, i, h). length s - i)") auto

declare fnvHash_loop.simps [simp del]

definition fnvHash :: "string \<Rightarrow> uint32" where
  "fnvHash s = fnvHash_loop s 0 2166136261"

lemma fnvHash_loop_drop: "fnvHash_loop s i h = fnv32a_write h (drop i s)"
proof (induction s i h rule: fnvHash_loop.induct)
  case (1 s i h)
  show ?case
  proof (cases "i < length s")
    case True
    then have "drop i s = s ! i # drop (Suc i) s" by (simp add: Cons_nth_drop_Suc)
    with "1.IH"[OF True refl refl] True show ?thesis
      by (simp add: fnvHash_loop.simps [of s i h] fnv_prime_def Let_def)
  next
    case False
    then show ?thesis by (simp add: fnvHash_loop.simps [of s i h])
  qed
qed

text \<open>
  The rate limiter's hand-written loop computes the FNV-1a hash of
  \<^verbatim>\<open>utils.FNVHash\<close> on every string, so both route a key the same way.
\<close>

theorem fnvHash_is_FNVHash: "fnvHash s = FNVHash s"
  by (simp add: fnvHash_def FNVHash_def fnvHash_loop_drop fnv_offset_def)

section \<open>The other utilities\<close>

fun Contains :: "string list \<Rightarrow> string \<Rightarrow> bool" where
  "Contains [] item = False"
| "Contains (s # ss) item = (if s = item then True else Contains ss item)"

definition Min_int :: "int \<Rightarrow> int \<Rightarrow> int" where
  "Min_int a b = (if a < b then a else b)"

definition Max_int :: "int \<Rightarrow> int \<Rightarrow> int" where
  "Max_int a b = (if a > b then a else b)"

lemma Contains_iff: "Contains ss item \<longleftrightarrow> item \<in> set ss"
  by (induction ss) auto

section \<open>Routing to shards\<close>

text \<open>
  \<open>getShard\<close>: the hash of \<^verbatim>\<open>collection + ":" + id\<close> as a (64-bit) \<^verbatim>\<open>int\<close>, modulo the
  number of shards.  A zero count is Go's division panic.
\<close>

definition getShard :: "nat \<Rightarrow> string \<Rightarrow> string \<Rightarrow> nat option" where
  "getShard shardCount doc_id collection =
     (if shardCount = 0 then None
      else Some (unat (FNVHash (collection @ '':'' @ doc_id)) mod shardCount))"

text \<open>The limiter shard of a client address: \<^verbatim>\<open>fnvHash(ip) % 256\<close> on \<^verbatim>\<open>uint32\<close>.\<close>

definition limiter_shard :: "string \<Rightarrow> nat" where
  "limiter_shard ip = unat (fnvHash ip mod 256)"

locale sharding =
  fixes shard_of :: "'k \<Rightarrow> nat" and count :: nat
  assumes shard_lt: "shard_of k < count"
begin

lemma routed_same: "length shards = count \<Longrightarrow> (shards[shard_of k := m]) ! shard_of k = m"
  by (simp add: shard_lt)

lemma routed_entry:
  "length shards = count \<Longrightarrow>
   (shards[shard_of k := (shards ! shard_of k)(k := v)] ! shard_of k') k'
     = (if k' = k then v else (shards ! shard_of k') k')"
  using shard_lt [of k] by (auto simp: nth_list_update)

lemma routed_index: "length shards = count \<Longrightarrow> shards ! shard_of k \<in> set shards"
  using shard_lt [of k] by simp

end

lemma limiter_shard_lt: "limiter_shard ip < 256"
proof -
  have "unat (fnvHash ip mod 256) = unat (fnvHash ip) mod 256" by (simp add: unat_mod)
  then show ?thesis by (simp add: limiter_shard_def)
qed

interpretation ls: sharding limiter_shard 256
  by unfold_locales (rule limiter_shard_lt)

definition shard16 :: "string \<times> string \<Rightarrow> nat" where
  "shard16 ci = the (getShard 16 (snd ci) (fst ci))"

interpretation es: sharding shard16 16
  by unfold_locales (simp add: shard16_def getShard_def)

lemma getShard_16: "getShard 16 doc_id collection = Some (shard16 (collection, doc_id))"
  by (simp add: shard16_def getShard_def)

end
