(* ===== verification/Cache.thy ===== *)
theory Cache
  imports Prelude
begin

text \<open>
  \<^verbatim>\<open>internal/cache/cache.go\<close>: the in-memory cache with expiry and eviction, and the manager
  that puts it in front of Redis.  The clock is an argument (\<open>now\<close>, in nanoseconds), the key
  that Go's map iteration yields first is an argument (\<open>victim\<close>), and the Redis client and
  the JSON codec are function parameters.  The locale \<open>coherent_store\<close> is what users of a
  cache rely on: a lookup returns the last value written under the key or nothing.
\<close>

section \<open>The contract of a cache\<close>

text \<open>
  \<open>effect op s k\<close> is what the operation does to the entry of \<open>k\<close>: \<^const>\<open>None\<close> when it is
  not addressed (it may still be evicted), \<open>Some None\<close> when it is removed,
  \<open>Some (Some v)\<close> when \<open>v\<close> is stored.
\<close>

locale coherent_store =
  fixes step :: "'s \<Rightarrow> 'op \<Rightarrow> 's"
    and lookup :: "'s \<Rightarrow> 'k \<Rightarrow> 'v option"
    and effect :: "'op \<Rightarrow> 's \<Rightarrow> 'k \<Rightarrow> 'v option option"
    and good :: "'s \<Rightarrow> bool"
  assumes good_step: "good s \<Longrightarrow> good (step s op)"
    and lookup_step:
    "good s \<Longrightarrow> lookup (step s op) k = Some v \<Longrightarrow>
       effect op s k = Some (Some v) \<or> (effect op s k = None \<and> lookup s k = Some v)"
begin

fun last_effect :: "'s \<Rightarrow> 'op list \<Rightarrow> 'k \<Rightarrow> 'v option option" where
  "last_effect s [] k = None"
| "last_effect s (op # ops) k =
     (case last_effect (step s op) ops k of None \<Rightarrow> effect op s k | Some e \<Rightarrow> Some e)"

lemma lookup_run:
  "good s \<Longrightarrow> lookup (foldl step s ops) k = Some v \<Longrightarrow>
   last_effect s ops k = Some (Some v) \<or> (last_effect s ops k = None \<and> lookup s k = Some v)"
proof (induction ops arbitrary: s)
  case Nil
  then show ?case by simp
next
  case (Cons op ops)
  from Cons.prems have "good (step s op)" "lookup (foldl step (step s op) ops) k = Some v"
    by (auto intro: good_step)
  from Cons.IH[OF this] show ?case
    using lookup_step[of s op k v] Cons.prems(1) by (auto split: option.splits)
qed

lemma removed_stays_removed:
  "good s \<Longrightarrow> last_effect s ops k = Some None \<Longrightarrow> lookup (foldl step s ops) k = None"
  using lookup_run[of s ops k] by (cases "lookup (foldl step s ops) k") auto

end

section \<open>The in-memory cache\<close>

text \<open>
  Stored values are \<^verbatim>\<open>interface{}\<close>; \<^const>\<open>None\<close> is \<^verbatim>\<open>nil\<close>.  Expiration times are
  \<^verbatim>\<open>int64\<close> nanoseconds.
\<close>

record 'v cacheItem =
  ci_value :: "'v option"
  expiration :: int64

record 'v cache =
  items :: "(string \<times> 'v cacheItem) list"
  maxSize :: int
  defaultTTL :: int64
  stopped :: bool

text \<open>\<^verbatim>\<open>time.Now().UnixNano()\<close> and \<^verbatim>\<open>time.Now().Add(d).UnixNano()\<close>, which wraps in 64 bits.\<close>

definition unix_nano :: "int \<Rightarrow> int64" where
  "unix_nano now = word_of_int now"

definition unix_nano_add :: "int \<Rightarrow> int64 \<Rightarrow> int64" where
  "unix_nano_add now d = word_of_int (now + sint d)"

lemma sint_unix_nano:
  "- (2 ^ 63) \<le> now \<Longrightarrow> now < 2 ^ 63 \<Longrightarrow> sint (unix_nano now) = now"
  unfolding unix_nano_def by (rule sint_word_of_int)

lemma sint_unix_nano_add:
  "- (2 ^ 63) \<le> now + sint d \<Longrightarrow> now + sint d < 2 ^ 63 \<Longrightarrow> sint (unix_nano_add now d) = now + sint d"
  unfolding unix_nano_add_def by (rule sint_word_of_int)

definition expired :: "int \<Rightarrow> 'v cacheItem \<Rightarrow> bool" where
  "expired now item \<longleftrightarrow> sint (expiration item) < sint (unix_nano now)"

definition NewCache :: "int \<Rightarrow> int64 \<Rightarrow> 'v cache" where
  "NewCache n ttl = \<lparr>items = [], maxSize = n, defaultTTL = ttl, stopped = False\<rparr>"

text \<open>\<^verbatim>\<open>for k := range c.items { delete(c.items, k); break }\<close> when the map is full.\<close>

definition make_room :: "string \<Rightarrow> 'v cache \<Rightarrow> (string \<times> 'v cacheItem) list" where
  "make_room victim c =
     (if int (length (items c)) \<ge> maxSize c then AList.delete victim (items c) else items c)"

definition cache_Set ::
  "int \<Rightarrow> string \<Rightarrow> string \<Rightarrow> 'v option \<Rightarrow> int64 list \<Rightarrow> 'v cache \<Rightarrow> 'v cache" where
  "cache_Set now victim key value ttl c =
    (let its = make_room victim c;
         exp = (case ttl of [] \<Rightarrow> unix_nano_add now (defaultTTL c) | d # _ \<Rightarrow> unix_nano_add now d)
     in c\<lparr>items := AList.update key \<lparr>ci_value = value, expiration = exp\<rparr> its\<rparr>)"

text \<open>
  \<^verbatim>\<open>Get\<close> takes the lock twice: a read of the entry, and, when that entry had expired, a
  removal of whatever is stored under the key by then.
\<close>

definition get_read :: "string \<Rightarrow> 'v cache \<Rightarrow> 'v cacheItem option" where
  "get_read key c = map_of (items c) key"

definition cache_Del :: "string \<Rightarrow> 'v cache \<Rightarrow> 'v cache" where
  "cache_Del key c = c\<lparr>items := AList.delete key (items c)\<rparr>"

definition get_finish ::
  "int \<Rightarrow> string \<Rightarrow> 'v cacheItem option \<Rightarrow> 'v cache \<Rightarrow> 'v option \<times> 'v cache" where
  "get_finish now key found c =
    (case found of
       None \<Rightarrow> (None, c)
     | Some item \<Rightarrow>
         if expired now item then (None, c\<lparr>items := AList.delete key (items c)\<rparr>)
         else (ci_value item, c))"

definition cache_Get :: "int \<Rightarrow> string \<Rightarrow> 'v cache \<Rightarrow> 'v option \<times> 'v cache" where
  "cache_Get now key c = get_finish now key (get_read key c) c"

definition cache_Clear :: "'v cache \<Rightarrow> 'v cache" where
  "cache_Clear c = c\<lparr>items := []\<rparr>"

definition cache_Size :: "'v cache \<Rightarrow> nat" where
  "cache_Size c = length (items c)"

text \<open>One tick of the cleanup goroutine.\<close>

definition cleanup_tick :: "int \<Rightarrow> 'v cache \<Rightarrow> 'v cache" where
  "cleanup_tick now c = c\<lparr>items := filter (\<lambda>(k, v). \<not> expired now v) (items c)\<rparr>"

text \<open>Closing a closed channel panics.\<close>

definition cache_Close :: "'v cache \<Rightarrow> 'v cache \<times> outcome" where
  "cache_Close c = (if stopped c then (c, Panicked) else (c\<lparr>stopped := True\<rparr>, Completed))"

datatype 'v cache_op =
    OpSet int string string "'v option" "int64 list"
  | OpGet int string
  | OpDel string
  | OpClear
  | OpTick int

fun cache_step :: "'v cache \<Rightarrow> 'v cache_op \<Rightarrow> 'v cache" where
  "cache_step c (OpSet now victim key value ttl) = cache_Set now victim key value ttl c"
| "cache_step c (OpGet now key) = snd (cache_Get now key c)"
| "cache_step c (OpDel key) = cache_Del key c"
| "cache_step c OpClear = cache_Clear c"
| "cache_step c (OpTick now) = cleanup_tick now c"

text \<open>The key an eviction removes is one that is present.\<close>

fun victim_ok :: "'v cache \<Rightarrow> 'v cache_op \<Rightarrow> bool" where
  "victim_ok c (OpSet now victim key value ttl) =
     (items c = [] \<or> victim \<in> set (keys_of (items c)))"
| "victim_ok c _ = True"

definition cache_ok :: "'v cache \<Rightarrow> bool" where
  "cache_ok c \<longleftrightarrow> distinct_keys (items c) \<and> int (cache_Size c) \<le> max 1 (maxSize c)"

section \<open>The invariant\<close>

lemma cache_Get_items:
  "items (snd (cache_Get now key c)) = items c
   \<or> items (snd (cache_Get now key c)) = AList.delete key (items c)"
  by (auto simp: cache_Get_def get_finish_def split: option.splits)

lemma maxSize_step [simp]: "maxSize (cache_step c op) = maxSize c"
  by (cases op)
     (auto simp: cache_Set_def cache_Get_def get_finish_def cache_Del_def cache_Clear_def
        cleanup_tick_def Let_def split: option.splits)

lemma defaultTTL_step [simp]: "defaultTTL (cache_step c op) = defaultTTL c"
  by (cases op)
     (auto simp: cache_Set_def cache_Get_def get_finish_def cache_Del_def cache_Clear_def
        cleanup_tick_def Let_def split: option.splits)

lemma make_room_bound:
  assumes "cache_ok c" and "items c = [] \<or> victim \<in> set (keys_of (items c))"
  shows "distinct_keys (make_room victim c)"
    and "int (length (make_room victim c)) < max 1 (maxSize c)"
proof -
  have d: "distinct_keys (items c)" and le: "int (length (items c)) \<le> max 1 (maxSize c)"
    using assms(1) by (auto simp: cache_ok_def cache_Size_def)
  show "distinct_keys (make_room victim c)" using d by (simp add: make_room_def)
  show "int (length (make_room victim c)) < max 1 (maxSize c)"
  proof (cases "int (length (items c)) \<ge> maxSize c \<and> items c \<noteq> []")
    case True
    then have "Suc (length (AList.delete victim (items c))) = length (items c)"
      using assms(2) d by (intro length_delete_in) auto
    with True le show ?thesis by (auto simp: make_room_def)
  next
    case False
    then show ?thesis by (auto simp: make_room_def)
  qed
qed

lemma items_Set:
  "items (cache_Set now victim key value ttl c)
     = AList.update key \<lparr>ci_value = value,
         expiration = (case ttl of [] \<Rightarrow> unix_nano_add now (defaultTTL c)
                       | d # _ \<Rightarrow> unix_nano_add now d)\<rparr> (make_room victim c)"
  by (simp add: cache_Set_def Let_def)

lemma cache_ok_Set:
  assumes "cache_ok c" and "victim_ok c (OpSet now victim key value ttl)"
  shows "cache_ok (cache_Set now victim key value ttl c)"
proof -
  note room = make_room_bound[OF assms(1), of victim]
  have "int (length (AList.update key x (make_room victim c))) \<le> max 1 (maxSize c)" for x
    using length_update_le[of key x "make_room victim c"] room(2) assms(2) by simp
  then show ?thesis
    using room(1) assms(2) maxSize_step[of c "OpSet now victim key value ttl"]
    by (simp add: cache_ok_def cache_Size_def items_Set)
qed

lemma cache_ok_step: "cache_ok c \<Longrightarrow> victim_ok c op \<Longrightarrow> cache_ok (cache_step c op)"
proof (cases op)
  case (OpGet now key)
  assume "cache_ok c"
  then show ?thesis
    using OpGet cache_Get_items[of now key c] maxSize_step[of c op] length_delete_le[of key "items c"]
    by (auto simp: cache_ok_def cache_Size_def)
next
  case (OpDel key)
  assume "cache_ok c"
  then show ?thesis using OpDel length_delete_le[of key "items c"]
    by (auto simp: cache_ok_def cache_Size_def cache_Del_def)
next
  case (OpTick now)
  assume "cache_ok c"
  then show ?thesis
    using OpTick le_trans_int[OF length_filter_le, of "items c" "max 1 (maxSize c)" "\<lambda>(k, v). \<not> expired now v"]
    by (simp add: cache_ok_def cache_Size_def cleanup_tick_def)
next
  case (OpSet now victim key val ttl)
  assume "cache_ok c" "victim_ok c op"
  then show ?thesis unfolding OpSet cache_step.simps by (rule cache_ok_Set)
qed (simp add: cache_ok_def cache_Clear_def cache_Size_def)

interpretation cg: guarded_system cache_step victim_ok "\<lambda>c. cache_ok c \<and> maxSize c = n" for n
  by unfold_locales (auto intro: cache_ok_step)

section \<open>Coherence\<close>

text \<open>What an operation does to the entry of a key, from the operation alone.\<close>

fun writes :: "'v cache_op \<Rightarrow> string \<Rightarrow> 'v option option option" where
  "writes (OpSet now victim key value ttl) k = (if k = key then Some (Some value) else None)"
| "writes (OpDel key) k = (if k = key then Some None else None)"
| "writes OpClear k = Some None"
| "writes (OpGet now key) k = None"
| "writes (OpTick now) k = None"

fun last_write :: "'v cache_op list \<Rightarrow> string \<Rightarrow> 'v option option option" where
  "last_write [] k = None"
| "last_write (op # ops) k = (case last_write ops k of None \<Rightarrow> writes op k | Some e \<Rightarrow> Some e)"

definition stored :: "'v cache \<Rightarrow> string \<Rightarrow> 'v option option" where
  "stored c k = map_option ci_value (map_of (items c) k)"

lemma map_of_filter_Some:
  "distinct_keys m \<Longrightarrow> map_of (filter P m) k = Some v \<Longrightarrow> map_of m k = Some v"
  by (induction m) (auto simp: image_iff dest: map_of_SomeD split: if_splits)

lemma stored_make_room:
  "map_option ci_value (map_of (make_room victim c) k) = Some v \<Longrightarrow> stored c k = Some v"
  by (auto simp: make_room_def stored_def split: if_splits)

lemma stored_items_or_deleted:
  "its = items c \<or> its = AList.delete key (items c) \<Longrightarrow>
   map_option ci_value (map_of its k) = Some v \<Longrightarrow> stored c k = Some v"
  by (auto simp: stored_def split: if_splits)

lemma stored_step:
  assumes "distinct_keys (items c)" and st: "stored (cache_step c op) k = Some v"
  shows "writes op k = Some (Some v) \<or> (writes op k = None \<and> stored c k = Some v)"
proof (cases op)
  case (OpSet now victim key val ttl)
  with st stored_make_room[of victim c k v] show ?thesis
    by (auto simp: stored_def items_Set simp del: map_option_eq_Some split: if_splits)
next
  case (OpGet now key)
  with st stored_items_or_deleted[OF cache_Get_items, of now key c k v] show ?thesis
    by (simp add: stored_def)
next
  case (OpTick now)
  with st map_of_filter_Some[OF assms(1)] show ?thesis
    by (auto simp: stored_def cleanup_tick_def simp del: map_of_eq_Some_iff)
qed (use st in \<open>auto simp: stored_def cache_Del_def cache_Clear_def split: if_splits\<close>)

lemma distinct_step: "distinct_keys (items c) \<Longrightarrow> distinct_keys (items (cache_step c op))"
proof (cases op)
  case (OpGet now key)
  assume "distinct_keys (items c)"
  with OpGet cache_Get_items[of now key c] show ?thesis by (metis cache_step.simps(2) distinct_keys_delete)
qed (auto simp: items_Set make_room_def cache_Del_def cache_Clear_def cleanup_tick_def)

interpretation cs: coherent_store cache_step stored "\<lambda>op _. writes op" "\<lambda>c. distinct_keys (items c)"
  by unfold_locales (auto intro: distinct_step dest: stored_step)

lemma last_effect_writes: "cs.last_effect c ops k = last_write ops k"
  by (induction ops arbitrary: c) (auto split: option.splits)

section \<open>Properties of the in-memory cache\<close>

text \<open>
  C10. The cache never returns a wrong or stale value: whatever sequence of sets, gets,
  deletes, clears and cleanup ticks has run since \<^verbatim>\<open>NewCache\<close>, at whatever times, a value
  that \<^verbatim>\<open>Get\<close> returns for a key is the one its last write stored; a deleted or cleared key
  returns \<^verbatim>\<open>nil\<close>.
\<close>

theorem cache_get_sound:
  assumes "fst (cache_Get now k (foldl cache_step (NewCache n ttl) ops)) = Some v"
  shows "last_write ops k = Some (Some (Some v))"
proof -
  let ?c = "foldl cache_step (NewCache n ttl) ops"
  have "stored ?c k = Some (Some v)"
    using assms by (auto simp: cache_Get_def get_finish_def get_read_def stored_def split: option.splits if_splits)
  then have "cs.last_effect (NewCache n ttl) ops k = Some (Some (Some v))"
    using cs.lookup_run[of "NewCache n ttl" ops k] by (auto simp: NewCache_def stored_def)
  then show ?thesis by (simp add: last_effect_writes)
qed

theorem cache_get_sound_witness:
  "fst (cache_Get 5 ''a'' (foldl cache_step (NewCache 2 100)
      [OpSet 0 [] ''a'' (Some (1::nat)) [], OpSet 1 [] ''b'' (Some 2) []])) = Some 1
   \<and> last_write [OpSet 0 [] ''a'' (Some (1::nat)) [], OpSet 1 [] ''b'' (Some 2) []] ''a''
      = Some (Some (Some 1))"
proof -
  have "fst (cache_Get 5 ''a'' (foldl cache_step (NewCache 2 100)
      [OpSet 0 [] ''a'' (Some (1::nat)) [], OpSet 1 [] ''b'' (Some 2) []])) = Some 1"
    by (simp add: NewCache_def cache_Set_def make_room_def cache_Get_def get_finish_def get_read_def
        expired_def unix_nano_def unix_nano_add_def)
  with cache_get_sound[OF this] show ?thesis by blast
qed

text \<open>
  C18. The number of entries never exceeds the configured maximum (or one entry, when that is
  not positive), in any run in which an eviction removes a key that is present.
\<close>

theorem cache_size_bounded:
  assumes "cg.run_ok (NewCache n ttl) ops"
  shows "int (cache_Size (foldl cache_step (NewCache n ttl) ops)) \<le> max 1 n"
proof -
  have "cache_ok (NewCache n ttl) \<and> maxSize (NewCache n ttl) = n"
    by (simp add: cache_ok_def NewCache_def cache_Size_def)
  from cg.inv_run[OF this assms] show ?thesis by (metis cache_ok_def)
qed

theorem cache_size_bounded_witness:
  "int (cache_Size (foldl cache_step (NewCache 1 100)
      [OpSet 0 [] ''a'' (Some (1::nat)) [], OpSet 1 ''a'' ''b'' (Some 2) []])) \<le> 1"
  using cache_size_bounded[of 1 100 "[OpSet 0 [] ''a'' (Some (1::nat)) [], OpSet 1 ''a'' ''b'' (Some 2) []]"]
  by (simp add: NewCache_def cache_Set_def make_room_def)

text \<open>
  C19. A value set with a lifetime \<open>d\<close> is returned until \<open>now + d\<close> and not after, and the
  other keys, the evicted one apart, are returned as before, provided \<open>now + d\<close> is a 64-bit
  number of nanoseconds.
\<close>

theorem cache_get_after_set:
  assumes "- (2 ^ 63) \<le> now + sint d" and "now + sint d < 2 ^ 63"
    and "- (2 ^ 63) \<le> now'" and "now' < 2 ^ 63"
  shows "fst (cache_Get now' k (cache_Set now victim key v [d] c)) =
    (if k = key then (if now' \<le> now + sint d then v else None)
     else if maxSize c \<le> int (cache_Size c) \<and> k = victim then None
     else fst (cache_Get now' k c))"
  using assms
  by (auto simp: cache_Get_def get_finish_def get_read_def items_Set make_room_def cache_Size_def
      expired_def sint_unix_nano sint_unix_nano_add split: option.splits)

theorem cache_get_after_set_witness:
  "fst (cache_Get 12 ''a'' (cache_Set 5 [] ''a'' (Some ''v'') [10] (NewCache 3 60))) = Some ''v''
   \<and> fst (cache_Get 16 ''a'' (cache_Set 5 [] ''a'' (Some ''v'') [10] (NewCache 3 60))) = None"
  using cache_get_after_set[of 5 10 12 "''a''" "[]" "''a''" "Some ''v''" "NewCache 3 60"]
    cache_get_after_set[of 5 10 16 "''a''" "[]" "''a''" "Some ''v''" "NewCache 3 60"] by simp

text \<open>
  A lifetime that carries \<open>now + d\<close> past 64 bits makes the expiry negative: the entry is
  expired from the moment it is set, at every time from the epoch on.
\<close>

theorem cache_overflowing_ttl_is_born_expired:
  assumes "2 ^ 63 \<le> now + sint d" and "now < 2 ^ 63" and "0 \<le> now'" and "now' < 2 ^ 63"
  shows "fst (cache_Get now' key (cache_Set now victim key v [d] c)) = None"
proof -
  have "sint d < 2 ^ 63" using sint_lt[of d] by simp
  with assms have "sint (unix_nano_add now d) = now + sint d - 2 ^ 64"
    unfolding unix_nano_add_def by (intro sint_word_of_int_above) auto
  with assms \<open>sint d < 2 ^ 63\<close> show ?thesis
    by (simp add: cache_Get_def get_finish_def get_read_def items_Set expired_def
        sint_unix_nano)
qed

theorem cache_overflowing_ttl_witness:
  "fst (cache_Get 1700000000000000000 ''a''
      (cache_Set 1700000000000000000 [] ''a'' (Some ''v'') [9223372036854775807] (NewCache 3 60))) = None"
  using cache_overflowing_ttl_is_born_expired[of 1700000000000000000 9223372036854775807
      1700000000000000000 "''a''" "[]" "Some ''v''" "NewCache 3 60"] by simp

text \<open>
  C20. A cleanup tick is invisible to readers: at its time and any later one, every \<^verbatim>\<open>Get\<close>
  returns what it would have returned without it; and no expired entry is left.
\<close>

theorem cleanup_is_invisible:
  assumes "distinct_keys (items c)" and "- (2 ^ 63) \<le> now" and "now \<le> now'" and "now' < 2 ^ 63"
  shows "fst (cache_Get now' k (cleanup_tick now c)) = fst (cache_Get now' k c)
    \<and> (\<forall>(k', item)\<in>set (items (cleanup_tick now c)). \<not> expired now item)"
proof -
  have "expired now' item" if "expired now item" for item :: "'a cacheItem"
    using that assms by (simp add: expired_def sint_unix_nano)
  then show ?thesis
    using map_of_filter_keys[OF assms(1), of "\<lambda>_ v. \<not> expired now v" k]
    by (auto simp: cache_Get_def get_finish_def get_read_def cleanup_tick_def split: option.splits)
qed

theorem cleanup_is_invisible_witness:
  "fst (cache_Get 80 ''b'' (cleanup_tick 50
      (cache_Set 1 [] ''b'' (Some 2) [100] (cache_Set 0 [] ''a'' (Some (1::nat)) [10] (NewCache 5 60)))))
   = Some 2"
  using cleanup_is_invisible[of "cache_Set 1 [] ''b'' (Some 2) [100]
      (cache_Set 0 [] ''a'' (Some (1::nat)) [10] (NewCache 5 60))" 50 80 "''b''"]
  by (simp add: NewCache_def cache_Set_def make_room_def cache_Get_def get_finish_def get_read_def
        expired_def unix_nano_def unix_nano_add_def)

text \<open>
  \<^verbatim>\<open>Get\<close> is not atomic: when its read finds an expired entry and another goroutine sets
  the key before \<^verbatim>\<open>Get\<close> takes the lock again, the removal deletes the fresh entry, and the
  new value is lost although it has not expired.
\<close>

theorem cache_get_race_loses_set:
  assumes "get_read key c = Some item" and "expired now item"
  shows "snd (get_finish now key (get_read key c) (cache_Set now victim key v ttl c))
           = cache_Del key (cache_Set now victim key v ttl c)
    \<and> fst (cache_Get now' key
        (snd (get_finish now key (get_read key c) (cache_Set now victim key v ttl c)))) = None"
  using assms by (simp add: get_finish_def cache_Del_def cache_Get_def get_read_def)

theorem cache_get_race_witness:
  "expired 20 \<lparr>ci_value = Some ''old'', expiration = 10\<rparr>
   \<and> fst (cache_Get 30 ''a'' (snd (get_finish 20 ''a''
       (get_read ''a'' (cache_Set 0 [] ''a'' (Some ''old'') [10] (NewCache 5 60)))
       (cache_Set 20 [] ''a'' (Some ''new'') [1000]
          (cache_Set 0 [] ''a'' (Some ''old'') [10] (NewCache 5 60)))))) = None"
proof -
  have r: "get_read ''a'' (cache_Set 0 [] ''a'' (Some ''old'') [10] (NewCache 5 60))
      = Some \<lparr>ci_value = Some ''old'', expiration = 10\<rparr>"
    by (simp add: NewCache_def cache_Set_def make_room_def get_read_def unix_nano_add_def)
  have e: "expired 20 \<lparr>ci_value = Some ''old'', expiration = 10\<rparr>"
    by (simp add: expired_def unix_nano_def)
  from cache_get_race_loses_set[OF r e, of "[]" "Some ''new''" "[1000]" 30] e show ?thesis by blast
qed

end
