(* ===== verification/CacheManager.thy ===== *)
theory CacheManager
  imports Cache
begin

text \<open>
  The second half of \<^verbatim>\<open>internal/cache/cache.go\<close>: \<^verbatim>\<open>CacheManager\<close>, which puts Redis in front
  of the in-memory cache when the configuration asks for it.  The Redis client is third-party
  code: its operations are the functions of a record, over a client state \<open>'r\<close>; so is the
  JSON codec.  \<open>r_get\<close> returns \<^const>\<open>None\<close> for an error, which in this client includes a
  missing key.
\<close>

record 'r redis_api =
  r_get :: "'r \<Rightarrow> string \<Rightarrow> string option"
  r_set :: "'r \<Rightarrow> string \<Rightarrow> string \<Rightarrow> int64 \<Rightarrow> 'r"
  r_del :: "'r \<Rightarrow> string \<Rightarrow> 'r"
  r_flush :: "'r \<Rightarrow> 'r"

text \<open>\<open>unmarshal\<close> gives \<^verbatim>\<open>nil\<close> for malformed text, \<open>marshal\<close> the bytes, its error dropped.\<close>

record 'v json_codec =
  marshal :: "'v option \<Rightarrow> string"
  unmarshal :: "string \<Rightarrow> 'v option"

record cacheConfig =
  cc_enabled :: bool
  cc_type :: string
  cc_size :: int
  cc_ttl :: int64
  cc_distributed :: bool
  cc_redisURL :: string

record ('v, 'r) cacheManager =
  Local :: "'v cache"
  Redis :: "'r option"
  cm_config :: cacheConfig

text \<open>\<open>parse\<close> is \<^verbatim>\<open>redis.ParseURL\<close> followed by \<^verbatim>\<open>redis.NewClient\<close>; \<^const>\<open>None\<close> a parse error.\<close>

definition NewCacheManager :: "(string \<Rightarrow> 'r option) \<Rightarrow> cacheConfig \<Rightarrow> ('v, 'r) cacheManager" where
  "NewCacheManager parse cfg =
     \<lparr>Local = NewCache (cc_size cfg) (cc_ttl cfg),
      Redis = (if cc_distributed cfg \<and> cc_redisURL cfg \<noteq> [] then parse (cc_redisURL cfg) else None),
      cm_config = cfg\<rparr>"

definition remote :: "('v, 'r) cacheManager \<Rightarrow> 'r option" where
  "remote cm = (if cc_distributed (cm_config cm) then Redis cm else None)"

definition cm_Get ::
  "'r redis_api \<Rightarrow> 'v json_codec \<Rightarrow> int \<Rightarrow> string \<Rightarrow> string \<Rightarrow> ('v, 'r) cacheManager
     \<Rightarrow> 'v option \<times> ('v, 'r) cacheManager" where
  "cm_Get api js now victim key cm =
    (case Option.bind (remote cm) (\<lambda>r. r_get api r key) of
       Some val \<Rightarrow>
         (let result = unmarshal js val
          in (result, cm\<lparr>Local := cache_Set now victim key result [] (Local cm)\<rparr>))
     | None \<Rightarrow> (case cache_Get now key (Local cm) of (v, c) \<Rightarrow> (v, cm\<lparr>Local := c\<rparr>)))"

definition cm_Set ::
  "'r redis_api \<Rightarrow> 'v json_codec \<Rightarrow> int \<Rightarrow> string \<Rightarrow> string \<Rightarrow> 'v option \<Rightarrow> int64 list
     \<Rightarrow> ('v, 'r) cacheManager \<Rightarrow> ('v, 'r) cacheManager" where
  "cm_Set api js now victim key value ttl cm =
    (let expiration = (case ttl of [] \<Rightarrow> cc_ttl (cm_config cm) | d # _ \<Rightarrow> d);
         cm' = (case remote cm of
                  None \<Rightarrow> cm
                | Some r \<Rightarrow> cm\<lparr>Redis := Some (r_set api r key (marshal js value) expiration)\<rparr>)
     in cm'\<lparr>Local := cache_Set now victim key value ttl (Local cm)\<rparr>)"

definition cm_Del :: "'r redis_api \<Rightarrow> string \<Rightarrow> ('v, 'r) cacheManager \<Rightarrow> ('v, 'r) cacheManager" where
  "cm_Del api key cm =
    (let cm' = (case remote cm of None \<Rightarrow> cm | Some r \<Rightarrow> cm\<lparr>Redis := Some (r_del api r key)\<rparr>)
     in cm'\<lparr>Local := cache_Del key (Local cm)\<rparr>)"

definition cm_Clear :: "'r redis_api \<Rightarrow> ('v, 'r) cacheManager \<Rightarrow> ('v, 'r) cacheManager" where
  "cm_Clear api cm =
    (let cm' = cm\<lparr>Local := cache_Clear (Local cm)\<rparr>
     in case remote cm' of None \<Rightarrow> cm' | Some r \<Rightarrow> cm'\<lparr>Redis := Some (r_flush api r)\<rparr>)"

text \<open>
  \<^verbatim>\<open>Close\<close> closes the local cache first; a second call panics there and never reaches the
  Redis client.
\<close>

definition cm_Close :: "('v, 'r) cacheManager \<Rightarrow> ('v, 'r) cacheManager \<times> outcome" where
  "cm_Close cm = (case cache_Close (Local cm) of (c, r) \<Rightarrow> (cm\<lparr>Local := c\<rparr>, r))"

section \<open>The local cache behind the manager\<close>

datatype 'v cm_op =
    CmSet int string string "'v option" "int64 list"
  | CmGet int string string
  | CmDel string
  | CmClear
  | CmTick int

fun cm_step ::
  "'r redis_api \<Rightarrow> 'v json_codec \<Rightarrow> ('v, 'r) cacheManager \<Rightarrow> 'v cm_op \<Rightarrow> ('v, 'r) cacheManager" where
  "cm_step api js cm (CmSet now victim key value ttl) = cm_Set api js now victim key value ttl cm"
| "cm_step api js cm (CmGet now victim key) = snd (cm_Get api js now victim key cm)"
| "cm_step api js cm (CmDel key) = cm_Del api key cm"
| "cm_step api js cm CmClear = cm_Clear api cm"
| "cm_step api js cm (CmTick now) = cm\<lparr>Local := cleanup_tick now (Local cm)\<rparr>"

text \<open>Each operation of the manager is one operation of the local cache.\<close>

fun local_op ::
  "'r redis_api \<Rightarrow> 'v json_codec \<Rightarrow> ('v, 'r) cacheManager \<Rightarrow> 'v cm_op \<Rightarrow> 'v cache_op" where
  "local_op api js cm (CmSet now victim key value ttl) = OpSet now victim key value ttl"
| "local_op api js cm (CmGet now victim key) =
     (case Option.bind (remote cm) (\<lambda>r. r_get api r key) of
        Some val \<Rightarrow> OpSet now victim key (unmarshal js val) []
      | None \<Rightarrow> OpGet now key)"
| "local_op api js cm (CmDel key) = OpDel key"
| "local_op api js cm CmClear = OpClear"
| "local_op api js cm (CmTick now) = OpTick now"

lemma Local_step: "Local (cm_step api js cm op) = cache_step (Local cm) (local_op api js cm op)"
  by (cases op)
     (auto simp: cm_Set_def cm_Get_def cm_Del_def cm_Clear_def Let_def split: option.splits prod.splits)

lemma Local_run:
  "\<exists>ops'. length ops' = length ops \<and>
     Local (foldl (cm_step api js) cm ops) = foldl cache_step (Local cm) ops'"
proof (induction ops arbitrary: cm)
  case Nil
  then show ?case by simp
next
  case (Cons op ops)
  obtain ops' where "length ops' = length ops"
    "Local (foldl (cm_step api js) (cm_step api js cm op) ops)
       = foldl cache_step (Local (cm_step api js cm op)) ops'"
    using Cons.IH by blast
  then have "length (local_op api js cm op # ops') = length (op # ops) \<and>
    Local (foldl (cm_step api js) cm (op # ops)) = foldl cache_step (Local cm) (local_op api js cm op # ops')"
    by (simp add: Local_step)
  then show ?case by blast
qed

text \<open>
  The manager is a coherent store too: what its local cache holds for a key is what the last
  operation on the key put there, be it a set or a read that found the key in Redis.
\<close>

interpretation cms: coherent_store "cm_step api js" "\<lambda>cm. stored (Local cm)"
    "\<lambda>op cm. writes (local_op api js cm op)" "\<lambda>cm. distinct_keys (items (Local cm))" for api js
  by unfold_locales (auto simp: Local_step intro: distinct_step dest: stored_step)

section \<open>Properties\<close>

text \<open>
  Distributed read after write: when Redis returns after a set what was stored under the
  key, and the codec decodes what it encoded, a \<^verbatim>\<open>Get\<close> after a \<^verbatim>\<open>Set\<close> through the manager
  returns the value, at any later time, and leaves it in the local cache.
\<close>

theorem cm_get_after_set_distributed:
  assumes "remote cm = Some r"
    and redis_read_back: "\<And>r k s d. r_get api (r_set api r k s d) k = Some s"
    and codec_roundtrip: "\<And>v. unmarshal js (marshal js v) = v"
  shows "\<exists>cm'. cm_Get api js now' victim' key (cm_Set api js now victim key v ttl cm) = (v, cm')
    \<and> stored (Local cm') key = Some v"
proof -
  have rem: "remote (cm_Set api js now victim key v ttl cm)
      = Some (r_set api r key (marshal js v) (case ttl of [] \<Rightarrow> cc_ttl (cm_config cm) | d # _ \<Rightarrow> d))"
    using assms(1) by (auto simp: remote_def cm_Set_def split: if_splits)
  then show ?thesis
    by (simp add: cm_Get_def redis_read_back codec_roundtrip Let_def stored_def items_Set)
qed

definition map_redis :: "(string \<Rightarrow> string option) redis_api" where
  "map_redis = \<lparr>r_get = (\<lambda>m k. m k), r_set = (\<lambda>m k v d. m(k := Some v)),
                r_del = (\<lambda>m k. m(k := None)), r_flush = (\<lambda>m k. None)\<rparr>"

lemma map_redis_get [simp]: "r_get map_redis m k = m k"
  by (simp add: map_redis_def)

definition string_codec :: "string json_codec" where
  "string_codec = \<lparr>marshal = (\<lambda>v. case v of None \<Rightarrow> ''n'' | Some s \<Rightarrow> CHR ''s'' # s),
                   unmarshal = (\<lambda>s. if s = ''n'' then None else Some (tl s))\<rparr>"

definition remote_manager :: "(string, string \<Rightarrow> string option) cacheManager" where
  "remote_manager = NewCacheManager (\<lambda>_. Some (\<lambda>_. None))
     \<lparr>cc_enabled = True, cc_type = ''memory'', cc_size = 10, cc_ttl = 60,
      cc_distributed = True, cc_redisURL = ''redis://h''\<rparr>"

lemma remote_manager_remote: "remote remote_manager = Some (\<lambda>_. None)"
  by (simp add: remote_manager_def NewCacheManager_def remote_def)

theorem cm_get_after_set_distributed_witness:
  "\<exists>cm'. cm_Get map_redis string_codec 99 [] ''k''
      (cm_Set map_redis string_codec 0 [] ''k'' (Some ''v'') [5] remote_manager) = (Some ''v'', cm')
    \<and> stored (Local cm') ''k'' = Some (Some ''v'')"
  by (rule cm_get_after_set_distributed[OF remote_manager_remote])
     (auto simp: map_redis_def string_codec_def split: option.splits)

text \<open>
  The local copy outlives the lifetime the writer chose: a read that finds the key in
  Redis stores it locally for the default lifetime, counted from the read, so when Redis is
  unreachable or has dropped the key the manager still returns the value up to then.
\<close>

theorem cm_read_extends_lifetime:
  assumes "remote cm = Some r" and "r_get api r key = Some s"
    and "remote cm2 = Some r2" and "r_get api r2 key = None"
    and "Local cm2 = Local (snd (cm_Get api js now victim key cm))"
    and "- (2 ^ 63) \<le> now" and "now + sint (defaultTTL (Local cm)) < 2 ^ 63"
    and "now \<le> now'" and "now' \<le> now + sint (defaultTTL (Local cm))"
  shows "fst (cm_Get api js now' victim' key cm2) = unmarshal js s"
  using assms
  by (simp add: cm_Get_def cache_Get_def get_finish_def get_read_def items_Set Let_def
      expired_def sint_unix_nano sint_unix_nano_add split: prod.splits)

theorem cm_read_extends_lifetime_witness:
  "let cm = cm_Set map_redis string_codec 0 [] ''k'' (Some ''v'') [5] remote_manager;
       cm1 = snd (cm_Get map_redis string_codec 4 [] ''k'' cm);
       cm2 = cm1\<lparr>Redis := Some (\<lambda>_. None)\<rparr>
   in fst (cm_Get map_redis string_codec 50 [] ''k'' cm2) = Some ''v''"
proof -
  let ?cm = "cm_Set map_redis string_codec 0 [] ''k'' (Some ''v'') [5] remote_manager"
  let ?cm2 = "(snd (cm_Get map_redis string_codec 4 [] ''k'' ?cm))\<lparr>Redis := Some (\<lambda>_. None)\<rparr>"
  have rem: "remote ?cm = Some ((\<lambda>_. None)(''k'' := Some ''sv''))"
    "remote ?cm2 = Some (\<lambda>_. None)"
    by (simp_all add: cm_Set_def cm_Get_def remote_def remote_manager_def NewCacheManager_def
        map_redis_def string_codec_def fun_eq_iff Let_def)
  have ttl: "defaultTTL (Local ?cm) = 60"
    by (simp add: cm_Set_def remote_def remote_manager_def NewCacheManager_def NewCache_def
        cache_Set_def)
  have "fst (cm_Get map_redis string_codec 50 [] ''k'' ?cm2) = unmarshal string_codec ''sv''"
    by (rule cm_read_extends_lifetime[OF rem(1) _ rem(2), where now = 4 and victim = "[]"])
       (simp_all add: ttl)
  then show ?thesis by (simp add: string_codec_def)
qed

end
