(* ===== verification/Metrics.thy ===== *)
theory Metrics
  imports Prelude "HOL-Library.Signed_Division"
begin

text \<open>
  \<^verbatim>\<open>internal/metrics/metrics.go\<close>: the counters every other component increments, and the
  window of query times.  Counters are \<^typ>\<open>int64\<close> and wrap; a duration is an \<^typ>\<open>int64\<close>
  of nanoseconds.  The Prometheus collectors are third-party sinks that nothing reads back
  and are left out; the values \<^verbatim>\<open>GetStats\<close> takes from the Go runtime are its argument.
\<close>

record metrics =
  ActiveConnections :: int64
  TotalConnections :: int64
  ActiveQueries :: int64
  SlowQueries :: int64
  TotalQueries :: int64
  queryTimes :: "int64 list"
  VMPoolHits :: int64
  VMPoolMisses :: int64
  WsMessagesSent :: int64
  WsMessagesReceived :: int64
  WsErrors :: int64
  WsDropped :: int64
  QueueRejected :: int64
  ExecutorActive :: int64
  ExecutorQueue :: int64
  JsonOps :: int64
  JsonErrors :: int64
  StartTime :: int
  HttpRequests :: int64
  HttpErrors :: int64
  HttpDuration :: int64
  SecurityBlocked :: int64

text \<open>\<^verbatim>\<open>Reset\<close>, and the initial value of \<^verbatim>\<open>GlobalMetrics\<close>, at time \<open>now\<close>.\<close>

definition metrics_Reset :: "int \<Rightarrow> metrics \<Rightarrow> metrics" where
  "metrics_Reset now m = m\<lparr>ActiveConnections := 0, TotalConnections := 0, ActiveQueries := 0,
     SlowQueries := 0, TotalQueries := 0, queryTimes := [], VMPoolHits := 0, VMPoolMisses := 0,
     WsMessagesSent := 0, WsMessagesReceived := 0, WsErrors := 0, WsDropped := 0,
     QueueRejected := 0, ExecutorActive := 0, ExecutorQueue := 0, JsonOps := 0, JsonErrors := 0,
     HttpRequests := 0, HttpErrors := 0, HttpDuration := 0, SecurityBlocked := 0,
     StartTime := now\<rparr>"

definition GlobalMetrics :: "int \<Rightarrow> metrics" where
  "GlobalMetrics now = \<lparr>ActiveConnections = 0, TotalConnections = 0, ActiveQueries = 0,
     SlowQueries = 0, TotalQueries = 0, queryTimes = [], VMPoolHits = 0, VMPoolMisses = 0,
     WsMessagesSent = 0, WsMessagesReceived = 0, WsErrors = 0, WsDropped = 0,
     QueueRejected = 0, ExecutorActive = 0, ExecutorQueue = 0, JsonOps = 0, JsonErrors = 0,
     StartTime = now, HttpRequests = 0, HttpErrors = 0, HttpDuration = 0, SecurityBlocked = 0\<rparr>"

definition IncActiveConnections :: "metrics \<Rightarrow> metrics" where
  "IncActiveConnections m = m\<lparr>ActiveConnections := ActiveConnections m + 1,
                             TotalConnections := TotalConnections m + 1\<rparr>"

definition DecActiveConnections :: "metrics \<Rightarrow> metrics" where
  "DecActiveConnections m = m\<lparr>ActiveConnections := ActiveConnections m + (-1)\<rparr>"

text \<open>\<^verbatim>\<open>d > 200*time.Millisecond\<close>\<close>

definition slow :: "int64 \<Rightarrow> bool" where
  "slow d \<longleftrightarrow> 200 * 1000000 < sint d"

definition AddQueryTime :: "int64 \<Rightarrow> metrics \<Rightarrow> metrics" where
  "AddQueryTime d m =
    (let m1 = m\<lparr>TotalQueries := TotalQueries m + 1\<rparr>;
         m2 = (if slow d then m1\<lparr>SlowQueries := SlowQueries m1 + 1\<rparr> else m1);
         qs = queryTimes m2 @ [d];
         qs' = (if length qs > 1000 then drop 1 qs else qs)
     in m2\<lparr>queryTimes := qs'\<rparr>)"

definition AddHTTPRequest :: "int64 \<Rightarrow> int \<Rightarrow> metrics \<Rightarrow> metrics" where
  "AddHTTPRequest d status m =
    (let m1 = m\<lparr>HttpRequests := HttpRequests m + 1\<rparr>;
         m2 = (if status \<ge> 400 then m1\<lparr>HttpErrors := HttpErrors m1 + 1\<rparr> else m1)
     in m2\<lparr>HttpDuration := HttpDuration m2 + d\<rparr>)"

text \<open>The one-line counters.\<close>

definition IncVMPoolHit :: "metrics \<Rightarrow> metrics" where
  "IncVMPoolHit m = m\<lparr>VMPoolHits := VMPoolHits m + 1\<rparr>"
definition IncVMPoolMiss :: "metrics \<Rightarrow> metrics" where
  "IncVMPoolMiss m = m\<lparr>VMPoolMisses := VMPoolMisses m + 1\<rparr>"
definition IncWSSent :: "metrics \<Rightarrow> metrics" where
  "IncWSSent m = m\<lparr>WsMessagesSent := WsMessagesSent m + 1\<rparr>"
definition IncWSReceived :: "metrics \<Rightarrow> metrics" where
  "IncWSReceived m = m\<lparr>WsMessagesReceived := WsMessagesReceived m + 1\<rparr>"
definition IncWSError :: "metrics \<Rightarrow> metrics" where
  "IncWSError m = m\<lparr>WsErrors := WsErrors m + 1\<rparr>"
definition IncWSDropped :: "metrics \<Rightarrow> metrics" where
  "IncWSDropped m = m\<lparr>WsDropped := WsDropped m + 1\<rparr>"
definition IncQueueRejected :: "metrics \<Rightarrow> metrics" where
  "IncQueueRejected m = m\<lparr>QueueRejected := QueueRejected m + 1\<rparr>"
definition IncExecutorActive :: "metrics \<Rightarrow> metrics" where
  "IncExecutorActive m = m\<lparr>ExecutorActive := ExecutorActive m + 1\<rparr>"
definition DecExecutorActive :: "metrics \<Rightarrow> metrics" where
  "DecExecutorActive m = m\<lparr>ExecutorActive := ExecutorActive m + (-1)\<rparr>"
definition SetExecutorQueue :: "int64 \<Rightarrow> metrics \<Rightarrow> metrics" where
  "SetExecutorQueue v m = m\<lparr>ExecutorQueue := v\<rparr>"
definition IncJsonOps :: "metrics \<Rightarrow> metrics" where
  "IncJsonOps m = m\<lparr>JsonOps := JsonOps m + 1\<rparr>"
definition IncJsonErrors :: "metrics \<Rightarrow> metrics" where
  "IncJsonErrors m = m\<lparr>JsonErrors := JsonErrors m + 1\<rparr>"
definition IncSecurityBlocked :: "metrics \<Rightarrow> metrics" where
  "IncSecurityBlocked m = m\<lparr>SecurityBlocked := SecurityBlocked m + 1\<rparr>"
definition IncrementActiveQueries :: "metrics \<Rightarrow> metrics" where
  "IncrementActiveQueries m = m\<lparr>ActiveQueries := ActiveQueries m + 1\<rparr>"
definition DecrementActiveQueries :: "metrics \<Rightarrow> metrics" where
  "DecrementActiveQueries m = m\<lparr>ActiveQueries := ActiveQueries m + (-1)\<rparr>"

section \<open>Averages\<close>

text \<open>Go's \<^verbatim>\<open>/\<close> on \<^verbatim>\<open>int64\<close> truncates towards zero.\<close>

definition int64_quot :: "int64 \<Rightarrow> int64 \<Rightarrow> int64" where
  "int64_quot a b = word_of_int (sint a sdiv sint b)"

definition Milliseconds :: "int64 \<Rightarrow> int64" where
  "Milliseconds d = int64_quot d 1000000"

fun sum_durations :: "int64 \<Rightarrow> int64 list \<Rightarrow> int64" where
  "sum_durations acc [] = acc"
| "sum_durations acc (t # ts) = sum_durations (acc + t) ts"

definition avgQueryTime :: "metrics \<Rightarrow> int64" where
  "avgQueryTime m =
    (if length (queryTimes m) > 0
     then int64_quot (sum_durations 0 (queryTimes m)) (of_nat (length (queryTimes m)))
     else 0)"

definition GetQueryStats :: "metrics \<Rightarrow> int64 \<times> int64 \<times> int64" where
  "GetQueryStats m = (TotalQueries m, SlowQueries m, avgQueryTime m)"

definition GetConnectionStats :: "metrics \<Rightarrow> int64 \<times> int64" where
  "GetConnectionStats m = (ActiveConnections m, TotalConnections m)"

definition GetWSStats :: "metrics \<Rightarrow> int64 \<times> int64 \<times> int64 \<times> int64" where
  "GetWSStats m = (WsMessagesSent m, WsMessagesReceived m, WsErrors m, WsDropped m)"

definition GetSecurityStats :: "metrics \<Rightarrow> int64" where
  "GetSecurityStats m = SecurityBlocked m"

definition avgHTTPDuration :: "metrics \<Rightarrow> int64" where
  "avgHTTPDuration m =
    (if sint (HttpRequests m) > 0 then int64_quot (Milliseconds (HttpDuration m)) (HttpRequests m)
     else 0)"

text \<open>
  The numeric entries of \<^verbatim>\<open>GetStats\<close>; \<open>uptime\<close> is the whole seconds since \<open>StartTime\<close> and
  \<open>runtime\<close> the entries read from the Go runtime.
\<close>

definition GetStats :: "int64 \<Rightarrow> (string \<times> int64) list \<Rightarrow> metrics \<Rightarrow> (string \<times> int64) list" where
  "GetStats uptime runtime m =
    [(''active_connections'', ActiveConnections m), (''total_connections'', TotalConnections m),
     (''active_queries'', ActiveQueries m), (''slow_queries'', SlowQueries m),
     (''total_queries'', TotalQueries m), (''avg_query_time_ms'', Milliseconds (avgQueryTime m)),
     (''vm_pool_hits'', VMPoolHits m), (''vm_pool_misses'', VMPoolMisses m),
     (''ws_messages_sent'', WsMessagesSent m), (''ws_messages_received'', WsMessagesReceived m),
     (''ws_errors'', WsErrors m), (''ws_dropped'', WsDropped m),
     (''queue_rejected'', QueueRejected m), (''executor_active'', ExecutorActive m),
     (''executor_queue'', ExecutorQueue m), (''json_ops'', JsonOps m),
     (''json_errors'', JsonErrors m), (''http_requests'', HttpRequests m),
     (''http_errors'', HttpErrors m), (''http_avg_duration_ms'', avgHTTPDuration m),
     (''uptime_seconds'', uptime)] @ runtime @ [(''security_blocked'', SecurityBlocked m)]"

section \<open>Runs\<close>

datatype metric_op =
    OpenConn | CloseConn | QueryTime int64 | HttpRequest int64 int | ResetAll int
  | Counter "metrics \<Rightarrow> metrics"

text \<open>The one-line counters a \<open>Counter\<close> operation may be.\<close>

definition plain_counters :: "(metrics \<Rightarrow> metrics) set" where
  "plain_counters = {IncVMPoolHit, IncVMPoolMiss, IncWSSent, IncWSReceived, IncWSError,
     IncWSDropped, IncQueueRejected, IncExecutorActive, DecExecutorActive, IncJsonOps,
     IncJsonErrors, IncSecurityBlocked, IncrementActiveQueries, DecrementActiveQueries}
     \<union> range SetExecutorQueue"

fun metrics_step :: "metrics \<Rightarrow> metric_op \<Rightarrow> metrics" where
  "metrics_step m OpenConn = IncActiveConnections m"
| "metrics_step m CloseConn = DecActiveConnections m"
| "metrics_step m (QueryTime d) = AddQueryTime d m"
| "metrics_step m (HttpRequest d status) = AddHTTPRequest d status m"
| "metrics_step m (ResetAll now) = metrics_Reset now m"
| "metrics_step m (Counter f) = f m"

fun plain_op :: "metric_op \<Rightarrow> bool" where
  "plain_op (Counter f) = (f \<in> plain_counters)"
| "plain_op _ = True"

text \<open>
  The abstract view: what has happened since the last reset, as unbounded history.
\<close>

record history =
  h_queries :: "int64 list"
  h_opened :: nat
  h_closed :: nat
  h_statuses :: "int list"

definition no_history :: history where
  "no_history = \<lparr>h_queries = [], h_opened = 0, h_closed = 0, h_statuses = []\<rparr>"

fun history_step :: "history \<Rightarrow> metric_op \<Rightarrow> history" where
  "history_step h OpenConn = h\<lparr>h_opened := Suc (h_opened h)\<rparr>"
| "history_step h CloseConn = h\<lparr>h_closed := Suc (h_closed h)\<rparr>"
| "history_step h (QueryTime d) = h\<lparr>h_queries := h_queries h @ [d]\<rparr>"
| "history_step h (HttpRequest d status) = h\<lparr>h_statuses := h_statuses h @ [status]\<rparr>"
| "history_step h (ResetAll now) = no_history"
| "history_step h (Counter f) = h"

definition reflects :: "metrics \<Rightarrow> history \<Rightarrow> bool" where
  "reflects m h \<longleftrightarrow>
     queryTimes m = drop (length (h_queries h) - 1000) (h_queries h)
     \<and> TotalQueries m = of_nat (length (h_queries h))
     \<and> SlowQueries m = of_nat (length (filter slow (h_queries h)))
     \<and> TotalConnections m = of_nat (h_opened h)
     \<and> ActiveConnections m = of_nat (h_opened h) - of_nat (h_closed h)
     \<and> HttpRequests m = of_nat (length (h_statuses h))
     \<and> HttpErrors m = of_nat (length (filter (\<lambda>s. 400 \<le> s) (h_statuses h)))"

lemma reflects_initial: "reflects (GlobalMetrics now) no_history"
  by (simp add: reflects_def GlobalMetrics_def no_history_def)

lemma window_step:
  "(let qs = drop (length xs - 1000) xs @ [d] in if length qs > 1000 then drop 1 qs else qs)
     = drop (length (xs @ [d]) - 1000) (xs @ [d])"
proof (cases "length xs < 1000")
  case True
  then show ?thesis by (simp add: Let_def)
next
  case False
  then have "drop 1 (drop (length xs - 1000) xs @ [d]) = drop (Suc (length xs - 1000)) (xs @ [d])"
    by (simp add: drop_Suc_Cons drop_tl tl_drop flip: drop_Suc)
  moreover have "Suc (length xs - 1000) = length xs - 999" using False by simp
  ultimately show ?thesis using False by (simp add: Let_def)
qed

lemma plain_counter_fields:
  assumes "f \<in> plain_counters"
  shows "queryTimes (f m) = queryTimes m \<and> TotalQueries (f m) = TotalQueries m
    \<and> SlowQueries (f m) = SlowQueries m \<and> TotalConnections (f m) = TotalConnections m
    \<and> ActiveConnections (f m) = ActiveConnections m \<and> HttpRequests (f m) = HttpRequests m
    \<and> HttpErrors (f m) = HttpErrors m"
  using assms
  by (auto simp: plain_counters_def IncVMPoolHit_def IncVMPoolMiss_def IncWSSent_def
      IncWSReceived_def IncWSError_def IncWSDropped_def IncQueueRejected_def
      IncExecutorActive_def DecExecutorActive_def IncJsonOps_def IncJsonErrors_def
      IncSecurityBlocked_def IncrementActiveQueries_def DecrementActiveQueries_def
      SetExecutorQueue_def)

lemma AddQueryTime_fields:
  "queryTimes (AddQueryTime d m)
     = (let qs = queryTimes m @ [d] in if length qs > 1000 then drop 1 qs else qs)"
  "TotalQueries (AddQueryTime d m) = TotalQueries m + 1"
  "SlowQueries (AddQueryTime d m) = (if slow d then SlowQueries m + 1 else SlowQueries m)"
  "TotalConnections (AddQueryTime d m) = TotalConnections m"
  "ActiveConnections (AddQueryTime d m) = ActiveConnections m"
  "HttpRequests (AddQueryTime d m) = HttpRequests m"
  "HttpErrors (AddQueryTime d m) = HttpErrors m"
  by (simp_all add: AddQueryTime_def Let_def)

lemma reflects_step:
  assumes "reflects m h" and "plain_op op"
  shows "reflects (metrics_step m op) (history_step h op)"
proof (cases op)
  case (QueryTime d)
  with assms window_step[of "h_queries h" d] show ?thesis
    by (simp add: reflects_def AddQueryTime_fields)
next
  case (Counter f)
  with assms plain_counter_fields[of f m] show ?thesis by (simp add: reflects_def)
qed (use assms in \<open>auto simp: reflects_def no_history_def metrics_Reset_def AddHTTPRequest_def
       IncActiveConnections_def DecActiveConnections_def Let_def\<close>)

text \<open>The counters and the history, run side by side.\<close>

abbreviation both_step :: "metrics \<times> history \<Rightarrow> metric_op \<Rightarrow> metrics \<times> history" where
  "both_step s op \<equiv> (metrics_step (fst s) op, history_step (snd s) op)"

interpretation mg: guarded_system both_step "\<lambda>_ op. plain_op op" "\<lambda>s. reflects (fst s) (snd s)"
  by unfold_locales (auto intro: reflects_step)

lemma both_run: "foldl both_step (m, h) ops = (foldl metrics_step m ops, foldl history_step h ops)"
  by (induction ops arbitrary: m h) auto

lemma run_ok_plain: "\<forall>op\<in>set ops. plain_op op \<Longrightarrow> mg.run_ok s ops"
  by (induction ops arbitrary: s) auto

section \<open>Properties\<close>

text \<open>
  C11. The counters refine the history since the last reset, for every sequence of updates: the
  window holds exactly the last 1000 query times in order, and the query, slow-query,
  connection and request counters are the counts of the history modulo 64 bits, the active
  connections being those opened minus those closed.
\<close>

theorem metrics_reflect_history:
  assumes "\<forall>op\<in>set ops. plain_op op"
  shows "reflects (foldl metrics_step (GlobalMetrics now) ops) (foldl history_step no_history ops)"
  using mg.inv_run[of "(GlobalMetrics now, no_history)" ops] run_ok_plain[OF assms] reflects_initial
  by (simp add: both_run)

theorem metrics_reflect_history_witness:
  "reflects (foldl metrics_step (GlobalMetrics 0)
       [OpenConn, QueryTime 300000000, Counter IncWSSent, HttpRequest 5 404, QueryTime 7])
     \<lparr>h_queries = [300000000, 7], h_opened = 1, h_closed = 0, h_statuses = [404]\<rparr>"
  using metrics_reflect_history[of
      "[OpenConn, QueryTime 300000000, Counter IncWSSent, HttpRequest 5 404, QueryTime 7]" 0]
  by (simp add: plain_counters_def no_history_def)

lemma sum_durations_exact:
  assumes "\<forall>t\<in>set ts. 0 \<le> sint t \<and> sint t \<le> hi" and "0 \<le> sint acc"
    and "sint acc + hi * int (length ts) < 2 ^ 63"
  shows "sint (sum_durations acc ts) = sint acc + sum_list (map sint ts)"
  using assms
proof (induction ts arbitrary: acc)
  case Nil
  then show ?case by simp
next
  case (Cons t ts)
  have t: "0 \<le> sint t" "sint t \<le> hi" using Cons.prems(1) by auto
  then have "0 \<le> hi * int (length ts)" by simp
  moreover have "sint acc + (hi + hi * int (length ts)) < 2 ^ 63"
    using Cons.prems(3) by (simp add: algebra_simps)
  ultimately have small: "sint acc + sint t < 2 ^ 63" using t by linarith
  have add: "sint (acc + t) = sint acc + sint t"
    using sint_word_of_int[of "sint acc + sint t"] t small Cons.prems(2) by simp
  show ?case
    using Cons.IH[of "acc + t"] Cons.prems t add by (simp add: algebra_simps)
qed

lemma sum_list_bounds:
  "\<forall>t\<in>set ts. lo \<le> f t \<and> f t \<le> hi \<Longrightarrow>
   lo * int (length ts) \<le> sum_list (map f ts) \<and> sum_list (map f ts) \<le> hi * int (length ts)"
  by (induction ts) (auto simp: algebra_simps)

text \<open>
  The reported average lies between the smallest and the largest duration of the window
  whenever every duration is non-negative and below \<open>2 ^ 63 / 1000\<close> nanoseconds (106 days), so
  that the sum of a full window cannot overflow.
\<close>

theorem avgQueryTime_between:
  assumes "queryTimes m \<noteq> []" and "length (queryTimes m) \<le> 1000"
    and "\<forall>t\<in>set (queryTimes m). lo \<le> sint t \<and> sint t \<le> hi"
    and "0 \<le> lo" and "1000 * hi < 2 ^ 63"
  shows "lo \<le> sint (avgQueryTime m) \<and> sint (avgQueryTime m) \<le> hi"
proof -
  let ?ts = "queryTimes m" and ?n = "int (length (queryTimes m))"
  have n: "0 < ?n" "?n \<le> 1000" using assms(1,2) by auto
  obtain t where "t \<in> set ?ts" using assms(1) by (cases ?ts) auto
  then have hi: "0 \<le> hi" using assms(3,4) by force
  have le: "hi * ?n \<le> 1000 * hi" using mult_left_mono[OF n(2) hi] by simp
  have sum: "sint (sum_durations 0 ?ts) = sum_list (map sint ?ts)"
    using sum_durations_exact[of ?ts hi 0] assms(3-5) le by force
  have len: "sint (of_nat (length ?ts) :: int64) = ?n"
    using sint_word_of_int[of ?n] n by simp
  have b: "lo * ?n \<le> sum_list (map sint ?ts)" "sum_list (map sint ?ts) \<le> hi * ?n"
    using sum_list_bounds[of ?ts lo sint hi] assms(3) by auto
  have pos: "0 \<le> sum_list (map sint ?ts)" using b(1) assms(4) n by (meson mult_nonneg_nonneg order_trans less_imp_le)
  then have q: "sum_list (map sint ?ts) sdiv ?n = sum_list (map sint ?ts) div ?n"
    using n by (cases "sum_list (map sint ?ts) = 0") (simp_all add: signed_divide_int_def)
  have d: "lo \<le> sum_list (map sint ?ts) div ?n" "sum_list (map sint ?ts) div ?n \<le> hi"
    using zdiv_mono1[OF b(1) n(1)] zdiv_mono1[OF b(2) n(1)] n by simp_all
  have "sint (avgQueryTime m) = sum_list (map sint ?ts) div ?n"
    using assms(1,4,5) d sint_word_of_int[of "sum_list (map sint ?ts) div ?n"] hi
    by (simp add: avgQueryTime_def int64_quot_def sum len q)
  with d show ?thesis by simp
qed

theorem avgQueryTime_between_witness:
  "3 \<le> sint (avgQueryTime (foldl metrics_step (GlobalMetrics 0) [QueryTime 3, QueryTime 8]))
   \<and> sint (avgQueryTime (foldl metrics_step (GlobalMetrics 0) [QueryTime 3, QueryTime 8])) \<le> 8"
  by (rule avgQueryTime_between) (simp_all add: GlobalMetrics_def AddQueryTime_def slow_def Let_def)

text \<open>
  \<^verbatim>\<open>Reset\<close> zeroes the gauge of live connections although they stay open: when \<open>n\<close> of them
  then close, the gauge reads \<open>-n\<close>.
\<close>

theorem reset_drives_gauge_negative:
  assumes "n < 2 ^ 63"
  shows "sint (ActiveConnections
      (foldl metrics_step (metrics_Reset now m) (replicate n CloseConn))) = - int n"
proof -
  have "ActiveConnections (foldl metrics_step m' (replicate n CloseConn))
      = ActiveConnections m' - of_nat n" for m'
    by (induction n arbitrary: m') (auto simp: DecActiveConnections_def)
  then have "ActiveConnections (foldl metrics_step (metrics_Reset now m) (replicate n CloseConn))
      = word_of_int (- int n)"
    by (simp add: metrics_Reset_def)
  moreover have "int n < 2 ^ 63" using assms by (metis of_nat_less_iff of_nat_numeral of_nat_power)
  ultimately show ?thesis by (simp only: sint_word_of_int)
qed

theorem reset_drives_gauge_negative_witness:
  "sint (ActiveConnections (foldl metrics_step
      (metrics_Reset 9 (foldl metrics_step (GlobalMetrics 0) [OpenConn, OpenConn]))
      (replicate 2 CloseConn))) = -2"
proof -
  have "(2 :: nat) < 2 ^ 63" by simp
  from reset_drives_gauge_negative[OF this, of 9 "foldl metrics_step (GlobalMetrics 0) [OpenConn, OpenConn]"]
  show ?thesis by (simp only: of_nat_numeral)
qed

end
