(* ===== verification/GoStrings.thy ===== *)
theory GoStrings
  imports Prelude "HOL-Library.Sublist"
begin

text \<open>
  The part of Go's \<^verbatim>\<open>strings\<close> package the program uses, on byte strings (a \<^typ>\<open>char\<close> is a
  byte).  Case mapping is done on the ASCII letters only: every string the program compares a
  lowered string with is ASCII without \<^verbatim>\<open>i\<close> and \<^verbatim>\<open>k\<close>, the only letters to which Go
  also maps characters outside ASCII, so the comparisons have the same results.
\<close>

section \<open>Prefixes, suffixes and substrings\<close>

abbreviation HasPrefix :: "string \<Rightarrow> string \<Rightarrow> bool" where
  "HasPrefix s p \<equiv> prefix p s"

abbreviation HasSuffix :: "string \<Rightarrow> string \<Rightarrow> bool" where
  "HasSuffix s p \<equiv> suffix p s"

definition TrimPrefix :: "string \<Rightarrow> string \<Rightarrow> string" where
  "TrimPrefix s p = (if HasPrefix s p then drop (length p) s else s)"

definition TrimSuffix :: "string \<Rightarrow> string \<Rightarrow> string" where
  "TrimSuffix s p = (if HasSuffix s p then take (length s - length p) s else s)"

fun StrContains :: "string \<Rightarrow> string \<Rightarrow> bool" where
  "StrContains [] p = (p = [])"
| "StrContains (c # s) p = (HasPrefix (c # s) p \<or> StrContains s p)"

text \<open>\<^verbatim>\<open>strings.ReplaceAll\<close> for a nonempty old string.\<close>

function ReplaceAll :: "string \<Rightarrow> string \<Rightarrow> string \<Rightarrow> string" where
  "ReplaceAll s old new =
    (if old = [] \<or> s = [] then s
     else if HasPrefix s old then new @ ReplaceAll (drop (length old) s) old new
     else hd s # ReplaceAll (tl s) old new)"
  by pat_completeness auto
termination
  by (relation "measure (\<lambda>(s, _, _). length s)") auto

declare ReplaceAll.simps [simp del]

lemma ReplaceAll_absent: "\<not> StrContains s old \<Longrightarrow> ReplaceAll s old new = s"
proof (induction s)
  case Nil
  then show ?case by (simp add: ReplaceAll.simps)
next
  case (Cons c s)
  then show ?case by (subst ReplaceAll.simps) simp
qed

text \<open>Every old character replaced, when the old string is one character.\<close>

lemma ReplaceAll_char:
  "ReplaceAll s [c] new = concat (map (\<lambda>x. if x = c then new else [x]) s)"
proof (induction s)
  case Nil
  then show ?case by (simp add: ReplaceAll.simps)
next
  case (Cons a s)
  then show ?case by (subst ReplaceAll.simps) auto
qed

section \<open>Splitting and joining\<close>

fun Split :: "char \<Rightarrow> string \<Rightarrow> string list" where
  "Split sep [] = [[]]"
| "Split sep (c # s) =
     (if c = sep then [] # Split sep s else (case Split sep s of p # ps \<Rightarrow> (c # p) # ps | [] \<Rightarrow> [[c]]))"

fun Join :: "string \<Rightarrow> string list \<Rightarrow> string" where
  "Join sep [] = []"
| "Join sep [s] = s"
| "Join sep (s # t # ts) = s @ sep @ Join sep (t # ts)"

lemma Split_not_Nil [simp]: "Split sep s \<noteq> []"
  by (induction s) (auto split: list.splits)

lemma Split_append_sep: "Split sep (xs @ sep # ys) = Split sep xs @ Split sep ys"
proof (induction xs)
  case Nil
  then show ?case by simp
next
  case (Cons x xs)
  obtain p ps where "Split sep xs = p # ps" by (meson Split_not_Nil list.exhaust)
  with Cons show ?case by auto
qed

lemma Split_no_sep: "sep \<notin> set s \<Longrightarrow> Split sep s = [s]"
  by (induction s) auto

lemma Split_piece: "p \<in> set (Split sep s) \<Longrightarrow> sep \<notin> set p"
proof (induction s arbitrary: p)
  case Nil
  then show ?case by simp
next
  case (Cons c s)
  obtain q qs where "Split sep s = q # qs" by (meson Split_not_Nil list.exhaust)
  with Cons show ?case by (auto split: if_splits)
qed

lemma Split_subset: "p \<in> set (Split sep s) \<Longrightarrow> set p \<subseteq> set s"
proof (induction s arbitrary: p)
  case Nil
  then show ?case by simp
next
  case (Cons c s)
  obtain q qs where "Split sep s = q # qs" by (meson Split_not_Nil list.exhaust)
  moreover from this have "\<forall>r\<in>set (q # qs). set r \<subseteq> set s" using Cons.IH by simp
  ultimately show ?case using Cons.prems by (auto split: if_splits)
qed

lemma Split_Join:
  "cs \<noteq> [] \<Longrightarrow> (\<And>c. c \<in> set cs \<Longrightarrow> sep \<notin> set c) \<Longrightarrow> Split sep (Join [sep] cs) = cs"
proof (induction "[sep]" cs rule: Join.induct)
  case (3 s t ts)
  then show ?case by (simp add: Split_append_sep Split_no_sep)
qed (simp_all add: Split_no_sep)

lemma Join_Cons: "Join sep (s # ss) = (if ss = [] then s else s @ sep @ Join sep ss)"
  by (cases ss) simp_all

lemma Join_Split: "Join [sep] (Split sep s) = s"
proof (induction s)
  case Nil
  then show ?case by simp
next
  case (Cons c s)
  obtain q qs where "Split sep s = q # qs" by (meson Split_not_Nil list.exhaust)
  with Cons show ?case by (auto simp: Join_Cons split: if_splits)
qed

lemma StrContains_sublist: "StrContains s p \<longleftrightarrow> (\<exists>a b. s = a @ p @ b)"
proof (induction s)
  case Nil
  then show ?case by simp
next
  case (Cons c s)
  show ?case
    unfolding StrContains.simps Cons.IH
    by (auto simp: prefix_def Cons_eq_append_conv)
qed

lemma Split_sublist: "p \<in> set (Split sep s) \<Longrightarrow> StrContains p q \<Longrightarrow> StrContains s q"
proof -
  assume p: "p \<in> set (Split sep s)" and q: "StrContains p q"
  obtain xs ys where "Split sep s = xs @ p # ys" using p by (meson split_list)
  then have "s = Join [sep] (xs @ p # ys)" by (metis Join_Split)
  moreover have "\<exists>a b. Join [sep] (xs @ p # ys) = a @ p @ b"
  proof (induction xs)
    case Nil
    show ?case by (cases ys) (auto intro: exI[of _ "[]"])
  next
    case (Cons x xs)
    then obtain a b where "Join [sep] (xs @ p # ys) = a @ p @ b" by blast
    then have "Join [sep] ((x # xs) @ p # ys) = (x @ sep # a) @ p @ b" by (simp add: Join_Cons)
    then show ?case by blast
  qed
  ultimately obtain a b where s: "s = a @ p @ b" by blast
  obtain c d where "p = c @ q @ d" using q by (auto simp: StrContains_sublist)
  with s have "s = (a @ c) @ q @ (d @ b)" by simp
  then show "StrContains s q" unfolding StrContains_sublist by blast
qed

lemma StrContains_self: "StrContains s s"
  by (cases s) auto

lemma Split_contains: "p \<in> set (Split sep s) \<Longrightarrow> StrContains s p"
  using Split_sublist StrContains_self by blast

section \<open>Case and white space\<close>

definition lower_char :: "char \<Rightarrow> char" where
  "lower_char c = (let n = (of_char c :: nat) in if 65 \<le> n \<and> n \<le> 90 then char_of (n + 32) else c)"

definition ToLower :: "string \<Rightarrow> string" where
  "ToLower s = map lower_char s"

text \<open>The white space of Unicode in UTF-8: what \<^verbatim>\<open>strings.TrimSpace\<close> removes.\<close>

definition white_spaces :: "string list" where
  "white_spaces =
     [[CHR 0x09], [CHR 0x0A], [CHR 0x0B], [CHR 0x0C], [CHR 0x0D], [CHR 0x20],
      [CHR 0xC2, CHR 0x85], [CHR 0xC2, CHR 0xA0], [CHR 0xE1, CHR 0x9A, CHR 0x80]]
     @ map (\<lambda>b. [CHR 0xE2, CHR 0x80, b])
         [CHR 0x80, CHR 0x81, CHR 0x82, CHR 0x83, CHR 0x84, CHR 0x85, CHR 0x86, CHR 0x87,
          CHR 0x88, CHR 0x89, CHR 0x8A, CHR 0xA8, CHR 0xA9, CHR 0xAF]
     @ [[CHR 0xE2, CHR 0x81, CHR 0x9F], [CHR 0xE3, CHR 0x80, CHR 0x80]]"

lemma white_spaces_nonempty: "w \<in> set white_spaces \<Longrightarrow> w \<noteq> []"
  by (auto simp: white_spaces_def)

definition strip_one :: "string list \<Rightarrow> string \<Rightarrow> string option" where
  "strip_one ws s = map_option (\<lambda>w. drop (length w) s) (find (\<lambda>w. w \<noteq> [] \<and> HasPrefix s w) ws)"

lemma strip_one_shorter: "strip_one ws s = Some t \<Longrightarrow> length t < length s"
  by (auto simp: strip_one_def find_Some_iff prefix_def)

function strip :: "string list \<Rightarrow> string \<Rightarrow> string" where
  "strip ws s = (case strip_one ws s of None \<Rightarrow> s | Some t \<Rightarrow> strip ws t)"
  by pat_completeness auto
termination
  by (relation "measure (\<lambda>(_, s). length s)") (auto dest: strip_one_shorter)

declare strip.simps [simp del]

definition TrimLeft :: "string \<Rightarrow> string" where
  "TrimLeft s = strip white_spaces s"

definition TrimSpace :: "string \<Rightarrow> string" where
  "TrimSpace s = rev (strip (map rev white_spaces) (rev (TrimLeft s)))"

lemma strip_stops: "strip_one ws (strip ws s) = None"
proof (induction ws s rule: strip.induct)
  case (1 ws s)
  then show ?case by (subst strip.simps) (auto split: option.splits)
qed

lemma strip_id: "strip_one ws s = None \<Longrightarrow> strip ws s = s"
  by (simp add: strip.simps)

lemma suffix_strip: "suffix (strip ws s) s"
proof (induction ws s rule: strip.induct)
  case (1 ws s)
  show ?case
  proof (cases "strip_one ws s")
    case None
    then show ?thesis by (simp add: strip_id)
  next
    case (Some t)
    then have "suffix t s" by (auto simp: strip_one_def suffix_drop)
    with 1[OF Some] Some show ?thesis
      by (subst strip.simps) (auto intro: suffix_order.trans)
  qed
qed

lemma TrimSpace_subset: "set (TrimSpace s) \<subseteq> set s"
  using set_mono_suffix[OF suffix_strip[of "map rev white_spaces" "rev (TrimLeft s)"]]
    set_mono_suffix[OF suffix_strip[of white_spaces s]]
  by (simp add: TrimSpace_def TrimLeft_def)

text \<open>Nothing is trimmed from a string that starts and ends with plain characters.\<close>

definition plain :: "char \<Rightarrow> bool" where
  "plain c \<longleftrightarrow> (let n = (of_char c :: nat) in 33 \<le> n \<and> n < 127)"

lemma plain_not_white: "w \<in> set white_spaces \<Longrightarrow> \<not> plain (hd w) \<and> \<not> plain (last w)"
  by (auto simp: white_spaces_def plain_def)

lemma strip_one_plain:
  assumes "s \<noteq> []" and "plain (hd s)" and "\<And>w. w \<in> set ws \<Longrightarrow> w \<noteq> [] \<Longrightarrow> \<not> plain (hd w)"
  shows "strip_one ws s = None"
  using assms by (auto simp: strip_one_def find_None_iff prefix_def hd_append)

lemma TrimSpace_plain:
  assumes "s \<noteq> []" and "plain (hd s)" and "plain (last s)"
  shows "TrimSpace s = s"
proof -
  have "strip_one white_spaces s = None"
    using assms plain_not_white by (intro strip_one_plain) auto
  moreover have "strip_one (map rev white_spaces) (rev s) = None"
    using assms plain_not_white
    by (intro strip_one_plain) (auto simp: hd_rev)
  ultimately show ?thesis by (simp add: TrimSpace_def TrimLeft_def strip_id)
qed

section \<open>Numbers\<close>

definition digit :: "nat \<Rightarrow> char" where
  "digit n = char_of (48 + n)"

fun show_nat :: "nat \<Rightarrow> string" where
  "show_nat n = (if n < 10 then [digit n] else show_nat (n div 10) @ [digit (n mod 10)])"

declare show_nat.simps [simp del]

definition show_int :: "int \<Rightarrow> string" where
  "show_int i = (if i < 0 then CHR ''-'' # show_nat (nat (- i)) else show_nat (nat i))"

lemma digit_inj: "m < 10 \<Longrightarrow> n < 10 \<Longrightarrow> digit m = digit n \<Longrightarrow> m = n"
proof -
  assume "m < 10" "n < 10" "digit m = digit n"
  then have "(of_char (digit m) :: nat) = of_char (digit n)" by simp
  with \<open>m < 10\<close> \<open>n < 10\<close> show "m = n" by (simp add: digit_def of_char_of)
qed

lemma show_nat_nonempty: "show_nat n \<noteq> []"
  by (subst show_nat.simps) simp

lemma show_nat_inj: "show_nat m = show_nat n \<Longrightarrow> m = n"
proof (induction m arbitrary: n rule: show_nat.induct)
  case (1 m)
  have rec: "show_nat k = show_nat (k div 10) @ [digit (k mod 10)]" if "\<not> k < 10" for k
    using that by (subst show_nat.simps) simp
  have small: "show_nat k = [digit k]" if "k < 10" for k
    using that by (subst show_nat.simps) simp
  show ?case
  proof (cases "m < 10"; cases "n < 10")
    assume "m < 10" "n < 10"
    with "1.prems" show ?thesis by (simp add: small digit_inj)
  next
    assume "m < 10" "\<not> n < 10"
    with "1.prems" show ?thesis using show_nat_nonempty[of "n div 10"] by (simp add: small rec)
  next
    assume "\<not> m < 10" "n < 10"
    with "1.prems" show ?thesis using show_nat_nonempty[of "m div 10"] by (simp add: small rec)
  next
    assume *: "\<not> m < 10" "\<not> n < 10"
    with "1.prems" have "show_nat (m div 10) = show_nat (n div 10)" "m mod 10 = n mod 10"
      by (auto simp: rec intro: digit_inj)
    with "1.IH" * show ?thesis by (metis mult_div_mod_eq)
  qed
qed

end
