(* ===== verification/Collectors.thy ===== *)
theory Collectors
  imports Metrics GoStrings
begin

text \<open>
  The Prometheus side of \<^verbatim>\<open>internal/metrics/metrics.go\<close>: the collectors the package declares
  and registers, and the calls its methods make on them.  The library keeps the values, so the
  model keeps the calls, in order.  The lemmas say that every call fits the collector it names
  (a wrong number of labels makes the library panic), and how the exported gauge relates to the
  package's own counter.
\<close>

section \<open>Declarations\<close>

datatype collector_kind = CounterVec | Gauge | Histogram

record collector =
  co_kind :: collector_kind
  co_name :: string
  co_help :: string
  co_labels :: "string list"

definition httpRequestsTotal :: collector where
  "httpRequestsTotal = \<lparr>co_kind = CounterVec, co_name = ''http_requests_total'',
     co_help = ''Total HTTP requests'', co_labels = [''method'', ''path'', ''status'']\<rparr>"

definition queryDuration :: collector where
  "queryDuration = \<lparr>co_kind = Histogram, co_name = ''query_duration_seconds'',
     co_help = ''Query duration in seconds'', co_labels = []\<rparr>"

definition activeConnections :: collector where
  "activeConnections = \<lparr>co_kind = Gauge, co_name = ''active_connections'',
     co_help = ''Active connections'', co_labels = []\<rparr>"

definition wsMessagesTotal :: collector where
  "wsMessagesTotal = \<lparr>co_kind = CounterVec, co_name = ''ws_messages_total'',
     co_help = ''WebSocket messages total'', co_labels = [''direction'']\<rparr>"

definition memoryUsage :: collector where
  "memoryUsage = \<lparr>co_kind = Gauge, co_name = ''memory_usage_bytes'',
     co_help = ''Memory usage in bytes'', co_labels = []\<rparr>"

definition securityViolations :: collector where
  "securityViolations = \<lparr>co_kind = CounterVec, co_name = ''security_violations_total'',
     co_help = ''Total security violations blocked'', co_labels = [''type'']\<rparr>"

text \<open>\<^verbatim>\<open>MustRegister\<close> panics when a name is taken; \<open>init_collectors\<close> is the package's \<^verbatim>\<open>init\<close>.\<close>

definition MustRegister :: "collector \<Rightarrow> collector list result \<Rightarrow> collector list result" where
  "MustRegister c reg =
    (case reg of
       Panic \<Rightarrow> Panic
     | Value cs \<Rightarrow> if co_name c \<in> set (map co_name cs) then Panic else Value (cs @ [c]))"

definition init_collectors :: "collector list result" where
  "init_collectors =
    fold MustRegister [httpRequestsTotal, queryDuration, activeConnections, wsMessagesTotal,
      memoryUsage, securityViolations] (Value [])"

section \<open>Calls\<close>

datatype collector_call =
    GaugeInc collector | GaugeDec collector | GaugeSet collector int
  | Observe collector int64 | LabelInc collector "string list"

text \<open>A method of the package that touches a collector, or one that touches counters only.\<close>

datatype collector_op = Method metric_op | SecurityBlock string | ReadStats int

fun calls_of :: "collector_op \<Rightarrow> collector_call list" where
  "calls_of (Method OpenConn) = [GaugeInc activeConnections]"
| "calls_of (Method CloseConn) = [GaugeDec activeConnections]"
| "calls_of (Method (QueryTime d)) = [Observe queryDuration d]"
| "calls_of (Method (HttpRequest d status)) = [LabelInc httpRequestsTotal [[], [], show_int status]]"
| "calls_of (Method (ResetAll now)) = []"
| "calls_of (Method (Counter f)) = []"
| "calls_of (SecurityBlock violationType) = [LabelInc securityViolations [violationType]]"
| "calls_of (ReadStats alloc) = [GaugeSet memoryUsage alloc]"

fun metrics_of :: "collector_op \<Rightarrow> metrics \<Rightarrow> metrics" where
  "metrics_of (Method op) m = metrics_step m op"
| "metrics_of (SecurityBlock violationType) m = IncSecurityBlocked m"
| "metrics_of (ReadStats alloc) m = m"

definition collector_step ::
  "metrics \<times> collector_call list \<Rightarrow> collector_op \<Rightarrow> metrics \<times> collector_call list" where
  "collector_step s op = (metrics_of op (fst s), snd s @ calls_of op)"

fun call_fits :: "collector list \<Rightarrow> collector_call \<Rightarrow> bool" where
  "call_fits reg (GaugeInc c) \<longleftrightarrow> c \<in> set reg \<and> co_kind c = Gauge"
| "call_fits reg (GaugeDec c) \<longleftrightarrow> c \<in> set reg \<and> co_kind c = Gauge"
| "call_fits reg (GaugeSet c v) \<longleftrightarrow> c \<in> set reg \<and> co_kind c = Gauge"
| "call_fits reg (Observe c d) \<longleftrightarrow> c \<in> set reg \<and> co_kind c = Histogram"
| "call_fits reg (LabelInc c ls) \<longleftrightarrow>
     c \<in> set reg \<and> co_kind c = CounterVec \<and> length ls = length (co_labels c)"

text \<open>What the gauge of active connections stands at after some calls.\<close>

fun gauge_delta :: "collector_call \<Rightarrow> int" where
  "gauge_delta (GaugeInc c) = (if c = activeConnections then 1 else 0)"
| "gauge_delta (GaugeDec c) = (if c = activeConnections then -1 else 0)"
| "gauge_delta _ = 0"

definition exported_connections :: "collector_call list \<Rightarrow> int" where
  "exported_connections cs = sum_list (map gauge_delta cs)"

lemmas collector_defs = httpRequestsTotal_def queryDuration_def activeConnections_def
  wsMessagesTotal_def memoryUsage_def securityViolations_def

definition registered_collectors :: "collector list" where
  "registered_collectors = [httpRequestsTotal, queryDuration, activeConnections, wsMessagesTotal,
     memoryUsage, securityViolations]"

lemma init_succeeds: "init_collectors = Value registered_collectors"
  by (simp add: init_collectors_def MustRegister_def registered_collectors_def collector_defs)

lemma calls_fit: "call \<in> set (calls_of op) \<Longrightarrow> call_fits registered_collectors call"
  by (cases op rule: calls_of.cases) (auto simp: registered_collectors_def collector_defs)

lemma calls_not_ws: "call \<in> set (calls_of op) \<Longrightarrow> call \<noteq> LabelInc wsMessagesTotal ls"
  by (cases op rule: calls_of.cases) (auto simp: collector_defs)

lemma collector_run_calls: "snd (foldl collector_step s ops) = snd s @ concat (map calls_of ops)"
  by (induction ops arbitrary: s) (simp_all add: collector_step_def)

interpretation cc: guarded_system collector_step "\<lambda>_ _. True"
  "\<lambda>s. \<forall>call\<in>set (snd s). call_fits registered_collectors call"
  by unfold_locales (auto simp: collector_step_def dest: calls_fit)

fun op_ok :: "collector_op \<Rightarrow> bool" where
  "op_ok (Method (ResetAll now)) = False"
| "op_ok (Method op) = plain_op op"
| "op_ok _ = True"

lemma op_delta:
  assumes "op_ok op"
  shows "ActiveConnections (metrics_of op m)
    = ActiveConnections m + of_int (exported_connections (calls_of op))"
proof (cases op rule: calls_of.cases)
  case (6 f)
  with assms plain_counter_fields[of f m] show ?thesis by (simp add: exported_connections_def)
qed (use assms in \<open>auto simp: exported_connections_def IncActiveConnections_def DecActiveConnections_def
       AddQueryTime_fields AddHTTPRequest_def IncSecurityBlocked_def Let_def\<close>)

lemma run_delta:
  "\<forall>op\<in>set ops. op_ok op \<Longrightarrow> ActiveConnections (fst (foldl collector_step s ops))
    = ActiveConnections (fst s) + of_int (exported_connections (concat (map calls_of ops)))"
proof (induction ops arbitrary: s)
  case (Cons op ops)
  then have "op_ok op" by simp
  from Cons op_delta[OF this, of "fst s"] show ?case
    by (simp add: collector_step_def exported_connections_def)
qed (simp add: exported_connections_def)

section \<open>Properties\<close>



text \<open>
  The exported gauge of active connections equals the package's counter (modulo 64 bits)
  until the first reset; a reset clears the counter and not the gauge, and from then on they
  differ by the connections that were open.
\<close>

theorem exported_gauge_drifts:
  assumes "\<forall>op\<in>set before. op_ok op" and "\<forall>op\<in>set after. op_ok op"
  shows "ActiveConnections (fst (foldl collector_step (GlobalMetrics t0, []) before))
      = of_int (exported_connections (snd (foldl collector_step (GlobalMetrics t0, []) before)))"
    and "of_int (exported_connections (snd (foldl collector_step (GlobalMetrics t0, [])
          (before @ Method (ResetAll t1) # after))))
      = ActiveConnections (fst (foldl collector_step (GlobalMetrics t0, []) (before @ Method (ResetAll t1) # after)))
        + ActiveConnections (fst (foldl collector_step (GlobalMetrics t0, []) before))"
proof -
  let ?s = "foldl collector_step (GlobalMetrics t0, []) before"
  show b: "ActiveConnections (fst ?s) = of_int (exported_connections (snd ?s))"
    using run_delta[OF assms(1), of "(GlobalMetrics t0, [])"]
    by (simp add: collector_run_calls GlobalMetrics_def)
  have "ActiveConnections (fst (foldl collector_step (collector_step ?s (Method (ResetAll t1))) after))
      = of_int (exported_connections (concat (map calls_of after)))"
    using run_delta[OF assms(2), of "collector_step ?s (Method (ResetAll t1))"]
    by (simp add: collector_step_def metrics_Reset_def)
  then show "of_int (exported_connections (snd (foldl collector_step (GlobalMetrics t0, [])
          (before @ Method (ResetAll t1) # after))))
      = ActiveConnections (fst (foldl collector_step (GlobalMetrics t0, []) (before @ Method (ResetAll t1) # after)))
        + ActiveConnections (fst ?s)"
    using b by (simp add: collector_run_calls exported_connections_def collector_step_def)
qed

lemma exported_gauge_drifts_witness:
  "exported_connections (snd (foldl collector_step (GlobalMetrics 0, [])
      ([Method OpenConn, Method OpenConn] @ Method (ResetAll 5) # [Method CloseConn]))) = 1
   \<and> (1 :: int64) = ActiveConnections (fst (foldl collector_step (GlobalMetrics 0, [])
      ([Method OpenConn, Method OpenConn] @ Method (ResetAll 5) # [Method CloseConn]))) + 2"
proof -
  let ?b = "[Method OpenConn, Method OpenConn]" and ?a = "[Method CloseConn]"
  have e: "exported_connections (snd (foldl collector_step (GlobalMetrics 0, []) (?b @ Method (ResetAll 5) # ?a))) = 1"
    "exported_connections (snd (foldl collector_step (GlobalMetrics 0, []) ?b)) = 2"
    by (simp_all add: collector_step_def exported_connections_def)
  from exported_gauge_drifts(1)[of ?b ?a 0] exported_gauge_drifts(2)[of ?b ?a 0 5] e show ?thesis by simp
qed

end
