(* ===== verification/VMPool.thy ===== *)
theory VMPool
  imports Prelude
begin

text \<open>
  \<^verbatim>\<open>internal/vm/vm_pool.go\<close>: the pool of JavaScript runtimes.  The buffered channel is a list
  with a capacity; a select with a default never blocks, so each of its operations is one
  step.  The goja runtime is third-party code: its state is a type parameter \<open>'rt\<close> and the
  three calls the pool makes are the record \<open>goja_api\<close>.  Times are nanoseconds since the
  epoch.  \<open>vm_id\<close> names the runtime object a \<^verbatim>\<open>GojaVM\<close> wraps.
\<close>

section \<open>State\<close>

text \<open>
  \<open>g_new\<close> is a runtime after \<^verbatim>\<open>RegisterLS\<close>; \<open>g_run\<close> is \<^verbatim>\<open>RunString\<close> under the interrupt
  timer, \<^const>\<open>Inl\<close> an error; \<open>g_clear\<close> is \<^verbatim>\<open>ClearInterrupt\<close>.
\<close>

record 'rt goja_api =
  g_new :: 'rt
  g_run :: "string \<Rightarrow> 'rt \<Rightarrow> (string + string) \<times> 'rt"
  g_clear :: "'rt \<Rightarrow> 'rt"

record 'rt gojaVM =
  vm_id :: nat
  vm_rt :: 'rt
  lastUsed :: int
  createdAt :: int
  usageCount :: int64

record 'rt gojaPool =
  vms :: "'rt gojaVM list"
  capacity :: nat
  p_created :: int64
  p_reused :: int64
  p_evicted :: int64
  p_maxSize :: int
  p_minSize :: int
  next_id :: nat

definition MAX_VM_POOL_SIZE :: nat where "MAX_VM_POOL_SIZE = 500"
definition MIN_VM_POOL_SIZE :: nat where "MIN_VM_POOL_SIZE = 10"

text \<open>The zero \<^verbatim>\<open>time.Time\<close> (1 January of year 1) and \<^verbatim>\<open>time.Since\<close>, which saturates.\<close>

definition zero_time :: int where
  "zero_time = - 62135596800 * 1000000000"

definition time_since :: "int \<Rightarrow> int \<Rightarrow> int" where
  "time_since now t = max (- (2 ^ 63)) (min (2 ^ 63 - 1) (now - t))"

definition half_hour :: int where
  "half_hour = 30 * 60 * 1000000000"

definition stale :: "int \<Rightarrow> 'rt gojaVM \<Rightarrow> bool" where
  "stale now vm \<longleftrightarrow> half_hour < time_since now (lastUsed vm)"

section \<open>Operations\<close>

definition createVM :: "'rt goja_api \<Rightarrow> int \<Rightarrow> 'rt gojaPool \<Rightarrow> 'rt gojaVM \<times> 'rt gojaPool" where
  "createVM api now p =
     (\<lparr>vm_id = next_id p, vm_rt = g_new api, lastUsed = zero_time, createdAt = now, usageCount = 0\<rparr>,
      p\<lparr>next_id := Suc (next_id p)\<rparr>)"

fun prewarm :: "'rt goja_api \<Rightarrow> int \<Rightarrow> nat \<Rightarrow> 'rt gojaPool \<Rightarrow> 'rt gojaPool" where
  "prewarm api now 0 p = p"
| "prewarm api now (Suc n) p =
     (case createVM api now p of (vm, p') \<Rightarrow> prewarm api now n (p'\<lparr>vms := vms p' @ [vm]\<rparr>))"

definition InitGojaPool :: "'rt goja_api \<Rightarrow> int \<Rightarrow> 'rt gojaPool" where
  "InitGojaPool api now = prewarm api now MIN_VM_POOL_SIZE
     \<lparr>vms = [], capacity = MAX_VM_POOL_SIZE, p_created = 0, p_reused = 0, p_evicted = 0,
      p_maxSize = int MAX_VM_POOL_SIZE, p_minSize = int MIN_VM_POOL_SIZE, next_id = 0\<rparr>"

definition pool_Get :: "'rt goja_api \<Rightarrow> int \<Rightarrow> 'rt gojaPool \<Rightarrow> 'rt gojaVM \<times> 'rt gojaPool" where
  "pool_Get api now p =
    (case vms p of
       vm # rest \<Rightarrow>
         (vm\<lparr>lastUsed := now, usageCount := usageCount vm + 1\<rparr>,
          p\<lparr>vms := rest, p_reused := p_reused p + 1\<rparr>)
     | [] \<Rightarrow> createVM api now (p\<lparr>p_created := p_created p + 1\<rparr>))"

definition pool_Put :: "'rt goja_api \<Rightarrow> 'rt gojaVM \<Rightarrow> 'rt gojaPool \<Rightarrow> 'rt gojaPool" where
  "pool_Put api vm p =
    (if sint (usageCount vm) > 10000 then p\<lparr>p_evicted := p_evicted p + 1\<rparr>
     else let vm' = vm\<lparr>vm_rt := g_clear api (vm_rt vm)\<rparr>
          in if length (vms p) < capacity p then p\<lparr>vms := vms p @ [vm']\<rparr>
             else p\<lparr>p_evicted := p_evicted p + 1\<rparr>)"

text \<open>\<^verbatim>\<open>Execute\<close>: the deferred calls stop the timer, then put the VM back, also on an error.\<close>

definition pool_Execute ::
  "'rt goja_api \<Rightarrow> int \<Rightarrow> string \<Rightarrow> 'rt gojaPool \<Rightarrow> (string + string) \<times> 'rt gojaPool" where
  "pool_Execute api now code p =
    (case pool_Get api now p of
       (vm, p1) \<Rightarrow>
         (case g_run api code (vm_rt vm) of
            (result, rt) \<Rightarrow> (result, pool_Put api (vm\<lparr>vm_rt := rt\<rparr>) p1)))"

text \<open>
  One iteration of the cleanup goroutine in two steps: receive a VM and evict it or hold it,
  then offer the held VM back; when the channel is full by then, the inner default drops it.
\<close>

definition clean_take :: "int \<Rightarrow> 'rt gojaPool \<Rightarrow> 'rt gojaPool \<times> 'rt gojaVM option" where
  "clean_take now p =
    (case vms p of
       vm # rest \<Rightarrow>
         if stale now vm then (p\<lparr>vms := rest, p_evicted := p_evicted p + 1\<rparr>, None)
         else (p\<lparr>vms := rest\<rparr>, Some vm)
     | [] \<Rightarrow> (p, None))"

definition clean_back :: "'rt gojaVM \<Rightarrow> 'rt gojaPool \<Rightarrow> 'rt gojaPool" where
  "clean_back vm p = (if length (vms p) < capacity p then p\<lparr>vms := vms p @ [vm]\<rparr> else p)"

definition clean_one :: "int \<Rightarrow> 'rt gojaPool \<Rightarrow> 'rt gojaPool" where
  "clean_one now p =
    (case clean_take now p of (p', None) \<Rightarrow> p' | (p', Some vm) \<Rightarrow> clean_back vm p')"

lemma length_clean_one: "length (vms (clean_one now p)) \<le> length (vms p)"
  by (auto simp: clean_one_def clean_take_def clean_back_def split: list.splits)

text \<open>A whole pass, undisturbed: \<^verbatim>\<open>for i := 0; i < len(p.vms); i++\<close>, the length read anew.\<close>

function cleanup_loop :: "int \<Rightarrow> nat \<Rightarrow> 'rt gojaPool \<Rightarrow> 'rt gojaPool" where
  "cleanup_loop now i p =
    (if i < length (vms p) then cleanup_loop now (Suc i) (clean_one now p) else p)"
  by pat_completeness auto
termination
proof (relation "measure (\<lambda>(now, i, p). length (vms p) - i)", goal_cases)
  case (2 now i p)
  then show ?case using length_clean_one[of now p] by simp
qed simp

declare cleanup_loop.simps [simp del]

lemma cleanup_loop_stop [simp]: "length (vms p) \<le> i \<Longrightarrow> cleanup_loop now i p = p"
  by (simp add: cleanup_loop.simps)

definition cleanup_pass :: "int \<Rightarrow> 'rt gojaPool \<Rightarrow> 'rt gojaPool" where
  "cleanup_pass now p = cleanup_loop now 0 p"

section \<open>The pool in use\<close>

text \<open>
  The pool with the VMs that clients hold, the VM the cleanup goroutine holds, and a ghost
  count of the VMs its inner default dropped.  A client releases a VM it holds, in whatever
  state its script left the runtime.
\<close>

record 'rt pool_sys =
  pool :: "'rt gojaPool"
  out :: "'rt gojaVM list"
  held :: "'rt gojaVM option"
  dropped :: nat

datatype 'rt pool_event = Acquire int | Release nat 'rt | CleanTake int | CleanBack

fun pool_step :: "'rt goja_api \<Rightarrow> 'rt pool_sys \<Rightarrow> 'rt pool_event \<Rightarrow> 'rt pool_sys" where
  "pool_step api s (Acquire now) =
     (case pool_Get api now (pool s) of (vm, p) \<Rightarrow> s\<lparr>pool := p, out := vm # out s\<rparr>)"
| "pool_step api s (Release i rt) =
     s\<lparr>pool := pool_Put api ((out s ! i)\<lparr>vm_rt := rt\<rparr>) (pool s),
       out := take i (out s) @ drop (Suc i) (out s)\<rparr>"
| "pool_step api s (CleanTake now) =
     (case clean_take now (pool s) of (p, h) \<Rightarrow> s\<lparr>pool := p, held := h\<rparr>)"
| "pool_step api s CleanBack =
     (case held s of
        None \<Rightarrow> s
      | Some vm \<Rightarrow> s\<lparr>pool := clean_back vm (pool s), held := None,
                    dropped := (if length (vms (pool s)) < capacity (pool s) then dropped s
                                else Suc (dropped s))\<rparr>)"

fun pool_event_ok :: "'rt pool_sys \<Rightarrow> 'rt pool_event \<Rightarrow> bool" where
  "pool_event_ok s (Release i rt) = (i < length (out s))"
| "pool_event_ok s (CleanTake now) = (held s = None)"
| "pool_event_ok s _ = True"

text \<open>Every VM there is: queued, held by a client, held by the cleanup goroutine.\<close>

definition all_vms :: "'rt pool_sys \<Rightarrow> 'rt gojaVM list" where
  "all_vms s = vms (pool s) @ out s @ (case held s of None \<Rightarrow> [] | Some vm \<Rightarrow> [vm])"

definition pool_inv :: "'rt pool_sys \<Rightarrow> bool" where
  "pool_inv s \<longleftrightarrow>
     distinct (map vm_id (all_vms s))
     \<and> (\<forall>vm\<in>set (all_vms s). vm_id vm < next_id (pool s))
     \<and> length (vms (pool s)) \<le> capacity (pool s)
     \<and> of_nat (next_id (pool s))
         = of_nat (length (all_vms s) + dropped s) + p_evicted (pool s)"

definition start_sys :: "'rt goja_api \<Rightarrow> int \<Rightarrow> 'rt pool_sys" where
  "start_sys api now = \<lparr>pool = InitGojaPool api now, out = [], held = None, dropped = 0\<rparr>"

lemma prewarm_shape:
  "vms (prewarm api now n p) = vms p @ map (\<lambda>i. \<lparr>vm_id = next_id p + i, vm_rt = g_new api,
       lastUsed = zero_time, createdAt = now, usageCount = 0\<rparr>) [0..<n]
   \<and> next_id (prewarm api now n p) = next_id p + n
   \<and> capacity (prewarm api now n p) = capacity p
   \<and> p_evicted (prewarm api now n p) = p_evicted p"
proof (induction n arbitrary: p)
  case 0
  then show ?case by simp
next
  case (Suc n)
  have "[0..<Suc n] = 0 # map Suc [0..<n]" by (simp only: upt_conv_Cons map_Suc_upt zero_less_Suc)
  with Suc.IH show ?case by (simp add: createVM_def o_def del: upt_Suc)
qed

lemma pool_inv_start: "pool_inv (start_sys api now)"
  using prewarm_shape[of api now MIN_VM_POOL_SIZE
    "\<lparr>vms = [], capacity = MAX_VM_POOL_SIZE, p_created = 0, p_reused = 0, p_evicted = 0,
      p_maxSize = int MAX_VM_POOL_SIZE, p_minSize = int MIN_VM_POOL_SIZE, next_id = 0\<rparr>"]
  by (auto simp: pool_inv_def start_sys_def InitGojaPool_def all_vms_def o_def MIN_VM_POOL_SIZE_def
      MAX_VM_POOL_SIZE_def)

lemma createVM_simps [simp]:
  "vm_id (fst (createVM api now p)) = next_id p"
  "snd (createVM api now p) = p\<lparr>next_id := Suc (next_id p)\<rparr>"
  by (simp_all add: createVM_def)

lemma pool_inv_Acquire:
  assumes "pool_inv s"
  shows "pool_inv (pool_step api s (Acquire now))"
proof (cases "vms (pool s)")
  case Nil
  with assms show ?thesis
    by (auto simp: pool_inv_def all_vms_def pool_Get_def createVM_def less_Suc_eq
        split: option.splits)
next
  case (Cons vm rest)
  with assms show ?thesis
    by (auto simp: pool_inv_def all_vms_def pool_Get_def algebra_simps split: option.splits)
qed

lemma pool_Put_cases:
  obtains (evict) "pool_Put api vm p = p\<lparr>p_evicted := p_evicted p + 1\<rparr>"
  | (keep) vm' where "pool_Put api vm p = p\<lparr>vms := vms p @ [vm']\<rparr>" "vm_id vm' = vm_id vm"
      "length (vms p) < capacity p"
  by (cases "sint (usageCount vm) > 10000"; cases "length (vms p) < capacity p")
     (auto simp: pool_Put_def Let_def)

lemma pool_inv_Release:
  assumes inv: "pool_inv s" and i: "i < length (out s)"
  shows "pool_inv (pool_step api s (Release i rt))"
proof -
  obtain o1 vm o2 where o: "out s = o1 @ vm # o2" "length o1 = i"
    using id_take_nth_drop[OF i] i by (metis length_take min.absorb4)
  then have step: "pool_step api s (Release i rt)
      = s\<lparr>pool := pool_Put api (vm\<lparr>vm_rt := rt\<rparr>) (pool s), out := o1 @ o2\<rparr>"
    using o(2) [symmetric] by (simp add: nth_append)
  show ?thesis
  proof (cases rule: pool_Put_cases[of api "vm\<lparr>vm_rt := rt\<rparr>" "pool s"])
    case evict
    with inv o show ?thesis
      unfolding step by (auto simp: pool_inv_def all_vms_def algebra_simps split: option.splits)
  next
    case (keep vm')
    with inv o show ?thesis
      unfolding step
      by (auto simp: pool_inv_def all_vms_def algebra_simps split: option.splits)
  qed
qed

lemma pool_inv_CleanTake:
  assumes "pool_inv s" and "held s = None"
  shows "pool_inv (pool_step api s (CleanTake now))"
  using assms
  by (cases "vms (pool s)") (auto simp: pool_inv_def all_vms_def clean_take_def algebra_simps)

lemma pool_inv_CleanBack:
  assumes "pool_inv s"
  shows "pool_inv (pool_step api s CleanBack)"
  using assms
  by (cases "held s") (auto simp: pool_inv_def all_vms_def clean_back_def algebra_simps)

lemma pool_inv_step: "pool_inv s \<Longrightarrow> pool_event_ok s e \<Longrightarrow> pool_inv (pool_step api s e)"
  by (cases e) (auto intro: pool_inv_Acquire pool_inv_Release pool_inv_CleanTake pool_inv_CleanBack
      simp del: pool_step.simps)

interpretation vp: guarded_system "pool_step api" pool_event_ok pool_inv for api
  by unfold_locales (rule pool_inv_step)

lemma capacity_step [simp]: "capacity (pool (pool_step api s e)) = capacity (pool s)"
  by (cases e)
     (auto simp: pool_Get_def createVM_def pool_Put_def clean_take_def clean_back_def Let_def
        split: list.splits prod.splits option.splits)

lemma capacity_run [simp]: "capacity (pool (foldl (pool_step api) s es)) = capacity (pool s)"
  by (induction es arbitrary: s) auto

section \<open>Properties of the pool\<close>

text \<open>
  C3. Exclusive ownership and accounting: under any interleaving of clients that release only
  VMs they hold with the steps of the cleanup goroutine, no VM is ever queued twice, held by
  two clients, or both, so two scripts never run in one runtime at a time; at most 500 VMs are
  queued; and every VM created so far is queued, held, counted as evicted, or one of those the
  cleanup goroutine dropped.
\<close>

theorem pool_exclusive_ownership:
  assumes "vp.run_ok api (start_sys api now) es"
  defines "s \<equiv> foldl (pool_step api) (start_sys api now) es"
  shows "distinct (map vm_id (all_vms s)) \<and> length (vms (pool s)) \<le> 500
    \<and> of_nat (next_id (pool s)) = of_nat (length (all_vms s) + dropped s) + p_evicted (pool s)"
proof -
  have "capacity (pool (start_sys api now)) = 500"
    by (simp add: start_sys_def InitGojaPool_def prewarm_shape MAX_VM_POOL_SIZE_def)
  with vp.inv_run[OF pool_inv_start assms(1)] show ?thesis
    by (simp add: pool_inv_def s_def)
qed

definition trivial_goja :: "nat goja_api" where
  "trivial_goja = \<lparr>g_new = 0, g_run = (\<lambda>code rt. (Inr code, rt + length code)), g_clear = id\<rparr>"

theorem pool_exclusive_ownership_witness:
  "distinct (map vm_id (all_vms (foldl (pool_step trivial_goja) (start_sys trivial_goja 0)
     [Acquire 5, Release 0 3, Acquire 7, CleanTake 8, CleanBack])))"
proof -
  have "vp.run_ok trivial_goja (start_sys trivial_goja 0)
      [Acquire 5, Release 0 3, Acquire 7, CleanTake 8, CleanBack]"
    by (auto simp: start_sys_def split: prod.splits)
  from pool_exclusive_ownership[OF this] show ?thesis by blast
qed

lemma clean_one_stale:
  "vms p = vm # rest \<Longrightarrow> stale now vm \<Longrightarrow>
   clean_one now p = p\<lparr>vms := rest, p_evicted := p_evicted p + 1\<rparr>"
  by (simp add: clean_one_def clean_take_def)

lemma cleanup_loop_stale:
  assumes "\<forall>vm\<in>set (vms p). stale now vm"
  shows "cleanup_loop now i p =
    (let k = (Suc (length (vms p)) - i) div 2
     in p\<lparr>vms := drop k (vms p), p_evicted := p_evicted p + of_nat k\<rparr>)"
  using assms
proof (induction now i p rule: cleanup_loop.induct)
  case (1 now i p)
  show ?case
  proof (cases "i < length (vms p)")
    case True
    then obtain vm rest where v: "vms p = vm # rest" by (cases "vms p") auto
    then have c: "clean_one now p = p\<lparr>vms := rest, p_evicted := p_evicted p + 1\<rparr>"
      using "1.prems" by (intro clean_one_stale) auto
    have k: "(Suc (length (vms p)) - i) div 2 = Suc ((Suc (length rest) - Suc i) div 2)"
      using True v by (simp add: Suc_diff_le)
    have "cleanup_loop now (Suc i) (clean_one now p) =
      (let k = (Suc (length rest) - Suc i) div 2
       in p\<lparr>vms := drop k rest, p_evicted := p_evicted p + 1 + of_nat k\<rparr>)"
      using "1.IH"[OF True] "1.prems" v by (simp add: c Let_def)
    then show ?thesis
      using True k by (simp add: cleanup_loop.simps [of now i p] v Let_def algebra_simps)
  next
    case False
    then have "(Suc (length (vms p)) - i) div 2 = 0" by simp
    with False show ?thesis by (simp add: cleanup_loop.simps [of now i p] Let_def)
  qed
qed

text \<open>
  A cleanup pass over VMs that are all stale evicts only the first half of them, rounded
  up: the loop compares its growing index with the shrinking length of the channel.
\<close>

theorem cleanup_evicts_only_half:
  assumes "\<forall>vm\<in>set (vms p). stale now vm"
  shows "vms (cleanup_pass now p) = drop (Suc (length (vms p)) div 2) (vms p)
    \<and> length (vms (cleanup_pass now p)) = length (vms p) div 2
    \<and> p_evicted (cleanup_pass now p) = p_evicted p + of_nat (Suc (length (vms p)) div 2)"
  using cleanup_loop_stale[OF assms, of 0] by (simp add: cleanup_pass_def Let_def)

text \<open>A prewarmed VM has never been used, so its zero time makes it stale from the start.\<close>

lemma prewarmed_stale: "0 \<le> now \<Longrightarrow> vm \<in> set (vms (InitGojaPool api t)) \<Longrightarrow> stale now vm"
  by (auto simp: InitGojaPool_def prewarm_shape stale_def half_hour_def time_since_def zero_time_def)

theorem cleanup_evicts_only_half_witness:
  "length (vms (cleanup_pass 1700000000000000000 (InitGojaPool trivial_goja 1699999999000000000))) = 5"
proof -
  let ?p = "InitGojaPool trivial_goja 1699999999000000000"
  have st: "\<forall>vm\<in>set (vms ?p). stale 1700000000000000000 vm"
    by (intro ballI prewarmed_stale) auto
  have "length (vms ?p) = 10"
    by (simp add: InitGojaPool_def prewarm_shape MIN_VM_POOL_SIZE_def)
  with cleanup_evicts_only_half[OF st] show ?thesis by simp
qed

lemma clean_one_fresh:
  "vms p = vm # rest \<Longrightarrow> \<not> stale now vm \<Longrightarrow> length (vms p) \<le> capacity p \<Longrightarrow>
   clean_one now p = p\<lparr>vms := rest @ [vm]\<rparr>"
  by (simp add: clean_one_def clean_take_def clean_back_def)

lemma cleanup_loop_fresh:
  assumes "\<forall>vm\<in>set (vms p). \<not> stale now vm" and "length (vms p) \<le> capacity p"
    and "i \<le> length (vms p)"
  shows "cleanup_loop now i p = p\<lparr>vms := rotate (length (vms p) - i) (vms p)\<rparr>"
  using assms
proof (induction now i p rule: cleanup_loop.induct)
  case (1 now i p)
  show ?case
  proof (cases "i < length (vms p)")
    case True
    then obtain vm rest where v: "vms p = vm # rest" by (cases "vms p") auto
    then have c: "clean_one now p = p\<lparr>vms := rotate1 (vms p)\<rparr>"
      using "1.prems" clean_one_fresh[OF v] by simp
    have "cleanup_loop now (Suc i) (clean_one now p)
      = p\<lparr>vms := rotate (length (vms p) - Suc i) (rotate1 (vms p))\<rparr>"
      using "1.IH"[OF True] "1.prems" True by (simp add: c)
    moreover have "rotate (length (vms p) - Suc i) (rotate1 (vms p)) = rotate (length (vms p) - i) (vms p)"
      using True by (metis Suc_diff_Suc rotate1_rotate_swap rotate_Suc)
    ultimately show ?thesis using True by (simp add: cleanup_loop.simps [of now i p])
  next
    case False
    with "1.prems" show ?thesis by simp
  qed
qed

text \<open>
  A cleanup pass over VMs that were all used within the last half hour leaves the pool
  exactly as it was: same VMs, same order, same statistics.
\<close>

theorem cleanup_keeps_fresh:
  assumes "\<forall>vm\<in>set (vms p). \<not> stale now vm" and "length (vms p) \<le> capacity p"
  shows "cleanup_pass now p = p"
  using cleanup_loop_fresh[OF assms, of 0] by (simp add: cleanup_pass_def)

theorem cleanup_keeps_fresh_witness:
  "cleanup_pass 100 \<lparr>vms = [\<lparr>vm_id = 0, vm_rt = ''a'', lastUsed = 50, createdAt = 0, usageCount = 1\<rparr>,
       \<lparr>vm_id = 1, vm_rt = ''b'', lastUsed = 60, createdAt = 0, usageCount = 2\<rparr>],
     capacity = 500, p_created = 2, p_reused = 3, p_evicted = 0, p_maxSize = 500, p_minSize = 10,
     next_id = 2\<rparr>
   = \<lparr>vms = [\<lparr>vm_id = 0, vm_rt = ''a'', lastUsed = 50, createdAt = 0, usageCount = 1\<rparr>,
       \<lparr>vm_id = 1, vm_rt = ''b'', lastUsed = 60, createdAt = 0, usageCount = 2\<rparr>],
     capacity = 500, p_created = 2, p_reused = 3, p_evicted = 0, p_maxSize = 500, p_minSize = 10,
     next_id = 2\<rparr>"
  by (rule cleanup_keeps_fresh) (simp_all add: stale_def half_hour_def time_since_def)

text \<open>
  Scripts are not isolated from one another: with one VM queued, a second execution runs
  in the runtime state the first one left behind; only the interrupt flag is cleared between.
\<close>

theorem execute_reuses_runtime_state:
  assumes "vms p = [vm]" and "sint (usageCount vm) < 10000" and "0 < capacity p"
    and "0 \<le> sint (usageCount vm)"
  shows "fst (pool_Execute api now2 code2 (snd (pool_Execute api now1 code1 p)))
    = fst (g_run api code2 (g_clear api (snd (g_run api code1 (vm_rt vm)))))"
proof -
  have "sint (usageCount vm + 1) = sint (usageCount vm) + 1"
    using sint_word_of_int[of "sint (usageCount vm) + 1"] assms(2,4) by simp
  then show ?thesis
    using assms by (simp add: pool_Execute_def pool_Get_def pool_Put_def Let_def split: prod.splits)
qed

text \<open>A runtime that remembers what it ran.\<close>

definition recording_goja :: "string goja_api" where
  "recording_goja = \<lparr>g_new = [], g_run = (\<lambda>code rt. (Inr rt, rt @ code)), g_clear = id\<rparr>"

theorem execute_reuses_runtime_state_witness:
  "fst (pool_Execute recording_goja 2 ''x'' (snd (pool_Execute recording_goja 1 ''secret''
     \<lparr>vms = [\<lparr>vm_id = 0, vm_rt = [], lastUsed = 0, createdAt = 0, usageCount = 0\<rparr>],
      capacity = 500, p_created = 0, p_reused = 0, p_evicted = 0, p_maxSize = 500, p_minSize = 10,
      next_id = 1\<rparr>))) = Inr ''secret''"
  by (subst execute_reuses_runtime_state, simp) (simp_all add: recording_goja_def)

end
