(* ===== verification/WebSocket.thy ===== *)
theory WebSocket
  imports Prelude
begin

text \<open>
  \<^verbatim>\<open>internal/websocket/ws.go\<close>: the connection manager and the life of a connection.  The
  operations (\<open>Register\<close>, \<open>Unregister\<close>, \<open>safeSend\<close>, \<open>Broadcast\<close>, the writer's batching) are
  functions on the state; \<open>ws_step\<close> interleaves the goroutines of all connections at the
  granularity of their synchronisation: \<open>Register\<close> counts and stores in two steps, the
  deferred close sets the flag under the mutex and closes the channel outside it.
  A connection is named by a number, the identity of its \<^verbatim>\<open>*WSConnection\<close>.
\<close>

section \<open>State\<close>

text \<open>
  The phases of \<^verbatim>\<open>HandleWebSocket\<close>: not yet called, limit check passed and upgraded, counted
  inside \<open>Register\<close>, stored, serving after the welcome message, closed flag set, channel
  closed, leaving after a failed welcome, done, refused.
\<close>

datatype phase =
  Fresh | Admitted | Counted | Stored | Serving | FlagSet | ChanClosed | Leaving | Finished | Refused

type_synonym message = string

record wsConn =
  ws_phase :: phase
  send_q :: "message list"
  ws_closed :: bool
  chan_closed :: bool

record wsSys =
  conn :: "nat \<Rightarrow> wsConn"
  registered :: "nat list"
  maxConns :: int
  ws_active :: int64
  ws_total :: int64
  gm_active :: int64
  gm_dropped :: int64
  gm_received :: int64
  gm_sent :: int64
  handlers :: "nat list"
  crashed :: bool

text \<open>\<^verbatim>\<open>make(chan []byte, 256)\<close>\<close>

definition send_cap :: nat where "send_cap = 256"

definition new_conn :: wsConn where
  "new_conn = \<lparr>ws_phase = Fresh, send_q = [], ws_closed = False, chan_closed = False\<rparr>"

definition NewWSManager :: "int \<Rightarrow> wsSys" where
  "NewWSManager n = \<lparr>conn = (\<lambda>_. new_conn), registered = [], maxConns = n, ws_active = 0,
     ws_total = 0, gm_active = 0, gm_dropped = 0, gm_received = 0, gm_sent = 0, handlers = [],
     crashed = False\<rparr>"

definition upd :: "nat \<Rightarrow> (wsConn \<Rightarrow> wsConn) \<Rightarrow> wsSys \<Rightarrow> wsSys" where
  "upd i f s = s\<lparr>conn := (conn s)(i := f (conn s i))\<rparr>"

definition set_phase :: "nat \<Rightarrow> phase \<Rightarrow> wsSys \<Rightarrow> wsSys" where
  "set_phase i p = upd i (\<lambda>c. c\<lparr>ws_phase := p\<rparr>)"

section \<open>Operations\<close>

text \<open>The count that \<open>Range\<close> computes, against the limit.\<close>

definition full :: "wsSys \<Rightarrow> bool" where
  "full s \<longleftrightarrow> int (length (registered s)) \<ge> maxConns s"

definition store_conn :: "nat \<Rightarrow> wsSys \<Rightarrow> wsSys" where
  "store_conn i s = s\<lparr>registered := List.insert i (registered s), ws_active := ws_active s + 1,
     ws_total := ws_total s + 1, gm_active := gm_active s + 1\<rparr>"

definition Register :: "nat \<Rightarrow> wsSys \<Rightarrow> bool \<times> wsSys" where
  "Register i s = (if full s then (False, s) else (True, store_conn i s))"

definition Unregister :: "nat \<Rightarrow> wsSys \<Rightarrow> wsSys" where
  "Unregister i s = s\<lparr>registered := removeAll i (registered s), ws_active := ws_active s + (-1),
     gm_active := gm_active s + (-1)\<rparr>"

text \<open>
  \<^verbatim>\<open>select { case ch <- m: default: dropped++ }\<close>: sending on a closed channel panics, and the
  panic of a goroutine ends the process.
\<close>

definition try_send :: "nat \<Rightarrow> message \<Rightarrow> wsSys \<Rightarrow> wsSys" where
  "try_send i m s =
    (if chan_closed (conn s i) then s\<lparr>crashed := True\<rparr>
     else if length (send_q (conn s i)) < send_cap
     then upd i (\<lambda>c. c\<lparr>send_q := send_q c @ [m]\<rparr>) s
     else s\<lparr>gm_dropped := gm_dropped s + 1\<rparr>)"

definition safeSend :: "nat \<Rightarrow> message \<Rightarrow> wsSys \<Rightarrow> wsSys" where
  "safeSend i m s = (if ws_closed (conn s i) then s else try_send i m s)"

text \<open>
  \<open>Broadcast\<close> visits every registered connection, without its mutex; a panic ends it.
\<close>

fun broadcast_to :: "nat list \<Rightarrow> message \<Rightarrow> wsSys \<Rightarrow> wsSys" where
  "broadcast_to [] m s = s"
| "broadcast_to (i # is) m s =
     (let s' = try_send i m s in if crashed s' then s' else broadcast_to is m s')"

definition Broadcast :: "message \<Rightarrow> wsSys \<Rightarrow> wsSys" where
  "Broadcast m s = broadcast_to (registered s) m s"

text \<open>\<open>GetStats\<close>: active, total, max, current.\<close>

definition ws_GetStats :: "wsSys \<Rightarrow> int64 \<times> int64 \<times> int \<times> nat" where
  "ws_GetStats s = (ws_active s, ws_total s, maxConns s, length (registered s))"

text \<open>
  \<open>handleMessage\<close> on a received text; \<open>execute\<close> is \<^verbatim>\<open>GlobalGojaPool.Execute\<close>.  The
  reply is sent by \<open>safeSend\<close>.
\<close>

definition MAX_WEBSOCKET_MESSAGE :: nat where "MAX_WEBSOCKET_MESSAGE = 5 * 1024 * 1024"

definition handler_reply :: "(string \<Rightarrow> string + string) \<Rightarrow> string \<Rightarrow> message" where
  "handler_reply execute code =
    (if length code > MAX_WEBSOCKET_MESSAGE then ''Error: Code too long''
     else case execute code of Inl e \<Rightarrow> ''Error: '' @ e | Inr output \<Rightarrow> output)"

definition handleMessage :: "(string \<Rightarrow> string + string) \<Rightarrow> nat \<Rightarrow> string \<Rightarrow> wsSys \<Rightarrow> wsSys" where
  "handleMessage execute i code s = safeSend i (handler_reply execute code) s"

text \<open>
  One turn of \<open>wsWriter\<close> on a nonempty queue: the first message and up to ten of those queued
  behind it, each after a newline, go into one frame.  The result is the frame and what is
  left; the writer is the only receiver.
\<close>

fun writer_batch :: "nat \<Rightarrow> message list \<Rightarrow> message \<times> message list" where
  "writer_batch 0 q = ([], q)"
| "writer_batch (Suc n) [] = (let (f, r) = writer_batch n [] in (CHR 0x0A # f, r))"
| "writer_batch (Suc n) (m # q) = (let (f, r) = writer_batch n q in (CHR 0x0A # m @ f, r))"

definition writer_turn :: "message list \<Rightarrow> (message \<times> message list) option" where
  "writer_turn q =
    (case q of
       [] \<Rightarrow> None
     | m # rest \<Rightarrow>
         (let n = length rest; (f, r) = writer_batch (min n 10) rest in Some (m @ f, r)))"

section \<open>The interleaving of goroutines\<close>

inductive ws_step :: "wsSys \<Rightarrow> wsSys \<Rightarrow> bool" where
  admit: "ws_phase (conn s i) = Fresh \<Longrightarrow> \<not> full s \<Longrightarrow> ws_step s (set_phase i Admitted s)"
| refuse: "ws_phase (conn s i) = Fresh \<Longrightarrow> full s \<Longrightarrow> ws_step s (set_phase i Refused s)"
| upgrade_failed: "ws_phase (conn s i) = Admitted \<Longrightarrow> ws_step s (set_phase i Finished s)"
| register_count: "ws_phase (conn s i) = Admitted \<Longrightarrow> \<not> full s \<Longrightarrow> ws_step s (set_phase i Counted s)"
| register_refuse: "ws_phase (conn s i) = Admitted \<Longrightarrow> full s \<Longrightarrow> ws_step s (set_phase i Refused s)"
| register_store: "ws_phase (conn s i) = Counted \<Longrightarrow> ws_step s (set_phase i Stored (store_conn i s))"
| welcomed: "ws_phase (conn s i) = Stored \<Longrightarrow> ws_step s (set_phase i Serving s)"
| welcome_failed: "ws_phase (conn s i) = Stored \<Longrightarrow> ws_step s (set_phase i Leaving s)"
| receive: "ws_phase (conn s i) = Serving \<Longrightarrow>
    ws_step s (s\<lparr>gm_received := gm_received s + 1, handlers := i # handlers s\<rparr>)"
| reply: "i \<in> set (handlers s) \<Longrightarrow>
    ws_step s (safeSend i m (s\<lparr>handlers := remove1 i (handlers s)\<rparr>))"
| written: "writer_turn (send_q (conn s i)) = Some (f, q) \<Longrightarrow>
    ws_step s ((upd i (\<lambda>c. c\<lparr>send_q := q\<rparr>) s)\<lparr>gm_sent := gm_sent s + 1\<rparr>)"
| close_flag: "ws_phase (conn s i) = Serving \<Longrightarrow>
    ws_step s (upd i (\<lambda>c. c\<lparr>ws_closed := True, ws_phase := FlagSet\<rparr>) s)"
| close_chan: "ws_phase (conn s i) = FlagSet \<Longrightarrow>
    ws_step s (upd i (\<lambda>c. c\<lparr>chan_closed := True, ws_phase := ChanClosed\<rparr>) s)"
| unregister: "ws_phase (conn s i) = ChanClosed \<or> ws_phase (conn s i) = Leaving \<Longrightarrow>
    ws_step s (set_phase i Finished (Unregister i s))"

text \<open>The states that a manager for \<open>n\<close> connections can reach without a broadcast.\<close>

inductive ws_reachable :: "int \<Rightarrow> wsSys \<Rightarrow> bool" where
  initial: "ws_reachable n (NewWSManager n)"
| step: "ws_reachable n s \<Longrightarrow> ws_step s t \<Longrightarrow> ws_reachable n t"

definition in_table :: "phase \<Rightarrow> bool" where
  "in_table p \<longleftrightarrow> p \<in> {Stored, Serving, FlagSet, ChanClosed, Leaving}"

text \<open>The local invariant of a connection, whatever the others do.\<close>

definition conn_ok :: "wsConn \<Rightarrow> bool" where
  "conn_ok c \<longleftrightarrow>
     (chan_closed c \<longrightarrow> ws_closed c \<and> ws_phase c \<in> {ChanClosed, Finished})
     \<and> (ws_phase c = FlagSet \<longrightarrow> ws_closed c) \<and> (ws_phase c = ChanClosed \<longrightarrow> chan_closed c)
     \<and> length (send_q c) \<le> send_cap"

definition ws_inv :: "wsSys \<Rightarrow> bool" where
  "ws_inv s \<longleftrightarrow>
     \<not> crashed s \<and> distinct (registered s)
     \<and> (\<forall>i. i \<in> set (registered s) \<longleftrightarrow> in_table (ws_phase (conn s i)))
     \<and> (\<forall>i. conn_ok (conn s i))
     \<and> ws_active s = of_nat (length (registered s)) \<and> gm_active s = ws_active s"

lemma ws_inv_initial: "ws_inv (NewWSManager n)"
  by (simp add: ws_inv_def NewWSManager_def new_conn_def in_table_def conn_ok_def)

lemma ws_inv_upd:
  assumes "ws_inv s" and "conn_ok (f (conn s i))"
    and "in_table (ws_phase (f (conn s i))) \<longleftrightarrow> in_table (ws_phase (conn s i))"
  shows "ws_inv (upd i f s)"
  using assms by (simp add: ws_inv_def upd_def)

lemma conn_okD: "ws_inv s \<Longrightarrow> conn_ok (conn s i)"
  by (simp add: ws_inv_def)

lemma writer_batch_shrinks: "length (snd (writer_batch n q)) \<le> length q"
  by (induction n q rule: writer_batch.induct) (auto split: prod.splits)

lemma writer_turn_shrinks: "writer_turn q = Some (f, r) \<Longrightarrow> length r < length q"
  using writer_batch_shrinks[of "min (length (tl q)) 10" "tl q"]
  by (auto simp: writer_turn_def Let_def split: list.splits prod.splits)

lemma length_removeAll_distinct:
  "distinct xs \<Longrightarrow> i \<in> set xs \<Longrightarrow> Suc (length (removeAll i xs)) = length xs"
  by (metis One_nat_def Suc_pred distinct_remove1_removeAll length_pos_if_in_set length_remove1)

lemma safeSend_inv: "ws_inv s \<Longrightarrow> ws_inv (safeSend i m s)"
  using conn_okD[of s i]
  by (auto simp: safeSend_def try_send_def conn_ok_def intro!: ws_inv_upd) (simp add: ws_inv_def)

lemma ws_inv_ghost:
  "ws_inv s \<Longrightarrow> ws_inv (s\<lparr>gm_sent := a\<rparr>)"
  "ws_inv s \<Longrightarrow> ws_inv (s\<lparr>gm_received := b, handlers := h\<rparr>)"
  "ws_inv s \<Longrightarrow> ws_inv (s\<lparr>handlers := h\<rparr>)"
  by (simp_all add: ws_inv_def)

lemma store_inv:
  assumes "ws_inv s" and "ws_phase (conn s i) = Counted"
  shows "ws_inv (set_phase i Stored (store_conn i s))"
proof -
  have "i \<notin> set (registered s)" using assms by (simp add: ws_inv_def in_table_def)
  with assms conn_okD[OF assms(1), of i] show ?thesis
    by (simp add: ws_inv_def set_phase_def upd_def store_conn_def conn_ok_def in_table_def
        add.commute)
qed

lemma unregister_inv:
  assumes "ws_inv s" and "ws_phase (conn s i) = ChanClosed \<or> ws_phase (conn s i) = Leaving"
  shows "ws_inv (set_phase i Finished (Unregister i s))"
proof -
  have i: "i \<in> set (registered s)" using assms by (auto simp: ws_inv_def in_table_def)
  with assms have "length (registered s) = Suc (length (removeAll i (registered s)))"
    by (simp add: ws_inv_def length_removeAll_distinct)
  with assms conn_okD[OF assms(1), of i] show ?thesis
    by (auto simp: ws_inv_def set_phase_def upd_def Unregister_def conn_ok_def in_table_def
        distinct_removeAll)
qed

lemma ws_step_inv: "ws_step s t \<Longrightarrow> ws_inv s \<Longrightarrow> ws_inv t"
proof (induction rule: ws_step.induct)
  case (register_store s i)
  then show ?case by (rule store_inv[rotated])
next
  case (reply i s m)
  then show ?case by (intro safeSend_inv ws_inv_ghost)
next
  case (receive s i)
  then show ?case by (intro ws_inv_ghost)
next
  case (written s i f q)
  from written.hyps have "length q < length (send_q (conn s i))" by (rule writer_turn_shrinks)
  with conn_okD[OF written.prems, of i] show ?case
    using written by (intro ws_inv_ghost ws_inv_upd) (auto simp: conn_ok_def)
next
  case (unregister s i)
  then show ?case by (rule unregister_inv[rotated])
qed ((simp only: set_phase_def)?; rule ws_inv_upd;
     use conn_okD in \<open>fastforce simp: conn_ok_def in_table_def\<close>)+

inductive_cases ws_stepE: "ws_step s t"

inductive_cases reachableE: "ws_reachable n s"

lemma reachable_inv: "ws_reachable n s \<Longrightarrow> ws_inv s"
  by (induction rule: ws_reachable.induct) (auto intro: ws_inv_initial ws_step_inv)

section \<open>What the connection manager guarantees, and what it does not\<close>


lemma reachable_steps:
  assumes "ws_reachable n s" and "ws_step s t" and "ws_step t u"
  shows "ws_reachable n u"
  using assms by (blast intro: ws_reachable.step)

lemma ws_frame [simp]:
  "conn (upd i f s) = (conn s)(i := f (conn s i))" "registered (upd i f s) = registered s"
  "maxConns (upd i f s) = maxConns s" "crashed (upd i f s) = crashed s"
  "conn (store_conn i s) = conn s" "maxConns (store_conn i s) = maxConns s"
  "conn (NewWSManager n) i = new_conn" "registered (NewWSManager n) = []"
  "maxConns (NewWSManager n) = n" "ws_phase new_conn = Fresh"
  by (simp_all add: upd_def store_conn_def NewWSManager_def new_conn_def)

text \<open>Any number of connections can pass both limit checks while the table is empty.\<close>

lemma all_counted:
  assumes "0 < n"
  shows "\<exists>s. ws_reachable n s \<and> registered s = [] \<and> maxConns s = n
    \<and> (\<forall>i. ws_phase (conn s i) = (if i < k then Counted else Fresh))"
proof (induction k)
  case 0
  have "ws_reachable n (NewWSManager n)" by (rule ws_reachable.initial)
  then show ?case by (intro exI[of _ "NewWSManager n"]) simp
next
  case (Suc k)
  then obtain s where s: "ws_reachable n s" "registered s = []" "maxConns s = n"
    and ph: "\<And>i. ws_phase (conn s i) = (if i < k then Counted else Fresh)" by blast
  let ?t = "set_phase k Admitted s"
  have "ws_step s ?t" using s ph assms by (intro ws_step.admit) (simp_all add: full_def)
  moreover have "ws_step ?t (set_phase k Counted ?t)"
    using s assms by (intro ws_step.register_count) (simp_all add: full_def set_phase_def)
  ultimately have "ws_reachable n (set_phase k Counted ?t)" by (rule reachable_steps[OF s(1)])
  with s ph show ?case
    by (intro exI[of _ "set_phase k Counted ?t"]) (simp add: set_phase_def)
qed

lemma all_stored:
  assumes "0 < n" and "j \<le> k"
  shows "\<exists>s. ws_reachable n s \<and> length (registered s) = j \<and> maxConns s = n
    \<and> (\<forall>i. ws_phase (conn s i) = (if i < j then Stored else if i < k then Counted else Fresh))"
  using assms(2)
proof (induction j)
  case 0
  obtain s where "ws_reachable n s" "registered s = []" "maxConns s = n"
    "\<And>i. ws_phase (conn s i) = (if i < k then Counted else Fresh)"
    using all_counted[OF assms(1), of k] by blast
  then show ?case by (intro exI[of _ s]) simp
next
  case (Suc j)
  then obtain s where s: "ws_reachable n s" "length (registered s) = j" "maxConns s = n"
    and ph: "\<And>i. ws_phase (conn s i) = (if i < j then Stored else if i < k then Counted else Fresh)"
    by auto
  let ?t = "set_phase j Stored (store_conn j s)"
  have "j \<notin> set (registered s)"
    using reachable_inv[OF s(1)] ph[of j] Suc.prems by (simp add: ws_inv_def in_table_def)
  then have len: "length (registered ?t) = Suc j"
    using s(2) by (simp add: set_phase_def store_conn_def)
  have "ws_step s ?t" using ph Suc.prems by (intro ws_step.register_store) simp
  with s(1) have "ws_reachable n ?t" by (rule ws_reachable.step)
  with s ph len Suc.prems show ?case
    by (intro exI[of _ ?t]) (auto simp: set_phase_def)
qed

text \<open>
  C22. The connection limit is checked and acted on in separate steps, so it bounds nothing:
  for a manager that allows at least one connection, states with any number of registered
  connections are reachable.
\<close>

theorem ws_limit_can_be_exceeded:
  assumes "0 < n"
  shows "\<exists>s. ws_reachable n s \<and> maxConns s = n \<and> length (registered s) = k"
  using all_stored[OF assms, of k k] by blast

text \<open>
  Called one after the other, the operations of the manager do keep the limit.
\<close>

datatype ws_call = CallRegister nat | CallUnregister nat | CallSend nat message

fun ws_call_step :: "wsSys \<Rightarrow> ws_call \<Rightarrow> wsSys" where
  "ws_call_step s (CallRegister i) = snd (Register i s)"
| "ws_call_step s (CallUnregister i) = Unregister i s"
| "ws_call_step s (CallSend i m) = safeSend i m s"

definition within_limit :: "int \<Rightarrow> wsSys \<Rightarrow> bool" where
  "within_limit n s \<longleftrightarrow> maxConns s = n \<and> int (length (registered s)) \<le> max 0 n"

lemma length_insert_le: "length (List.insert x xs) \<le> Suc (length xs)"
  by (simp add: List.insert_def)

lemma within_limit_step: "within_limit n s \<Longrightarrow> within_limit n (ws_call_step s c)"
proof (cases c)
  case (CallRegister i)
  then show "within_limit n s \<Longrightarrow> ?thesis"
    using length_insert_le[of i "registered s"]
    by (auto simp: within_limit_def Register_def store_conn_def full_def)
next
  case (CallUnregister i)
  then show "within_limit n s \<Longrightarrow> ?thesis"
    by (auto simp: within_limit_def Unregister_def intro: le_trans_int length_removeAll_less_eq)
next
  case (CallSend i m)
  then show "within_limit n s \<Longrightarrow> ?thesis"
    by (auto simp: within_limit_def safeSend_def try_send_def)
qed

interpretation wm: guarded_system ws_call_step "\<lambda>_ _. True" "within_limit n" for n
  by unfold_locales (rule within_limit_step)

text \<open>
  A sequence of calls of the manager, each finished before the next begins, never holds
  more than the configured number of connections.
\<close>

theorem ws_sequential_limit:
  "int (length (registered (foldl ws_call_step (NewWSManager n) cs))) \<le> max 0 n"
  using wm.inv_run_always[of n "NewWSManager n" cs] by (simp add: within_limit_def)

lemma broadcast_to_crashes:
  "i \<in> set is \<Longrightarrow> chan_closed (conn s i) \<Longrightarrow> crashed (broadcast_to is m s)"
proof (induction "is" arbitrary: s)
  case Nil
  then show ?case by simp
next
  case (Cons a "is")
  have "chan_closed (conn (try_send a m s) i)"
    using Cons.prems by (auto simp: try_send_def)
  then show ?case
    using Cons.IH[of "try_send a m s"] Cons.prems by (auto simp: Let_def try_send_def)
qed

text \<open>
  C21. A connection that is being closed has its channel closed before it is unregistered
  (deferred calls run last-in first-out); a \<open>Broadcast\<close> in between sends on the closed
  channel and brings the process down.
\<close>

theorem broadcast_while_closing_crashes:
  assumes "ws_reachable n s" and "ws_phase (conn s i) = ChanClosed"
  shows "crashed (Broadcast m s)"
  unfolding Broadcast_def using reachable_inv[OF assms(1)] assms(2)
  by (intro broadcast_to_crashes[where i = i]) (auto simp: ws_inv_def in_table_def conn_ok_def)

lemma serving_reachable:
  assumes "0 < n"
  shows "\<exists>s. ws_reachable n s \<and> ws_phase (conn s 0) = ChanClosed"
proof -
  obtain s where s: "ws_reachable n s" "ws_phase (conn s 0) = Stored"
    using all_stored[OF assms, of 1 1] by force
  let ?a = "set_phase 0 Serving s"
  let ?b = "upd 0 (\<lambda>c. c\<lparr>ws_closed := True, ws_phase := FlagSet\<rparr>) ?a"
  let ?c = "upd 0 (\<lambda>c. c\<lparr>chan_closed := True, ws_phase := ChanClosed\<rparr>) ?b"
  have "ws_step s ?a" using s(2) by (rule ws_step.welcomed)
  then have a: "ws_reachable n ?a" by (rule ws_reachable.step[OF s(1)])
  have "ws_step ?a ?b" by (rule ws_step.close_flag) (simp add: set_phase_def)
  moreover have "ws_step ?b ?c" by (rule ws_step.close_chan) simp
  ultimately have "ws_reachable n ?c" by (rule reachable_steps[OF a])
  then show ?thesis by (intro exI[of _ ?c]) simp
qed

text \<open>
  While no connection is closing, a broadcast crashes nothing and appends the message to
  the queue of every registered connection that has room, and to no other queue.
\<close>

theorem broadcast_delivers:
  assumes "ws_reachable n s" and "\<And>j. j \<in> set (registered s) \<Longrightarrow> ws_phase (conn s j) \<noteq> ChanClosed"
  shows "\<not> crashed (Broadcast m s)
    \<and> send_q (conn (Broadcast m s) i)
        = (if i \<in> set (registered s) \<and> length (send_q (conn s i)) < 256
           then send_q (conn s i) @ [m] else send_q (conn s i))"
proof -
  have go: "distinct js \<Longrightarrow> \<not> crashed t \<Longrightarrow> (\<And>j. j \<in> set js \<Longrightarrow> \<not> chan_closed (conn t j)) \<Longrightarrow>
    \<not> crashed (broadcast_to js m t) \<and> send_q (conn (broadcast_to js m t) i)
        = (if i \<in> set js \<and> length (send_q (conn t i)) < 256
           then send_q (conn t i) @ [m] else send_q (conn t i))" for js t
  proof (induction js arbitrary: t)
    case (Cons a js)
    have "\<not> crashed (try_send a m t)" "\<And>j. j \<in> set js \<Longrightarrow> \<not> chan_closed (conn (try_send a m t) j)"
      using Cons.prems by (auto simp: try_send_def)
    moreover have "send_q (conn (try_send a m t) i) = (if i = a \<and> length (send_q (conn t i)) < 256
           then send_q (conn t i) @ [m] else send_q (conn t i))"
      using Cons.prems by (auto simp: try_send_def send_cap_def)
    ultimately show ?case using Cons.IH[of "try_send a m t"] Cons.prems by (auto simp: Let_def)
  qed simp
  show ?thesis unfolding Broadcast_def
    using reachable_inv[OF assms(1)] assms(2)
    by (intro go) (auto simp: ws_inv_def conn_ok_def in_table_def)
qed

section \<open>The writer\<close>

lemma writer_batch_take:
  "k \<le> length q \<Longrightarrow> writer_batch k q = (concat (map ((#) (CHR 0x0A)) (take k q)), drop k q)"
  by (induction k q rule: writer_batch.induct) auto

text \<open>
  A turn of the writer takes the first message and at most ten more off the queue, in
  order and losing none: the frame is those messages joined by newlines.
\<close>

theorem writer_turn_joins:
  "writer_turn (m # q)
     = Some (m @ concat (map ((#) (CHR 0x0A)) (take 10 q)), drop 10 q)"
  using writer_batch_take[of "min (length q) 10" q]
  by (simp add: writer_turn_def Let_def min_def)

text \<open>
  A handler answers every message, and its answer is the last one queued unless the
  connection has been closed or the queue is full, in which case the answer is dropped (and
  counted in the second case only).
\<close>

theorem handleMessage_outcome:
  assumes "ws_reachable n s"
  shows "send_q (conn (handleMessage execute i code s) i) =
      (if ws_closed (conn s i) \<or> length (send_q (conn s i)) \<ge> 256 then send_q (conn s i)
       else send_q (conn s i) @ [handler_reply execute code])
    \<and> gm_dropped (handleMessage execute i code s) =
      (if \<not> ws_closed (conn s i) \<and> length (send_q (conn s i)) \<ge> 256 then gm_dropped s + 1
       else gm_dropped s)"
  using conn_okD[OF reachable_inv[OF assms], of i]
  by (auto simp: handleMessage_def safeSend_def try_send_def conn_ok_def send_cap_def upd_def)

section \<open>Witnesses\<close>


lemma ws_limit_can_be_exceeded_witness:
  "\<exists>s. ws_reachable 10 s \<and> maxConns s = 10 \<and> length (registered s) = 25"
  by (rule ws_limit_can_be_exceeded) simp

lemma broadcast_while_closing_crashes_witness: "\<exists>s. ws_reachable 1 s \<and> crashed (Broadcast ''x'' s)"
proof -
  obtain s where "ws_reachable 1 s" "ws_phase (conn s 0) = ChanClosed"
    using serving_reachable[of 1] by auto
  with broadcast_while_closing_crashes[of 1 s 0 "''x''"] show ?thesis by blast
qed

lemma broadcast_delivers_witness: "\<not> crashed (Broadcast ''x'' (NewWSManager 1))"
  using broadcast_delivers[OF ws_reachable.initial[of 1], of "''x''" 0] by simp

lemma handleMessage_outcome_witness:
  "send_q (conn (handleMessage (\<lambda>c. Inr c) 0 ''1'' (NewWSManager 1)) 0) = [''1'']"
  using handleMessage_outcome[OF ws_reachable.initial[of 1], of "\<lambda>c. Inr c" 0 "''1''"]
  by (simp add: new_conn_def handler_reply_def MAX_WEBSOCKET_MESSAGE_def)

end
