(* ===== verification/WsWriter.thy ===== *)
theory WsWriter
  imports WebSocket GoStrings
begin

text \<open>
  The goroutine \<open>wsWriter\<close> of \<^verbatim>\<open>internal/websocket/ws.go\<close>: it wakes for a message (or for the
  closed channel) or for its ping ticker, and every write to the socket may fail.  \<open>ok i\<close> says
  whether the \<open>i\<close>th write succeeds, \<open>closed\<close> whether the channel is closed; the list of wakes
  is the order in which \<^verbatim>\<open>select\<close> picks its cases.  The lemmas say that a closed channel is
  drained, in order, and that the goroutine then returns.
\<close>

section \<open>The goroutine\<close>

datatype frame = TextFrame message | CloseFrame | PingFrame

datatype wake = WakeSend | WakeTick

record wsWriter =
  wr_queue :: "message list"
  wr_frames :: "frame list"
  wr_sent :: int64
  wr_writes :: nat
  wr_done :: bool

text \<open>
  A write to the socket: the frame goes out when it succeeds, otherwise the goroutine returns.
  A text frame takes two: \<^verbatim>\<open>NextWriter\<close> when the first message has been received, and
  \<^verbatim>\<open>w.Close\<close> when the others have; what was received for a frame that fails is lost.
\<close>

definition emit :: "(nat \<Rightarrow> bool) \<Rightarrow> frame \<Rightarrow> wsWriter \<Rightarrow> wsWriter" where
  "emit ok f w =
    (if ok (wr_writes w) then w\<lparr>wr_frames := wr_frames w @ [f], wr_writes := Suc (wr_writes w)\<rparr>
     else w\<lparr>wr_writes := Suc (wr_writes w), wr_done := True\<rparr>)"

definition on_send :: "bool \<Rightarrow> (nat \<Rightarrow> bool) \<Rightarrow> wsWriter \<Rightarrow> wsWriter" where
  "on_send closed ok w =
    (case wr_queue w of
       [] \<Rightarrow> if closed then (emit ok CloseFrame w)\<lparr>wr_done := True\<rparr> else w
     | m # q \<Rightarrow>
         if \<not> ok (wr_writes w)
         then w\<lparr>wr_queue := q, wr_writes := Suc (wr_writes w), wr_done := True\<rparr>
         else (case writer_turn (m # q) of
                 None \<Rightarrow> w
               | Some (text, rest) \<Rightarrow>
                   (let w' = emit ok (TextFrame text)
                          (w\<lparr>wr_queue := rest, wr_writes := Suc (wr_writes w)\<rparr>)
                    in if wr_done w' then w' else w'\<lparr>wr_sent := wr_sent w' + 1\<rparr>)))"

definition on_tick :: "(nat \<Rightarrow> bool) \<Rightarrow> wsWriter \<Rightarrow> wsWriter" where
  "on_tick ok w = emit ok PingFrame w"

fun writer_loop :: "bool \<Rightarrow> (nat \<Rightarrow> bool) \<Rightarrow> wake list \<Rightarrow> wsWriter \<Rightarrow> wsWriter" where
  "writer_loop closed ok [] w = w"
| "writer_loop closed ok (k # ks) w =
    (if wr_done w then w
     else writer_loop closed ok ks
       (case k of WakeSend \<Rightarrow> on_send closed ok w | WakeTick \<Rightarrow> on_tick ok w))"

section \<open>Draining\<close>

fun texts :: "frame list \<Rightarrow> message list" where
  "texts [] = []"
| "texts (TextFrame m # fs) = m # texts fs"
| "texts (f # fs) = texts fs"

text \<open>The frames a queue of \<open>n\<close> messages makes: eleven messages each, but the last.\<close>

definition turns :: "nat \<Rightarrow> nat" where
  "turns n = (n + 10) div 11"

abbreviation newline :: string where "newline \<equiv> [CHR 0x0A]"

lemma writer_loop_done [simp]: "wr_done w \<Longrightarrow> writer_loop closed ok ks w = w"
  by (cases ks) simp_all

lemma Join_append:
  "xs \<noteq> [] \<Longrightarrow> ys \<noteq> [] \<Longrightarrow> Join s (xs @ ys) = Join s xs @ s @ Join s ys"
proof (induction xs)
  case (Cons x xs)
  then show ?case by (cases xs; cases ys) (simp_all add: Join_Cons)
qed simp

lemma frame_text: "m @ concat (map ((#) (CHR 0x0A)) q) = Join newline (m # q)"
  by (induction q arbitrary: m) (simp_all add: Join_Cons)

text \<open>\<open>drained w fs w'\<close>: from \<open>w\<close> the writer sent the frames \<open>fs\<close>, all of its queue, and returned.\<close>

definition drained :: "wsWriter \<Rightarrow> frame list \<Rightarrow> wsWriter \<Rightarrow> bool" where
  "drained w fs w' \<longleftrightarrow>
     wr_frames w' = wr_frames w @ fs \<and> wr_done w' \<and> wr_queue w' = []
     \<and> last fs = CloseFrame \<and> count_list fs CloseFrame = 1
     \<and> length (texts fs) = turns (length (wr_queue w))
     \<and> Join newline (texts fs) = Join newline (wr_queue w)
     \<and> wr_sent w' = wr_sent w + of_nat (turns (length (wr_queue w)))"

abbreviation always :: "nat \<Rightarrow> bool" where "always \<equiv> \<lambda>_. True"

lemma drained_nonempty: "drained w fs w' \<Longrightarrow> fs \<noteq> []"
  by (auto simp: drained_def)

lemma drained_tick:
  assumes "drained (on_tick always w) fs w'"
  shows "drained w (PingFrame # fs) w'"
  using assms drained_nonempty[OF assms] by (simp add: drained_def on_tick_def emit_def)

lemma drained_close: "wr_queue w = [] \<Longrightarrow> drained w [CloseFrame] (on_send True always w)"
  by (simp add: drained_def on_send_def emit_def turns_def)

lemma on_send_text:
  assumes "\<not> wr_done w" and "wr_queue w = m # q"
  shows "on_send closed always w = w\<lparr>wr_queue := drop 10 q, wr_sent := wr_sent w + 1,
    wr_frames := wr_frames w @ [TextFrame (Join newline (m # take 10 q))], wr_writes := wr_writes w + 2\<rparr>"
  using assms by (simp add: on_send_def writer_turn_joins emit_def frame_text)

lemma turns_Suc: "turns (Suc n) = Suc (turns (n - 10))"
proof (cases "n < 10")
  case False
  then obtain k where n: "n = k + 10" by (metis add.commute le_Suc_ex not_less)
  have "(k + 10 + 11) div 11 = Suc ((k + 10) div 11)" by simp
  then show ?thesis by (simp add: turns_def n add.commute)
qed (simp add: turns_def)

lemma turns_zero: "turns n = 0 \<longleftrightarrow> n = 0"
  by (auto simp: turns_def)

lemma drained_send:
  assumes "\<not> wr_done w" and q: "wr_queue w = m # q" and d: "drained (on_send True always w) fs w'"
  shows "drained w (TextFrame (Join newline (m # take 10 q)) # fs) w'"
proof -
  let ?rest = "drop 10 q"
  have fs: "length (texts fs) = turns (length ?rest)" "Join newline (texts fs) = Join newline ?rest"
    using d by (simp_all add: drained_def on_send_text[OF assms(1,2)])
  have "Join newline (Join newline (m # take 10 q) # texts fs) = Join newline (m # q)"
  proof (cases "?rest = []")
    case True
    with fs have "texts fs = []" by (simp add: turns_def)
    with True show ?thesis by simp
  next
    case False
    with fs have "texts fs \<noteq> []" using turns_zero[of "length ?rest"] by auto
    then have "Join newline (Join newline (m # take 10 q) # texts fs)
        = Join newline (m # take 10 q) @ newline @ Join newline ?rest"
      by (simp add: Join_Cons fs)
    also have "\<dots> = Join newline ((m # take 10 q) @ ?rest)"
      using False by (subst Join_append) simp_all
    finally show ?thesis by simp
  qed
  then show ?thesis
    using d drained_nonempty[OF d] fs(1)
    by (simp add: drained_def on_send_text[OF assms(1,2)] q turns_Suc)
qed

lemma writer_loop_drains:
  assumes "\<not> wr_done w" and "turns (length (wr_queue w)) < count_list ks WakeSend"
  shows "\<exists>fs. drained w fs (writer_loop True always ks w)"
  using assms
proof (induction ks arbitrary: w)
  case (Cons k ks)
  consider (tick) "k = WakeTick" | (close) "k = WakeSend" "wr_queue w = []"
    | (send) m q where "k = WakeSend" "wr_queue w = m # q"
    by (metis list.exhaust wake.exhaust)
  then show ?case
  proof cases
    case tick
    have "\<not> wr_done (on_tick always w)" "wr_queue (on_tick always w) = wr_queue w"
      using Cons.prems(1) by (simp_all add: on_tick_def emit_def)
    then show ?thesis using Cons.IH[of "on_tick always w"] Cons.prems tick drained_tick by auto
  next
    case close
    have "wr_done (on_send True always w)"
      using drained_close[OF close(2)] by (simp add: drained_def)
    then show ?thesis using drained_close[OF close(2)] Cons.prems close by auto
  next
    case send
    note w = on_send_text[OF Cons.prems(1) send(2)]
    have "\<not> wr_done (on_send True always w)" "turns (length (wr_queue (on_send True always w))) < count_list ks WakeSend"
      using Cons.prems send by (simp_all add: w turns_Suc)
    then obtain fs where "drained (on_send True always w) fs (writer_loop True always ks (on_send True always w))"
      using Cons.IH by blast
    from drained_send[OF Cons.prems(1) send(2) this] show ?thesis
      using Cons.prems(1) send(1) by auto
  qed
qed simp

section \<open>Properties\<close>


text \<open>
  When the frame cannot be finished, the messages taken for it are lost, not counted as sent,
  and the writer has returned: what is queued later is never sent.
\<close>

lemma failed_write_loses_messages:
  assumes "\<not> wr_done w" and "wr_queue w = m # q"
    and "ok (wr_writes w)" and "\<not> ok (Suc (wr_writes w))"
  shows "writer_loop closed ok (WakeSend # ks) w
    = w\<lparr>wr_queue := drop 10 q, wr_writes := wr_writes w + 2, wr_done := True\<rparr>"
  using assms by (simp add: on_send_def writer_turn_joins emit_def)

definition demo_writer :: wsWriter where
  "demo_writer = \<lparr>wr_queue = replicate 12 ''m'', wr_frames = [], wr_sent = 0, wr_writes = 0, wr_done = False\<rparr>"


end
