(* ===== verification/GoPath.thy ===== *)
theory GoPath
  imports GoStrings
begin

text \<open>
  The part of Go's \<^verbatim>\<open>path/filepath\<close> the program uses, for Unix paths: \<open>Clean\<close>, \<open>PathJoin\<close>,
  \<open>Rel\<close>, \<open>Ext\<close> and \<open>Base\<close>, on the components of a path.  The lemmas say what
  \<open>PathJoin\<close> and \<open>Rel\<close> give below an absolute, clean root.
\<close>

abbreviation slash :: char where "slash \<equiv> CHR ''/''"

abbreviation rooted :: "string \<Rightarrow> bool" where
  "rooted s \<equiv> HasPrefix s ''/''"

section \<open>Cleaning\<close>

definition path_comps :: "string \<Rightarrow> string list" where
  "path_comps s = filter (\<lambda>c. c \<noteq> [] \<and> c \<noteq> ''.'') (Split slash s)"

text \<open>\<open>..\<close> removes the component before it; the stack is the output, last component first.\<close>

fun resolve :: "bool \<Rightarrow> string list \<Rightarrow> string list \<Rightarrow> string list" where
  "resolve root acc [] = rev acc"
| "resolve root acc (c # cs) =
     (if c \<noteq> ''..'' then resolve root (c # acc) cs
      else case acc of
             [] \<Rightarrow> resolve root (if root then [] else [''..'']) cs
           | a # as \<Rightarrow> if a = ''..'' then resolve root (''..'' # acc) cs else resolve root as cs)"

definition render :: "bool \<Rightarrow> string list \<Rightarrow> string" where
  "render root cs = (if root then ''/'' @ Join ''/'' cs else if cs = [] then ''.'' else Join ''/'' cs)"

definition Clean :: "string \<Rightarrow> string" where
  "Clean s = render (rooted s) (resolve (rooted s) [] (path_comps s))"

definition comp_ok :: "string \<Rightarrow> bool" where
  "comp_ok c \<longleftrightarrow> c \<noteq> [] \<and> c \<noteq> ''.'' \<and> slash \<notin> set c"

lemma path_comps_ok: "c \<in> set (path_comps s) \<Longrightarrow> comp_ok c"
  by (auto simp: path_comps_def comp_ok_def dest: Split_piece)

lemma path_comps_append: "path_comps (a @ ''/'' @ b) = path_comps a @ path_comps b"
  by (simp add: path_comps_def Split_append_sep)

lemma path_comps_Join: "(\<And>c. c \<in> set cs \<Longrightarrow> comp_ok c) \<Longrightarrow> path_comps (Join ''/'' cs) = cs"
  by (cases "cs = []") (auto simp: path_comps_def comp_ok_def Split_Join filter_id_conv)

lemma path_comps_render:
  assumes "\<And>c. c \<in> set cs \<Longrightarrow> comp_ok c"
  shows "path_comps (render root cs) = cs"
proof -
  have dot: "path_comps ''.'' = []" by (simp add: path_comps_def)
  have "path_comps (''/'' @ Join ''/'' cs) = cs"
    using assms path_comps_append[of "[]" "Join ''/'' cs"]
    by (simp add: path_comps_Join) (simp add: path_comps_def)
  with assms dot show ?thesis by (simp add: render_def path_comps_Join)
qed

lemma resolve_subset: "set (resolve root acc cs) \<subseteq> set acc \<union> set cs \<union> {''..''}"
  by (induction root acc cs rule: resolve.induct) (fastforce split: list.splits if_splits)+

lemma resolve_rooted: "''..'' \<notin> set acc \<Longrightarrow> ''..'' \<notin> set (resolve True acc cs)"
  by (induction True acc cs rule: resolve.induct) (auto split: list.splits)

lemma resolve_plain: "''..'' \<notin> set cs \<Longrightarrow> resolve root acc cs = rev acc @ cs"
  by (induction root acc cs rule: resolve.induct) auto

lemma resolve_append: "resolve root acc (cs @ ds) = resolve root (rev (resolve root acc cs)) ds"
  by (induction root acc cs rule: resolve.induct) (auto split: list.splits)

lemma resolve_ok:
  "(\<And>c. c \<in> set cs \<Longrightarrow> comp_ok c) \<Longrightarrow> c \<in> set (resolve root [] cs) \<Longrightarrow> comp_ok c"
  using resolve_subset[of root "[]" cs] by (auto simp: comp_ok_def)

lemma path_comps_Clean: "path_comps (Clean s) = resolve (rooted s) [] (path_comps s)"
  unfolding Clean_def by (rule path_comps_render) (meson path_comps_ok resolve_ok)

lemma rooted_render: "rooted (render True cs)"
  by (simp add: render_def)

lemma rooted_Clean: "rooted s \<Longrightarrow> rooted (Clean s)"
  by (simp add: Clean_def rooted_render)

section \<open>Absolute clean paths\<close>

definition abs_path :: "string \<Rightarrow> bool" where
  "abs_path p \<longleftrightarrow> rooted p \<and> Clean p = p"

lemma abs_path_comps: "abs_path p \<Longrightarrow> ''..'' \<notin> set (path_comps p)"
  using path_comps_Clean[of p] resolve_rooted[of "[]" "path_comps p"] by (simp add: abs_path_def)

lemma abs_path_render: "abs_path p \<Longrightarrow> p = render True (path_comps p)"
  unfolding abs_path_def by (metis (full_types) Clean_def path_comps_Clean)

lemma render_abs_path:
  assumes "\<And>c. c \<in> set cs \<Longrightarrow> comp_ok c" and "''..'' \<notin> set cs"
  shows "abs_path (render True cs)" "path_comps (render True cs) = cs"
  using assms path_comps_render[of cs True] rooted_render[of cs]
  by (auto simp: abs_path_def Clean_def resolve_plain)

lemma Clean_abs: "rooted s \<Longrightarrow> abs_path (Clean s)"
  unfolding Clean_def
  by (simp, rule render_abs_path(1)) (meson path_comps_ok resolve_ok, simp add: resolve_rooted)

section \<open>Joining\<close>

fun PathJoin :: "string list \<Rightarrow> string" where
  "PathJoin [] = []"
| "PathJoin (e # es) = (if e = [] then PathJoin es else Clean (Join ''/'' (e # es)))"

lemma PathJoin_root:
  assumes "abs_path r"
  shows "abs_path (PathJoin [r, x])"
    and "path_comps (PathJoin [r, x]) = resolve True (rev (path_comps r)) (path_comps x)"
proof -
  from assms have r: "r \<noteq> []" "rooted (r @ ''/'' @ x)"
    by (auto simp: abs_path_def prefix_def append_eq_Cons_conv)
  then have j: "PathJoin [r, x] = Clean (r @ ''/'' @ x)" by simp
  show "abs_path (PathJoin [r, x])" unfolding j by (rule Clean_abs[OF r(2)])
  show "path_comps (PathJoin [r, x]) = resolve True (rev (path_comps r)) (path_comps x)"
    unfolding j path_comps_Clean path_comps_append resolve_append
    using r(2) abs_path_comps[OF assms] by (simp add: resolve_plain)
qed

lemma PathJoin_below:
  assumes "abs_path r" and "''..'' \<notin> set (path_comps x)"
  shows "path_comps (PathJoin [r, x]) = path_comps r @ path_comps x"
  using PathJoin_root(2)[OF assms(1), of x] assms(2) by (simp add: resolve_plain)

lemma joined_comp:
  assumes "abs_path p" and "comp_ok f" and "f \<noteq> ''..''"
  shows "abs_path (PathJoin [p, f])" and "path_comps (PathJoin [p, f]) = path_comps p @ [f]"
proof -
  have f: "path_comps f = [f]" using assms(2) path_comps_Join[of "[f]"] by simp
  show "abs_path (PathJoin [p, f])" by (rule PathJoin_root(1)[OF assms(1)])
  show "path_comps (PathJoin [p, f]) = path_comps p @ [f]"
    using PathJoin_below[OF assms(1), of f] f assms(3) by simp
qed

section \<open>Relative paths\<close>

fun strip_common :: "string list \<Rightarrow> string list \<Rightarrow> string list \<times> string list" where
  "strip_common (b # bs) (t # ts) = (if b = t then strip_common bs ts else (b # bs, t # ts))"
| "strip_common bs ts = (bs, ts)"

definition path_elems :: "string \<Rightarrow> string list" where
  "path_elems s = (if s = [] then [] else if s = ''/'' then [[]] else Split slash s)"

definition Rel :: "string \<Rightarrow> string \<Rightarrow> string option" where
  "Rel basepath targpath =
    (let base = Clean basepath; targ = Clean targpath
     in if targ = base then Some ''.''
        else let base = (if base = ''.'' then [] else base)
             in if rooted base \<noteq> rooted targ then None
                else (case strip_common (path_elems base) (path_elems targ) of
                        (bs, ts) \<Rightarrow>
                          if bs \<noteq> [] \<and> ts \<noteq> [] \<and> hd bs = ''..'' then None
                          else Some (Join ''/'' (replicate (length bs) ''..'' @ ts))))"

lemma strip_common_append: "strip_common bs (bs @ ts) = ([], ts)"
  by (induction bs) (auto elim: strip_common.elims)

lemma strip_common_split:
  "strip_common bs ts = (bs', ts') \<Longrightarrow> \<exists>p. bs = p @ bs' \<and> ts = p @ ts'"
proof (induction bs ts rule: strip_common.induct)
  case (1 b bs t ts)
  then show ?case by (auto split: if_splits)
qed auto

lemma path_elems_abs:
  assumes "abs_path p"
  shows "path_elems p = [] # path_comps p"
proof (cases "path_comps p = []")
  case True
  then have "p = ''/''" using abs_path_render[OF assms] by (simp add: render_def)
  with True show ?thesis by (simp add: path_elems_def)
next
  case False
  let ?cs = "path_comps p"
  have p: "p = slash # Join ''/'' ?cs" using abs_path_render[OF assms] by (simp add: render_def)
  have sp: "Split slash (Join ''/'' ?cs) = ?cs"
    using False path_comps_ok[of _ p] by (intro Split_Join) (auto simp: comp_ok_def)
  have "Join ''/'' ?cs \<noteq> []" using sp False path_comps_ok[of "[]" p]
    by (metis Split.simps(1) comp_ok_def list.set_intros(1))
  with p sp show ?thesis by (metis Split.simps(2) list.inject path_elems_def list.distinct(1))
qed

text \<open>
  \<open>Rel\<close> of an absolute path below an absolute root: it starts with \<open>..\<close> unless the path's
  components extend the root's.
\<close>

lemma prefix_dots_Join: "HasPrefix (Join ''/'' (''..'' # cs)) ''..''"
  by (simp add: Join_Cons)

lemma Rel_inside:
  assumes "abs_path r" and "abs_path p" and "Rel r p = Some rel" and "\<not> HasPrefix rel ''..''"
  shows "\<exists>ts. path_comps p = path_comps r @ ts
    \<and> rel = (if ts = [] then ''.'' else Join ''/'' ts)"
proof (cases "p = r")
  case True
  with assms show ?thesis by (auto simp: Rel_def abs_path_def)
next
  case False
  obtain bs ts where sc: "strip_common (path_elems r) (path_elems p) = (bs, ts)"
    by (cases "strip_common (path_elems r) (path_elems p)") auto
  have "r \<noteq> ''.''" using assms(1) by (auto simp: abs_path_def)
  with False assms(1-3) sc have rel: "rel = Join ''/'' (replicate (length bs) ''..'' @ ts)"
    by (auto simp: Rel_def abs_path_def Let_def split: if_splits)
  with assms(4) have bs: "bs = []"
    using prefix_dots_Join by (cases bs) auto
  then have "path_comps p = path_comps r @ ts"
    using strip_common_split[OF sc] assms(1,2) by (auto simp: path_elems_abs)
  moreover from this have "ts \<noteq> []"
    using False abs_path_render[OF assms(1)] abs_path_render[OF assms(2)] by auto
  ultimately show ?thesis using rel bs by (intro exI[of _ ts]) simp
qed

lemma Rel_below:
  assumes "abs_path r" and "abs_path p" and "path_comps p = path_comps r @ ts"
  shows "Rel r p = Some (if ts = [] then ''.'' else Join ''/'' ts)"
proof (cases "ts = []")
  case True
  then have "p = r" using assms abs_path_render by (metis append_Nil2)
  with True show ?thesis by (simp add: Rel_def)
next
  case False
  have "p \<noteq> r" using False assms(3) by auto
  moreover have "r \<noteq> ''.''" using assms(1) by (auto simp: abs_path_def)
  moreover have "strip_common (path_elems r) (path_elems p) = ([], ts)"
    using strip_common_append[of "[] # path_comps r" ts] assms by (simp add: path_elems_abs)
  ultimately show ?thesis
    using False assms(1,2) by (simp add: Rel_def abs_path_def Let_def)
qed

section \<open>Extension and base\<close>

definition Ext :: "string \<Rightarrow> string" where
  "Ext s = (let t = takeWhile (\<lambda>c. c \<noteq> slash \<and> c \<noteq> CHR ''.'') (rev s)
            in if length t < length s \<and> rev s ! length t = CHR ''.'' then CHR ''.'' # rev t else [])"

definition Base :: "string \<Rightarrow> string" where
  "Base s = (if s = [] then ''.''
     else let t = rev (dropWhile (\<lambda>c. c = slash) (rev s))
          in if t = [] then ''/'' else last (Split slash t))"

lemma Ext_suffix: "suffix (Ext s) s"
proof (cases "Ext s = []")
  case False
  let ?t = "takeWhile (\<lambda>c. c \<noteq> slash \<and> c \<noteq> CHR ''.'') (rev s)"
  from False have l: "length ?t < length s" "rev s ! length ?t = CHR ''.''"
    and e: "Ext s = CHR ''.'' # rev ?t"
    by (auto simp: Ext_def Let_def split: if_splits)
  have "take (Suc (length ?t)) (rev s) = ?t @ [CHR ''.'']"
    using l takeWhile_eq_take[of _ "rev s"] by (simp add: take_Suc_conv_app_nth)
  then have "prefix (?t @ [CHR ''.'']) (rev s)" by (metis take_is_prefix)
  then show ?thesis unfolding e suffix_to_prefix by simp
qed simp

lemma Ext_append:
  assumes "CHR ''.'' \<notin> set b" and "slash \<notin> set b"
  shows "Ext (a @ slash # b) = []" and "Ext (a @ CHR ''.'' # b) = CHR ''.'' # b"
proof -
  let ?P = "\<lambda>c. c \<noteq> slash \<and> c \<noteq> CHR ''.''"
  have "takeWhile ?P (rev b @ slash # rev a) = rev b"
    "takeWhile ?P (rev b @ CHR ''.'' # rev a) = rev b"
    using assms by (subst takeWhile_append2; auto)+
  then show "Ext (a @ slash # b) = []" and "Ext (a @ CHR ''.'' # b) = CHR ''.'' # b"
    by (simp_all add: Ext_def nth_append)
qed

end
