(* ===== verification/GoRegexp.thy ===== *)
theory GoRegexp
  imports GoStrings
begin

text \<open>
  Go's \<^verbatim>\<open>regexp\<close> for the constructs the program's patterns use, on bytes.  Go documents that
  of all matches it returns the leftmost, and of those the one a backtracking search finds
  first: \<open>mt\<close> lists the matches at a position in that order, with the groups captured.
  Every class in the patterns that can match a non-ASCII character is under a star or a
  plus, so matching bytes and matching runes agree.  \<open>den\<close> says what a pattern means
  without the search, and \<open>mt_iff_den\<close> that the search is sound and complete for it.
\<close>

section \<open>Patterns\<close>

text \<open>
  \<open>Cls neg cs\<close> is \<^verbatim>\<open>[cs]\<close> or \<^verbatim>\<open>[^cs]\<close>; a star is greedy or lazy; \<open>WordB\<close> is \<^verbatim>\<open>\b\<close>,
  \<open>Bol\<close> and \<open>Eol\<close> are \<^verbatim>\<open>^\<close> and \<^verbatim>\<open>$\<close> under \<^verbatim>\<open>(?m)\<close>.
\<close>

datatype regex =
  Eps
| Cls bool string
| Seq regex regex
| Alt regex regex
| Star bool regex
| Grp nat regex
| WordB
| Bol
| Eol

definition word_char :: "char \<Rightarrow> bool" where
  "word_char c = (let n = (of_char c :: nat) in
     48 \<le> n \<and> n \<le> 57 \<or> 65 \<le> n \<and> n \<le> 90 \<or> n = 95 \<or> 97 \<le> n \<and> n \<le> 122)"

definition word_at :: "string \<Rightarrow> bool" where
  "word_at s = (case s of [] \<Rightarrow> False | c # _ \<Rightarrow> word_char c)"

definition line_end :: "string \<Rightarrow> bool" where
  "line_end s = (case s of [] \<Rightarrow> True | c # _ \<Rightarrow> c = CHR 0x0A)"

type_synonym captures = "(nat \<times> string) list"

section \<open>The search\<close>

text \<open>
  A position is the text before it, reversed, and the text after it.  An iteration of a star
  must consume something; none of the patterns has an empty iteration.
\<close>

function mt :: "regex \<Rightarrow> string \<Rightarrow> string \<Rightarrow> captures \<Rightarrow> (string \<times> string \<times> captures) list" where
  "mt Eps l r c = [(l, r, c)]"
| "mt (Cls neg cs) l r c =
     (case r of [] \<Rightarrow> [] | x # r' \<Rightarrow> if (x \<in> set cs) \<noteq> neg then [(x # l, r', c)] else [])"
| "mt (Seq a b) l r c = concat (map (\<lambda>(l', r', c'). mt b l' r' c') (mt a l r c))"
| "mt (Alt a b) l r c = mt a l r c @ mt b l r c"
| "mt (Star greedy a) l r c =
     (let more = concat (map (\<lambda>(l', r', c').
             if length r' < length r then mt (Star greedy a) l' r' c' else []) (mt a l r c))
      in if greedy then more @ [(l, r, c)] else (l, r, c) # more)"
| "mt (Grp n a) l r c =
     map (\<lambda>(l', r', c'). (l', r', AList.update n (take (length r - length r') r) c')) (mt a l r c)"
| "mt WordB l r c = (if word_at l \<noteq> word_at r then [(l, r, c)] else [])"
| "mt Bol l r c = (if line_end l then [(l, r, c)] else [])"
| "mt Eol l r c = (if line_end r then [(l, r, c)] else [])"
  by pat_completeness auto
termination
  by (relation "inv_image (less_than <*lex*> less_than) (\<lambda>(re, l, r, c). (size re, length r))") auto

text \<open>\<^verbatim>\<open>FindStringSubmatch\<close>: the text before the leftmost match, the match, the rest, the groups.\<close>

fun find_from :: "regex \<Rightarrow> string \<Rightarrow> string \<Rightarrow> (string \<times> string \<times> captures) option" where
  "find_from re l r =
     (case mt re l r [] of
        (l', r', c) # _ \<Rightarrow> Some (take (length r - length r') r, r', c)
      | [] \<Rightarrow> (case r of [] \<Rightarrow> None | x # r' \<Rightarrow> find_from re (x # l) r'))"

declare find_from.simps [simp del]

definition MatchString :: "regex \<Rightarrow> string \<Rightarrow> bool" where
  "MatchString re s = (find_from re [] s \<noteq> None)"

definition group :: "captures \<Rightarrow> nat \<Rightarrow> string" where
  "group c n = (case map_of c n of None \<Rightarrow> [] | Some s \<Rightarrow> s)"

definition FindSubmatch :: "regex \<Rightarrow> string \<Rightarrow> captures option" where
  "FindSubmatch re s = map_option (\<lambda>(m, r, c). c) (find_from re [] s)"

text \<open>
  \<^verbatim>\<open>ReplaceAllStringFunc\<close>, for patterns without an empty match; the replacement function
  may carry a state.
\<close>

function replace_from ::
  "regex \<Rightarrow> (string \<Rightarrow> captures \<Rightarrow> 's \<Rightarrow> string \<times> 's) \<Rightarrow> string \<Rightarrow> string \<Rightarrow> 's \<Rightarrow> string \<times> 's" where
  "replace_from re f l [] st = ([], st)"
| "replace_from re f l (x # r) st =
     (case find (\<lambda>(_, r', _). length r' \<le> length r) (take 1 (mt re l (x # r) [])) of
        Some (l', r', c) \<Rightarrow>
          (let (out, st') = f (take (Suc (length r) - length r') (x # r)) c st;
               (rest, st'') = replace_from re f l' r' st' in (out @ rest, st''))
      | None \<Rightarrow> (let (rest, st') = replace_from re f (x # l) r st in (x # rest, st')))"
  by pat_completeness auto
termination
  by (relation "measure (\<lambda>(_, _, _, r, _). length r)")
     (auto simp: find_Some_iff split: list.splits)

declare replace_from.simps [simp del]

definition ReplaceAllStringFunc ::
  "regex \<Rightarrow> (string \<Rightarrow> captures \<Rightarrow> 's \<Rightarrow> string \<times> 's) \<Rightarrow> string \<Rightarrow> 's \<Rightarrow> string \<times> 's" where
  "ReplaceAllStringFunc re f s st = replace_from re f [] s st"

section \<open>What a pattern means\<close>

text \<open>\<open>den re l s r\<close>: the pattern can match \<open>s\<close> between \<open>l\<close> (reversed) and \<open>r\<close>.\<close>

inductive den :: "regex \<Rightarrow> string \<Rightarrow> string \<Rightarrow> string \<Rightarrow> bool" where
  den_eps: "den Eps l [] r"
| den_cls: "(x \<in> set cs) \<noteq> neg \<Longrightarrow> den (Cls neg cs) l [x] r"
| den_seq: "den a l s (t @ r) \<Longrightarrow> den b (rev s @ l) t r \<Longrightarrow> den (Seq a b) l (s @ t) r"
| den_alt1: "den a l s r \<Longrightarrow> den (Alt a b) l s r"
| den_alt2: "den b l s r \<Longrightarrow> den (Alt a b) l s r"
| den_stop: "den (Star g a) l [] r"
| den_more: "den a l s (t @ r) \<Longrightarrow> s \<noteq> [] \<Longrightarrow> den (Star g a) (rev s @ l) t r
     \<Longrightarrow> den (Star g a) l (s @ t) r"
| den_grp: "den a l s r \<Longrightarrow> den (Grp n a) l s r"
| den_wordb: "word_at l \<noteq> word_at r \<Longrightarrow> den WordB l [] r"
| den_bol: "line_end l \<Longrightarrow> den Bol l [] r"
| den_eol: "line_end r \<Longrightarrow> den Eol l [] r"

inductive_simps den_simps [simp]:
  "den Eps l s r" "den (Cls neg cs) l s r" "den (Alt a b) l s r" "den (Grp n a) l s r"
  "den WordB l s r" "den Bol l s r" "den Eol l s r" "den (Seq a b) l s r"

inductive_cases den_starE: "den (Star g a) l s r"

lemma mt_in:
  "(x \<in> set (mt Eps l r c)) = (x = (l, r, c))"
  "(x \<in> set (mt (Cls neg cs) l r c))
     = (\<exists>y r'. r = y # r' \<and> (y \<in> set cs) \<noteq> neg \<and> x = (y # l, r', c))"
  "(x \<in> set (mt (Seq a b) l r c))
     = (\<exists>l1 r1 c1. (l1, r1, c1) \<in> set (mt a l r c) \<and> x \<in> set (mt b l1 r1 c1))"
  "(x \<in> set (mt (Alt a b) l r c)) = (x \<in> set (mt a l r c) \<or> x \<in> set (mt b l r c))"
  "(x \<in> set (mt WordB l r c)) = (word_at l \<noteq> word_at r \<and> x = (l, r, c))"
  "(x \<in> set (mt Bol l r c)) = (line_end l \<and> x = (l, r, c))"
  "(x \<in> set (mt Eol l r c)) = (line_end r \<and> x = (l, r, c))"
  "(x \<in> set (mt (Grp n a) l r c)) = (\<exists>l1 r1 c1. (l1, r1, c1) \<in> set (mt a l r c)
     \<and> x = (l1, r1, AList.update n (take (length r - length r1) r) c1))"
  by (force split: list.splits)+

lemma mt_in_star:
  "(x \<in> set (mt (Star g a) l r c)) = (x = (l, r, c) \<or> (\<exists>l1 r1 c1. (l1, r1, c1) \<in> set (mt a l r c)
     \<and> length r1 < length r \<and> x \<in> set (mt (Star g a) l1 r1 c1)))"
  by (subst mt.simps(5)) (force simp del: mt.simps simp: Let_def split: if_splits)

declare mt.simps [simp del]

lemma mt_sound:
  "(l', r', c') \<in> set (mt re l r c) \<Longrightarrow> \<exists>s. r = s @ r' \<and> l' = rev s @ l \<and> den re l s r'"
proof (induction re l r c arbitrary: l' r' c' rule: mt.induct)
  case (2 neg cs l r c)
  then obtain y where "r = y # r'" "l' = y # l" "(y \<in> set cs) \<noteq> neg" by (auto simp: mt_in)
  then show ?case by (intro exI[of _ "[y]"]) simp
next
  case (3 a b l r c)
  then obtain l1 r1 c1 where 1: "(l1, r1, c1) \<in> set (mt a l r c)"
    and 2: "(l', r', c') \<in> set (mt b l1 r1 c1)" by (auto simp: mt_in)
  obtain s where s: "r = s @ r1" "l1 = rev s @ l" "den a l s r1" using "3.IH"(1)[OF 1] by blast
  obtain t where t: "r1 = t @ r'" "l' = rev t @ l1" "den b l1 t r'"
    using "3.IH"(2)[OF 1 _ _ 2] by blast
  from s t have "den (Seq a b) l (s @ t) r'" by (intro den_seq) auto
  with s t show ?case by (intro exI[of _ "s @ t"]) simp
next
  case (4 a b l r c)
  then consider "(l', r', c') \<in> set (mt a l r c)" | "(l', r', c') \<in> set (mt b l r c)"
    by (auto simp: mt_in)
  then show ?case
  proof cases
    case 1
    from "4.IH"(1)[OF this] show ?thesis by (auto intro: den_alt1)
  next
    case 2
    from "4.IH"(2)[OF this] show ?thesis by (auto intro: den_alt2)
  qed
next
  case (5 g a l r c)
  then consider "l' = l \<and> r' = r" | l1 r1 c1 where "(l1, r1, c1) \<in> set (mt a l r c)"
      "length r1 < length r" "(l', r', c') \<in> set (mt (Star g a) l1 r1 c1)"
    by (subst (asm) mt_in_star) blast
  then show ?case
  proof cases
    case 1
    then show ?thesis by (intro exI[of _ "[]"]) (simp add: den_stop)
  next
    case (2 l1 r1 c1)
    obtain s where s: "r = s @ r1" "l1 = rev s @ l" "den a l s r1"
      using "5.IH"(1)[OF 2(1)] by blast
    obtain t where t: "r1 = t @ r'" "l' = rev t @ l1" "den (Star g a) l1 t r'"
      using "5.IH"(2)[OF 2(1) _ _ 2(2,3)] by blast
    from s t 2 have "den (Star g a) l (s @ t) r'" by (intro den_more) auto
    with s t show ?thesis by (intro exI[of _ "s @ t"]) simp
  qed
next
  case (6 n a l r c)
  then obtain c1 where "(l', r', c1) \<in> set (mt a l r c)" by (auto simp: mt_in)
  from "6.IH"[OF this] show ?case by (auto intro: den_grp)
qed (simp_all add: mt_in)

lemma mt_complete: "den re l s r \<Longrightarrow> \<exists>c'. (rev s @ l, r, c') \<in> set (mt re l (s @ r) c)"
proof (induction arbitrary: c rule: den.induct)
  case (den_seq a l s t r b)
  obtain c1 where 1: "(rev s @ l, t @ r, c1) \<in> set (mt a l (s @ t @ r) c)"
    using den_seq.IH(1) by blast
  obtain c2 where "(rev t @ rev s @ l, r, c2) \<in> set (mt b (rev s @ l) (t @ r) c1)"
    using den_seq.IH(2) by blast
  with 1 show ?case by (simp add: mt_in) blast
next
  case (den_more a l s t r g)
  obtain c1 where 1: "(rev s @ l, t @ r, c1) \<in> set (mt a l (s @ t @ r) c)"
    using den_more.IH(1) by blast
  obtain c2 where 2: "(rev t @ rev s @ l, r, c2) \<in> set (mt (Star g a) (rev s @ l) (t @ r) c1)"
    using den_more.IH(2) by blast
  have "length (t @ r) < length (s @ t @ r)" using den_more.hyps(2) by simp
  with 1 2 have "(rev t @ rev s @ l, r, c2) \<in> set (mt (Star g a) l (s @ t @ r) c)"
    by (subst mt_in_star) blast
  then show ?case by auto
next
  case (den_stop g a l r)
  have "(l, r, c) \<in> set (mt (Star g a) l r c)" by (subst mt_in_star) simp
  then show ?case by auto
next
  case (den_grp a l s r n)
  from den_grp.IH obtain c1 where "(rev s @ l, r, c1) \<in> set (mt a l (s @ r) c)" by blast
  then show ?case by (simp add: mt_in) blast
next
  case (den_alt1 a l s r b)
  then show ?case by (simp add: mt_in) blast
next
  case (den_alt2 b l s r a)
  then show ?case by (simp add: mt_in) blast
qed (simp_all add: mt_in)

lemma mt_empty_iff: "mt re l w c = [] \<longleftrightarrow> (\<forall>s r. w = s @ r \<longrightarrow> \<not> den re l s r)"
proof
  assume "mt re l w c = []"
  then show "\<forall>s r. w = s @ r \<longrightarrow> \<not> den re l s r" using mt_complete[of re l _ _ c] by fastforce
next
  assume *: "\<forall>s r. w = s @ r \<longrightarrow> \<not> den re l s r"
  show "mt re l w c = []"
  proof (rule ccontr)
    assume "mt re l w c \<noteq> []"
    then obtain l' r' c' where "(l', r', c') \<in> set (mt re l w c)"
      by (cases "mt re l w c") auto
    with mt_sound * show False by blast
  qed
qed

lemma mt_iff_den: "(\<exists>c'. (rev s @ l, r, c') \<in> set (mt re l (s @ r) c)) \<longleftrightarrow> den re l s r"
  using mt_complete[of re l s r c] mt_sound[of "rev s @ l" r _ re l "s @ r" c] by auto

text \<open>A text without a match is left alone, and so is the state.\<close>

lemma replace_from_unmatched:
  "(\<And>a s b. r = a @ s @ b \<Longrightarrow> \<not> den re (rev a @ l) s b) \<Longrightarrow> replace_from re f l r st = (r, st)"
proof (induction r arbitrary: l)
  case Nil
  then show ?case by (simp add: replace_from.simps)
next
  case (Cons x r)
  have "mt re l (x # r) [] = []"
    using Cons.prems[of "[]"] by (simp add: mt_empty_iff)
  moreover have "replace_from re f (x # l) r st = (r, st)"
    using Cons.prems[of "x # _"] by (intro Cons.IH) simp
  ultimately show ?case by (simp add: replace_from.simps)
qed

lemma find_from_None:
  "find_from re l r = None \<longleftrightarrow> (\<forall>a s b. r = a @ s @ b \<longrightarrow> \<not> den re (rev a @ l) s b)"
proof (induction r arbitrary: l)
  case Nil
  show ?case
    using mt_empty_iff[of re l "[]" "[]"] by (subst find_from.simps) (auto split: list.splits)
next
  case (Cons x r)
  show ?case
  proof (cases "mt re l (x # r) []")
    case Nil
    then have "find_from re l (x # r) = find_from re (x # l) r" by (simp add: find_from.simps)
    moreover have "(\<forall>a s b. x # r = a @ s @ b \<longrightarrow> \<not> den re (rev a @ l) s b)
        \<longleftrightarrow> (\<forall>a s b. r = a @ s @ b \<longrightarrow> \<not> den re (rev a @ x # l) s b)"
    proof -
      have *: "\<not> den re l s b" if "x # r = s @ b" for s b
        using Nil that mt_empty_iff[of re l "x # r" "[]"] by simp
      show ?thesis
      proof (intro iffI allI impI)
        fix a s b assume "\<forall>a s b. x # r = a @ s @ b \<longrightarrow> \<not> den re (rev a @ l) s b" "r = a @ s @ b"
        then show "\<not> den re (rev a @ x # l) s b" by (metis append_Cons append.assoc rev.simps(2) append_Nil)
      next
        fix a s b
        assume r: "\<forall>a s b. r = a @ s @ b \<longrightarrow> \<not> den re (rev a @ x # l) s b" "x # r = a @ s @ b"
        show "\<not> den re (rev a @ l) s b"
        proof (cases a)
          case Nil
          with r(2) * show ?thesis by simp
        next
          case (Cons y ys)
          with r show ?thesis by simp
        qed
      qed
    qed
    ultimately show ?thesis using Cons.IH[of "x # l"] by simp
  next
    case (Cons m ms)
    then have "find_from re l (x # r) \<noteq> None"
      by (subst find_from.simps) (auto split: prod.splits)
    moreover have "\<exists>s b. x # r = s @ b \<and> den re l s b"
      using Cons mt_empty_iff[of re l "x # r" "[]"] by auto
    ultimately show ?thesis by (metis append_Nil rev.simps(1))
  qed
qed

lemma MatchString_iff:
  "MatchString re s \<longleftrightarrow> (\<exists>a m b. s = a @ m @ b \<and> den re (rev a) m b)"
  using find_from_None[of re "[]" s] by (auto simp: MatchString_def)

section \<open>Building patterns\<close>

definition lit :: "string \<Rightarrow> regex" where
  "lit s = foldr (\<lambda>c re. Seq (Cls False [c]) re) s Eps"

definition upper_char :: "char \<Rightarrow> char" where
  "upper_char c = (let n = (of_char c :: nat) in if 97 \<le> n \<and> n \<le> 122 then char_of (n - 32) else c)"

text \<open>
  A lower-case literal under \<^verbatim>\<open>(?i)\<close>.  The letters \<^verbatim>\<open>s\<close> and \<^verbatim>\<open>k\<close> also match the long s
  and the Kelvin sign.
\<close>

definition ci_char :: "char \<Rightarrow> regex" where
  "ci_char c =
    (if c = CHR ''s'' then Alt (Cls False ''sS'') (lit [CHR 0xC5, CHR 0xBF])
     else if c = CHR ''k'' then Alt (Cls False ''kK'') (lit [CHR 0xE2, CHR 0x84, CHR 0xAA])
     else Cls False [c, upper_char c])"

definition ci_lit :: "string \<Rightarrow> regex" where
  "ci_lit s = foldr (\<lambda>c re. Seq (ci_char c) re) s Eps"

definition space_class :: string where
  "space_class = [CHR 0x20, CHR 0x09, CHR 0x0A, CHR 0x0C, CHR 0x0D]"

abbreviation sp :: regex where "sp \<equiv> Cls False space_class"
abbreviation star :: "regex \<Rightarrow> regex" where "star re \<equiv> Star True re"
abbreviation plus :: "regex \<Rightarrow> regex" where "plus re \<equiv> Seq re (Star True re)"
abbreviation opt :: "regex \<Rightarrow> regex" where "opt re \<equiv> Alt re Eps"
abbreviation seqs :: "regex list \<Rightarrow> regex" where "seqs res \<equiv> foldr Seq res Eps"

lemma den_lit: "den (lit p) l s r \<longleftrightarrow> s = p"
  by (induction p arbitrary: l s) (auto simp: lit_def)

lemma den_star_step:
  "den (Star g (Cls neg cs)) l (x # s) r
     \<longleftrightarrow> (x \<in> set cs) \<noteq> neg \<and> den (Star g (Cls neg cs)) (x # l) s r"
proof
  assume "den (Star g (Cls neg cs)) l (x # s) r"
  then show "(x \<in> set cs) \<noteq> neg \<and> den (Star g (Cls neg cs)) (x # l) s r"
    by (rule den_starE) (auto simp: Cons_eq_append_conv)
next
  assume "(x \<in> set cs) \<noteq> neg \<and> den (Star g (Cls neg cs)) (x # l) s r"
  then show "den (Star g (Cls neg cs)) l (x # s) r"
    using den_more[of "Cls neg cs" l "[x]" s r g] by simp
qed

lemma den_star_cls:
  "den (Star g (Cls neg cs)) l s r \<longleftrightarrow> (\<forall>x\<in>set s. (x \<in> set cs) \<noteq> neg)"
  by (induction s arbitrary: l) (auto simp: den_star_step den_stop)

text \<open>A literal under \<^verbatim>\<open>(?i)\<close> matches its spellings in any case.\<close>

lemma of_char_eq_iff: "of_char c = (of_char d :: nat) \<longleftrightarrow> c = d"
  by (metis char_of_char)

lemma lower_char_cases: "lower_char c = x \<Longrightarrow> c = x \<or> c = upper_char x"
proof -
  assume l: "lower_char c = x"
  show ?thesis
  proof (cases "65 \<le> (of_char c :: nat) \<and> (of_char c :: nat) \<le> 90")
    case True
    then have x: "x = char_of ((of_char c :: nat) + 32)" using l by (simp add: lower_char_def Let_def)
    then have "(of_char x :: nat) = of_char c + 32" using True by (simp add: of_char_of)
    then have "upper_char x = c" using True by (simp add: upper_char_def Let_def)
    then show ?thesis by simp
  next
    case False
    then show ?thesis using l by (auto simp: lower_char_def Let_def)
  qed
qed

lemma upper_special: "upper_char CHR ''s'' = CHR ''S''" "upper_char CHR ''k'' = CHR ''K''"
  by code_simp+

lemma ci_char_spelling: "lower_char c = x \<Longrightarrow> den (ci_char x) l [c] r"
  using lower_char_cases[of c x] by (auto simp: ci_char_def upper_special)

lemma den_ci_lit: "ToLower e = p \<Longrightarrow> den (ci_lit p) l e r"
proof (induction e arbitrary: p l)
  case Nil
  then show ?case by (simp add: ci_lit_def ToLower_def)
next
  case (Cons c e)
  then have p: "p = lower_char c # ToLower e" by (simp add: ToLower_def)
  have "den (ci_char (lower_char c)) l [c] (e @ r)" by (rule ci_char_spelling) simp
  moreover have "den (ci_lit (ToLower e)) (rev [c] @ l) e r" using Cons.IH by simp
  ultimately have "den (Seq (ci_char (lower_char c)) (ci_lit (ToLower e))) l ([c] @ e) r"
    by (rule den_seq)
  with p show ?case by (simp add: ci_lit_def)
qed

end
