(* ===== verification/Security.thy ===== *)
theory Security
  imports GoPath GoRegexp Cache
begin

text \<open>
  \<^verbatim>\<open>internal/security/security.go\<close>: which files a page may import.  The file system is the
  record \<open>os\<close> of the two calls the code makes; a function that counts blocked requests
  returns the labels it counted beside its result.  Errors are values whose text is
  \<open>error_text\<close>.  The lemmas say what a path that passes validation satisfies.
\<close>

section \<open>Policy and file system\<close>

record file_info =
  fi_size :: int
  fi_dir :: bool

record os =
  os_stat :: "string \<Rightarrow> file_info option"
  os_read :: "string \<Rightarrow> string + string"

record securityPolicy =
  AllowRemoteImports :: bool
  AllowedExtensions :: "string list"
  AllowedSubdirs :: "string list"
  MaxFileSize :: int
  MaxImportsPerFile :: int
  MaxImportDepth :: int
  BlockedPatterns :: "(string \<times> regex) list"

definition MAX_IMPORT_FILE_SIZE :: int where "MAX_IMPORT_FILE_SIZE = 1 * 1024 * 1024"
definition MAX_IMPORTS_PER_FILE :: int where "MAX_IMPORTS_PER_FILE = 50"
definition MAX_IMPORT_DEPTH :: int where "MAX_IMPORT_DEPTH = 5"
definition MAX_SCRIPT_CODE_SIZE :: int where "MAX_SCRIPT_CODE_SIZE = 512 * 1024"

definition quotes :: string where "quotes = [CHR 0x27, CHR 0x22]"

definition bs :: string where "bs = [CHR 0x5C]"

text \<open>The blocked patterns, and the text of the last two (the error message quotes it).\<close>

definition re_eval :: regex where
  "re_eval = seqs [ci_lit ''eval'', star sp, lit ''('']"

definition re_write :: regex where
  "re_write = seqs [ci_lit ''document.write'', star sp, lit ''('']"

definition re_timer :: "string \<Rightarrow> regex" where
  "re_timer name = seqs [lit name, star sp, lit ''('', star sp, Cls False quotes,
     star (Cls True quotes), Cls False quotes, star sp, lit '','', star sp,
     plus (Cls False ''0123456789''), star sp, lit '')'']"

definition timer_pattern :: "string \<Rightarrow> string" where
  "timer_pattern name = name @ bs @ ''s*'' @ bs @ ''('' @ bs @ ''s*['' @ quotes @ ''][^'' @ quotes
     @ '']*['' @ quotes @ '']'' @ bs @ ''s*,'' @ bs @ ''s*'' @ bs @ ''d+'' @ bs @ ''s*'' @ bs @ '')''"

definition GlobalSecurityPolicy :: securityPolicy where
  "GlobalSecurityPolicy =
    \<lparr>AllowRemoteImports = False,
     AllowedExtensions = [''.js'', ''.mjs'', ''.json''],
     AllowedSubdirs = [''js'', ''public'', ''public/js'', ''modules'', ''scripts'', ''src'', ''lib'',
       ''components''],
     MaxFileSize = MAX_IMPORT_FILE_SIZE,
     MaxImportsPerFile = MAX_IMPORTS_PER_FILE,
     MaxImportDepth = MAX_IMPORT_DEPTH,
     BlockedPatterns =
       [(''(?i)eval'' @ bs @ ''s*'' @ bs @ ''('', re_eval),
        (''(?i)document'' @ bs @ ''.write'' @ bs @ ''s*'' @ bs @ ''('', re_write),
        (timer_pattern ''setTimeout'', re_timer ''setTimeout''),
        (timer_pattern ''setInterval'', re_timer ''setInterval'')]\<rparr>"

datatype sec_error =
  RemoteImport string
| OutsideProject string
| BadExtension string
| BadDirectory string string
| NotFound string
| NoEntryPoint string
| TooLarge int int
| ReadFailed string
| BlockedPattern string
| ScriptTooLarge int
| RemoteUrl string
| AccessDenied string

text \<open>The messages, in UTF-8; a number is printed as \<^verbatim>\<open>%d\<close> does.\<close>

definition i_acute :: string where "i_acute = [CHR 0xC3, CHR 0xAD]"
definition o_acute :: string where "o_acute = [CHR 0xC3, CHR 0xB3]"

fun error_text :: "sec_error \<Rightarrow> string" where
  "error_text (RemoteImport raw) =
     ''imports remotos bloqueados por pol'' @ i_acute @ ''tica de seguridad: '' @ raw"
| "error_text (OutsideProject raw) = ''acceso denegado: ruta fuera del proyecto: '' @ raw"
| "error_text (BadExtension ext) = ''extensi'' @ o_acute @ ''n no permitida: '' @ ext"
| "error_text (BadDirectory raw rel) =
     ''directorio no permitido para imports: '' @ raw @ '' (relativo: '' @ rel @ '')''"
| "error_text (NotFound raw) = ''archivo no encontrado: '' @ raw"
| "error_text (NoEntryPoint raw) = ''directorio sin punto de entrada: '' @ raw"
| "error_text (TooLarge n m) =
     ''archivo demasiado grande: '' @ show_int n @ '' > '' @ show_int m @ '' bytes''"
| "error_text (ReadFailed e) = ''error leyendo archivo: '' @ e"
| "error_text (BlockedPattern p) =
     ''contenido bloqueado: patr'' @ o_acute @ ''n peligroso detectado ('' @ p @ '')''"
| "error_text (ScriptTooLarge n) = ''script demasiado grande: '' @ show_int n @ '' bytes''"
| "error_text (RemoteUrl p) = ''URLs remotas no permitidas: '' @ p"
| "error_text (AccessDenied p) = ''acceso denegado: '' @ p"

type_synonym 'a checked = "string list \<times> (sec_error + 'a)"

section \<open>Import contexts\<close>

record importContext =
  Depth :: int
  Visited :: "string set"
  Count :: int

definition NewImportContext :: importContext where
  "NewImportContext = \<lparr>Depth = 0, Visited = {}, Count = 0\<rparr>"

definition IncrementCount :: "importContext \<Rightarrow> int \<times> importContext" where
  "IncrementCount ic = (Count ic + 1, ic\<lparr>Count := Count ic + 1\<rparr>)"

definition CheckAndMarkVisited :: "string \<Rightarrow> importContext \<Rightarrow> bool \<times> importContext" where
  "CheckAndMarkVisited key ic =
     (if key \<in> Visited ic then (True, ic) else (False, ic\<lparr>Visited := insert key (Visited ic)\<rparr>))"

definition IncrementDepth :: "importContext \<Rightarrow> importContext" where
  "IncrementDepth ic = ic\<lparr>Depth := Depth ic + 1\<rparr>"

definition DecrementDepth :: "importContext \<Rightarrow> importContext" where
  "DecrementDepth ic = ic\<lparr>Depth := Depth ic - 1\<rparr>"

definition GetDepth :: "importContext \<Rightarrow> int" where
  "GetDepth ic = Depth ic"

section \<open>Validation of import paths\<close>

definition is_remote :: "string list \<Rightarrow> string \<Rightarrow> bool" where
  "is_remote ps raw = list_ex (HasPrefix (ToLower (TrimSpace raw))) ps"

definition import_schemes :: "string list" where
  "import_schemes = [''http://'', ''https://'', ''//'', ''ftp://'', ''data:'', ''blob:'']"

definition clean_rel :: "string \<Rightarrow> string" where
  "clean_rel raw = TrimPrefix (TrimPrefix (Clean raw) ''/'') bs"

text \<open>The relative path, when it passes the traversal check.\<close>

definition rel_inside :: "string \<Rightarrow> string \<Rightarrow> string option" where
  "rel_inside root full =
    (case Rel root full of
       None \<Rightarrow> None
     | Some rel \<Rightarrow> if HasPrefix rel ''..'' \<or> HasPrefix rel ''/'' then None else Some rel)"

definition ext_allowed :: "string \<Rightarrow> bool" where
  "ext_allowed full \<longleftrightarrow> ToLower (Ext full) \<in> set (AllowedExtensions GlobalSecurityPolicy)"

definition subdir_allowed :: "string \<Rightarrow> bool" where
  "subdir_allowed rel =
    (if slash \<notin> set rel then True
     else let firstDir = hd (Split slash rel)
          in list_ex (\<lambda>sub. firstDir = sub \<or> HasPrefix rel (sub @ ''/''))
               (AllowedSubdirs GlobalSecurityPolicy))"

text \<open>The first regular file among the candidates.\<close>

fun first_file :: "os \<Rightarrow> string list \<Rightarrow> (string \<times> file_info) option" where
  "first_file fs [] = None"
| "first_file fs (p # ps) =
     (case os_stat fs p of
        Some i \<Rightarrow> if fi_dir i then first_file fs ps else Some (p, i)
      | None \<Rightarrow> first_file fs ps)"

text \<open>The file behind a validated path: the path, the path with \<open>.js\<close>, or an entry point.\<close>

definition locate :: "os \<Rightarrow> string \<Rightarrow> string \<Rightarrow> sec_error + (string \<times> file_info)" where
  "locate fs raw full =
    (case os_stat fs full of
       None \<Rightarrow>
         (case (if HasSuffix full ''.js'' then None else first_file fs [full @ ''.js'']) of
            Some r \<Rightarrow> Inr r
          | None \<Rightarrow> Inl (NotFound raw))
     | Some info \<Rightarrow>
         if fi_dir info then
           (case first_file fs [PathJoin [full, ''main.js''], PathJoin [full, ''index.js'']] of
              Some r \<Rightarrow> Inr r
            | None \<Rightarrow> Inl (NoEntryPoint raw))
         else Inr (full, info))"

definition ValidateLocalPath :: "os \<Rightarrow> string \<Rightarrow> string \<Rightarrow> string checked" where
  "ValidateLocalPath fs root raw =
    (if is_remote import_schemes raw then ([''remote_import_attempt''], Inl (RemoteImport raw))
     else let full = PathJoin [root, clean_rel raw] in
       (case rel_inside root full of
          None \<Rightarrow> ([''path_traversal''], Inl (OutsideProject raw))
        | Some rel \<Rightarrow>
            if \<not> ext_allowed full
            then ([''forbidden_extension''], Inl (BadExtension (ToLower (Ext full))))
            else if \<not> subdir_allowed rel
            then ([''forbidden_directory''], Inl (BadDirectory raw rel))
            else (case locate fs raw full of
                    Inl e \<Rightarrow> ([], Inl e)
                  | Inr (path, info) \<Rightarrow>
                      if fi_size info > MaxFileSize GlobalSecurityPolicy
                      then ([''file_too_large''],
                            Inl (TooLarge (fi_size info) (MaxFileSize GlobalSecurityPolicy)))
                      else ([], Inr path))))"

section \<open>Script contents\<close>

definition ValidateScriptContent :: "string \<Rightarrow> unit checked" where
  "ValidateScriptContent content =
    (case find (\<lambda>(_, re). MatchString re content) (BlockedPatterns GlobalSecurityPolicy) of
       Some (p, _) \<Rightarrow> ([''blocked_pattern''], Inl (BlockedPattern p))
     | None \<Rightarrow>
         if int (length content) > MAX_SCRIPT_CODE_SIZE
         then ([''script_too_large''], Inl (ScriptTooLarge (int (length content))))
         else ([], Inr ()))"

section \<open>Reading an import\<close>

record importProcessor =
  ip_root :: string
  ImportCache :: "string \<rightharpoonup> string"

definition NewImportProcessor :: "string \<Rightarrow> importProcessor" where
  "NewImportProcessor root = \<lparr>ip_root = root, ImportCache = Map.empty\<rparr>"

definition ReadLocalFile :: "os \<Rightarrow> string \<Rightarrow> importProcessor \<Rightarrow> string checked \<times> importProcessor" where
  "ReadLocalFile fs raw ip =
    (case ImportCache ip raw of
       Some cached \<Rightarrow> (([], Inr cached), ip)
     | None \<Rightarrow>
         (case ValidateLocalPath fs (ip_root ip) raw of
            (labels, Inl e) \<Rightarrow> ((labels, Inl e), ip)
          | (labels, Inr full) \<Rightarrow>
              (case os_read fs full of
                 Inl e \<Rightarrow> ((labels, Inl (ReadFailed e)), ip)
               | Inr content \<Rightarrow>
                   ((labels, Inr content), ip\<lparr>ImportCache := (ImportCache ip)(raw \<mapsto> content)\<rparr>))))"

section \<open>Resolving a script path\<close>

definition url_schemes :: "string list" where
  "url_schemes = [''http://'', ''https://'', ''//'']"

definition ResolveLocalPath :: "os \<Rightarrow> string \<Rightarrow> string \<Rightarrow> sec_error + string" where
  "ResolveLocalPath fs root path =
    (if is_remote url_schemes path then Inl (RemoteUrl path)
     else let cleanPath = clean_rel path; full = PathJoin [root, cleanPath] in
       if rel_inside root full = None then Inl (AccessDenied path)
       else if Ext full \<noteq> [] \<and> \<not> ext_allowed full then Inl (BadExtension (ToLower (Ext full)))
       else (case find (\<lambda>p. os_stat fs p \<noteq> None)
               ([full] @ (if HasSuffix full ''.js'' then [] else [full @ ''.js''])
                @ map (\<lambda>d. PathJoin [root, d, cleanPath]) [''js'', ''public/js'', ''modules'']) of
               Some p \<Rightarrow> Inr p
             | None \<Rightarrow> Inl (NotFound path)))"

section \<open>What a validated path satisfies\<close>

lemma rel_inside_Some:
  assumes "abs_path root" and "abs_path full" and "rel_inside root full = Some rel"
  obtains ts where "path_comps full = path_comps root @ ts" "''..'' \<notin> set ts"
    "rel = (if ts = [] then ''.'' else Join ''/'' ts)"
proof -
  from assms(3) have "Rel root full = Some rel" "\<not> HasPrefix rel ''..''"
    by (auto simp: rel_inside_def split: option.splits if_splits)
  from Rel_inside[OF assms(1,2) this] obtain ts where
    "path_comps full = path_comps root @ ts" "rel = (if ts = [] then ''.'' else Join ''/'' ts)"
    by blast
  with abs_path_comps[OF assms(2)] that show thesis by (metis Un_iff set_append)
qed

lemma first_file_Some:
  "first_file fs ps = Some (p, i) \<Longrightarrow> p \<in> set ps \<and> os_stat fs p = Some i \<and> \<not> fi_dir i"
  by (induction ps) (auto split: option.splits if_splits)

lemma locate_Inr:
  assumes "locate fs raw full = Inr (p, i)"
  shows "os_stat fs p = Some i \<and> \<not> fi_dir i
    \<and> (p = full \<or> (p = full @ ''.js'' \<and> os_stat fs full = None)
       \<or> (p \<in> {PathJoin [full, ''main.js''], PathJoin [full, ''index.js'']}
          \<and> map_option fi_dir (os_stat fs full) = Some True))"
  using assms
  by (auto simp: locate_def split: option.splits if_splits dest!: first_file_Some
      simp del: PathJoin.simps)

text \<open>A component with more text behind it stays one component.\<close>

lemma Join_last: "cs \<noteq> [] \<Longrightarrow> Join sep cs @ t = Join sep (butlast cs @ [last cs @ t])"
  by (induction sep cs rule: Join.induct) auto

lemma extended_path:
  assumes "abs_path p" and "path_comps p \<noteq> []" and "slash \<notin> set t" and "t \<noteq> []"
    and "hd (rev t) \<noteq> CHR ''.''"
  shows "abs_path (p @ t)"
    and "path_comps (p @ t) = butlast (path_comps p) @ [last (path_comps p) @ t]"
proof -
  let ?cs = "butlast (path_comps p) @ [last (path_comps p) @ t]"
  have "p = ''/'' @ Join ''/'' (path_comps p)"
    using abs_path_render[OF assms(1)] by (simp add: render_def)
  then have "p @ t = ''/'' @ (Join ''/'' (path_comps p) @ t)" by (metis append.assoc)
  then have p: "p @ t = render True ?cs"
    unfolding Join_last[OF assms(2), of "''/''" t] by (simp add: render_def)
  have last: "comp_ok (last (path_comps p))" by (rule path_comps_ok[of _ p]) (simp add: assms(2))
  have t: "last (path_comps p) @ t \<noteq> ''.''" "last (path_comps p) @ t \<noteq> ''..''"
    using assms(4,5) by (metis hd_rev last_ConsL last_ConsR last_appendR list.distinct(1))+
  have ok: "comp_ok c" if "c \<in> set ?cs" for c
    using that last t assms(3) path_comps_ok[of c p] in_set_butlastD
    by (fastforce simp: comp_ok_def)
  have "''..'' \<notin> set ?cs"
    using t abs_path_comps[OF assms(1)] in_set_butlastD by fastforce
  with ok show "abs_path (p @ t)" "path_comps (p @ t) = ?cs"
    unfolding p by (blast intro: render_abs_path)+
qed

lemma Ext_js: "Ext (a @ ''.js'') = ''.js''"
  using Ext_append(2)[of "''js''" a] by simp

lemma Join_snoc: "Join sep (cs @ [c]) = (if cs = [] then c else Join sep cs @ sep @ c)"
  by (induction sep cs rule: Join.induct) auto

lemma joined_file:
  assumes "abs_path p" and "comp_ok f" and "f \<noteq> ''..''"
  shows "abs_path (PathJoin [p, f])" and "path_comps (PathJoin [p, f]) = path_comps p @ [f]"
    and "suffix f (PathJoin [p, f])"
proof -
  have f: "path_comps f = [f]" using assms(2) path_comps_Join[of "[f]"] by simp
  show 1: "abs_path (PathJoin [p, f])" by (rule PathJoin_root(1)[OF assms(1)])
  show 2: "path_comps (PathJoin [p, f]) = path_comps p @ [f]"
    using PathJoin_below[OF assms(1), of f] f assms(3) by simp
  have "PathJoin [p, f] = ''/'' @ Join ''/'' (path_comps p @ [f])"
    using abs_path_render[OF 1] unfolding 2 by (simp add: render_def)
  then show "suffix f (PathJoin [p, f])" by (auto simp: Join_snoc suffix_def)
qed

text \<open>What the located file keeps of the path it was located from.\<close>

lemma located_shape:
  assumes "abs_path full" and "ext_allowed full" and "locate fs raw full = Inr (p, i)"
  shows "abs_path p \<and> ext_allowed p
    \<and> (p = full \<or> (path_comps full \<noteq> [] \<and> os_stat fs full = None
            \<and> path_comps p = butlast (path_comps full) @ [last (path_comps full) @ ''.js''])
        \<or> (\<exists>f\<in>{''main.js'', ''index.js''}. path_comps p = path_comps full @ [f]))"
proof -
  have ne: "path_comps full \<noteq> []"
  proof
    assume "path_comps full = []"
    then have "full = ''/''" using abs_path_render[OF assms(1)] by (simp add: render_def)
    with assms(2) show False by (simp add: ext_allowed_def Ext_def ToLower_def GlobalSecurityPolicy_def)
  qed
  have js: "ext_allowed q" if "suffix ''.js'' q" for q
    using that by (auto simp: suffix_def ext_allowed_def Ext_js ToLower_def lower_char_def
        GlobalSecurityPolicy_def)
  have f: "abs_path (PathJoin [full, f]) \<and> ext_allowed (PathJoin [full, f])
      \<and> path_comps (PathJoin [full, f]) = path_comps full @ [f]"
    if "f \<in> {''main.js'', ''index.js''}" for f
    using that joined_file[OF assms(1), of f]
    by (auto simp: comp_ok_def simp del: PathJoin.simps
        intro!: js intro: suffix_order.trans[of "''.js''" f] simp: suffix_def)
  have "abs_path (full @ ''.js'') \<and> ext_allowed (full @ ''.js'')
      \<and> path_comps (full @ ''.js'') = butlast (path_comps full) @ [last (path_comps full) @ ''.js'']"
    using extended_path[OF assms(1) ne, of "''.js''"] js by (simp add: suffix_def)
  with f ne locate_Inr[OF assms(3)] assms(1,2) show ?thesis by blast
qed

lemma allowed_first:
  assumes "\<And>c. c \<in> set ts \<Longrightarrow> comp_ok c" and "rel = (if ts = [] then ''.'' else Join ''/'' ts)"
    and "subdir_allowed rel"
  shows "length ts \<le> 1 \<or> hd ts \<in> set (AllowedSubdirs GlobalSecurityPolicy)"
proof (cases "length ts \<le> 1")
  case False
  then obtain t u us where t: "ts = t # u # us" by (cases ts; cases "tl ts") auto
  with assms(2) have rel: "rel = t @ slash # Join ''/'' (u # us)" by simp
  have hd: "hd (Split slash rel) = t"
    using assms(1)[of t] t unfolding rel Split_append_sep by (simp add: Split_no_sep comp_ok_def)
  have in_rel: "slash \<in> set rel" unfolding rel by simp
  from assms(3) obtain sub where sub: "sub \<in> set (AllowedSubdirs GlobalSecurityPolicy)"
    and m: "t = sub \<or> HasPrefix rel (sub @ ''/'')"
    using hd in_rel by (auto simp: subdir_allowed_def Let_def list_ex_iff)
  have "t = hd (Split slash sub)" if "HasPrefix rel (sub @ ''/'')"
  proof -
    from that obtain z where "rel = sub @ slash # z" by (auto simp: prefix_def)
    with hd show ?thesis by (simp add: Split_append_sep)
  qed
  with sub m have "t = sub \<or> t = hd (Split slash sub)" by blast
  with sub t show ?thesis by (auto simp: GlobalSecurityPolicy_def)
qed simp

lemma located_below:
  assumes full: "abs_path full" "ext_allowed full" and loc: "locate fs raw full = Inr (p, i)"
    and ts: "path_comps full = rc @ ts" and ne: "ts \<noteq> [] \<or> os_stat fs full \<noteq> None"
    and dirs: "length ts \<le> 1 \<or> hd ts \<in> D"
  shows "\<exists>us. path_comps p = rc @ us \<and> ''..'' \<notin> set us
    \<and> (length us \<le> 1 \<or> hd us \<in> D \<or> (length us = 2 \<and> last us \<in> {''main.js'', ''index.js''}))"
proof -
  have dots: "''..'' \<notin> set (path_comps p)"
    using located_shape[OF full loc] by (intro abs_path_comps) blast
  have shape: "p = full \<or> (ts \<noteq> []
        \<and> path_comps p = butlast (path_comps full) @ [last (path_comps full) @ ''.js''])
      \<or> (\<exists>f\<in>{''main.js'', ''index.js''}. path_comps p = path_comps full @ [f])"
    using conjunct2[OF conjunct2[OF located_shape[OF full loc]]] ne by (elim disjE) simp_all
  then show ?thesis
  proof (elim disjE)
    assume "p = full"
    with ts dots dirs show ?thesis by auto
  next
    assume "\<exists>f\<in>{''main.js'', ''index.js''}. path_comps p = path_comps full @ [f]"
    then obtain f where f: "f \<in> {''main.js'', ''index.js''}" "path_comps p = rc @ (ts @ [f])"
      using ts by auto
    have "length (ts @ [f]) \<le> 1 \<or> hd (ts @ [f]) \<in> D \<or> length (ts @ [f]) = 2"
      using dirs by (cases ts; cases "tl ts") auto
    with f dots show ?thesis by (intro exI[of _ "ts @ [f]"]) auto
  next
    assume *: "ts \<noteq> []
      \<and> path_comps p = butlast (path_comps full) @ [last (path_comps full) @ ''.js'']"
    let ?us = "butlast ts @ [last ts @ ''.js'']"
    have "path_comps p = rc @ ?us" using * ts by (simp add: butlast_append)
    moreover have "length ?us \<le> 1 \<or> hd ?us \<in> D"
      using dirs * by (cases ts; cases "tl ts") auto
    ultimately show ?thesis using dots by (intro exI[of _ ?us]) auto
  qed
qed

section \<open>Properties of the validation\<close>

text \<open>
  C9. A path that passes validation names an existing regular file of at most one megabyte
  with a script extension, strictly below the project root: no \<open>..\<close> is left in it, and it
  lies in an allowed directory, directly under the root, or is the entry point of a directory
  directly under the root.
\<close>

theorem validated_path_confined:
  assumes root: "abs_path root" "os_stat fs root \<noteq> None"
    and ok: "ValidateLocalPath fs root raw = (labels, Inr p)"
  shows "\<exists>ts. path_comps p = path_comps root @ ts \<and> ''..'' \<notin> set ts
    \<and> (length ts \<le> 1 \<or> hd ts \<in> set (AllowedSubdirs GlobalSecurityPolicy)
        \<or> (length ts = 2 \<and> last ts \<in> {''main.js'', ''index.js''}))
    \<and> abs_path p \<and> ToLower (Ext p) \<in> {''.js'', ''.mjs'', ''.json''}
    \<and> (\<exists>i. os_stat fs p = Some i \<and> \<not> fi_dir i \<and> fi_size i \<le> 1048576)"
proof -
  let ?full = "PathJoin [root, clean_rel raw]"
  have full: "abs_path ?full" by (rule PathJoin_root(1)[OF root(1)])
  obtain rel i where rel: "rel_inside root ?full = Some rel" "ext_allowed ?full"
      "subdir_allowed rel" and loc: "locate fs raw ?full = Inr (p, i)"
      and size: "fi_size i \<le> MAX_IMPORT_FILE_SIZE"
    using ok by (auto simp: ValidateLocalPath_def Let_def GlobalSecurityPolicy_def
        simp del: PathJoin.simps split: if_splits option.splits sum.splits)
  obtain ts where ts: "path_comps ?full = path_comps root @ ts" "''..'' \<notin> set ts"
    "rel = (if ts = [] then ''.'' else Join ''/'' ts)" by (rule rel_inside_Some[OF root(1) full rel(1)])
  have dirs: "length ts \<le> 1 \<or> hd ts \<in> set (AllowedSubdirs GlobalSecurityPolicy)"
    by (rule allowed_first[OF _ ts(3) rel(3)]) (use ts(1) path_comps_ok[of _ ?full] in auto)
  have p: "abs_path p" "ext_allowed p" using located_shape[OF full rel(2) loc] by blast+
  have "\<exists>us. path_comps p = path_comps root @ us \<and> ''..'' \<notin> set us
    \<and> (length us \<le> 1 \<or> hd us \<in> set (AllowedSubdirs GlobalSecurityPolicy)
        \<or> (length us = 2 \<and> last us \<in> {''main.js'', ''index.js''}))"
  proof (rule located_below[OF full rel(2) loc ts(1) _ dirs])
    show "ts \<noteq> [] \<or> os_stat fs ?full \<noteq> None"
      using ts(1) root abs_path_render[OF full] abs_path_render[OF root(1)] by auto
  qed
  with p size locate_Inr[OF loc] show ?thesis
    by (auto simp: ext_allowed_def GlobalSecurityPolicy_def MAX_IMPORT_FILE_SIZE_def)
qed

text \<open>
  The fallback that appends \<open>.js\<close> never helps an import written without an extension: the
  extension check comes first and rejects every path in which no dot occurs, whatever files
  exist.
\<close>

theorem dotless_import_rejected:
  assumes root: "abs_path root" and raw: "CHR ''.'' \<notin> set (clean_rel raw)"
    "path_comps (clean_rel raw) \<noteq> []" and local: "\<not> is_remote import_schemes raw"
  shows "ValidateLocalPath fs root raw = ([''forbidden_extension''], Inl (BadExtension []))"
proof -
  let ?x = "clean_rel raw" and ?full = "PathJoin [root, clean_rel raw]"
  have nodot: "CHR ''.'' \<notin> set c" if "c \<in> set (path_comps ?x)" for c
    using that raw(1) Split_subset by (fastforce simp: path_comps_def)
  then have full: "abs_path ?full" "path_comps ?full = path_comps root @ path_comps ?x"
    using PathJoin_root(1)[OF root] PathJoin_below[OF root, of ?x] by force+
  define xs l where "xs = butlast (path_comps root @ path_comps ?x)" and "l = last (path_comps ?x)"
  have l: "CHR ''.'' \<notin> set l" "slash \<notin> set l"
    using nodot[of l] path_comps_ok[of l ?x] raw(2) by (auto simp: l_def comp_ok_def)
  have "path_comps root @ path_comps ?x = xs @ [l]"
    using raw(2) by (simp add: xs_def l_def butlast_append)
  then have "\<exists>a. ?full = a @ slash # l"
    using abs_path_render[OF full(1)] unfolding full(2)
    by (cases "xs = []") (auto simp: render_def Join_snoc)
  then have ext: "Ext ?full = []" using Ext_append(1)[OF l] by auto
  have "Rel root ?full = Some (Join ''/'' (path_comps ?x))"
    using Rel_below[OF root full] raw(2) by simp
  moreover obtain c cs where c: "path_comps ?x = c # cs" using raw(2) by (cases "path_comps ?x") auto
  moreover have "c \<noteq> []" "CHR ''.'' \<notin> set c" "slash \<notin> set c"
    using c nodot[of c] path_comps_ok[of c ?x] by (auto simp: comp_ok_def)
  ultimately have "\<exists>rel. rel_inside root ?full = Some rel"
    by (cases c) (auto simp: rel_inside_def Join_Cons simp del: PathJoin.simps)
  then show ?thesis
    using local ext
    by (auto simp: ValidateLocalPath_def Let_def ext_allowed_def GlobalSecurityPolicy_def ToLower_def
        simp del: PathJoin.simps)
qed


section \<open>The import cache\<close>

definition read_step :: "importProcessor \<Rightarrow> os \<times> string \<Rightarrow> importProcessor" where
  "read_step ip op = snd (ReadLocalFile (fst op) (snd op) ip)"

text \<open>What a read does to the cache: an accepted file that is not cached yet is stored.\<close>

definition read_effect :: "os \<times> string \<Rightarrow> importProcessor \<Rightarrow> string \<Rightarrow> string option option" where
  "read_effect op ip k =
    (if k = snd op \<and> ImportCache ip k = None
     then (case ValidateLocalPath (fst op) (ip_root ip) k of
             (_, Inr full) \<Rightarrow> (case os_read (fst op) full of Inr c \<Rightarrow> Some (Some c) | Inl _ \<Rightarrow> None)
           | _ \<Rightarrow> None)
     else None)"

lemma read_step_cache:
  "ImportCache (read_step ip op) k
     = (case read_effect op ip k of Some v \<Rightarrow> v | None \<Rightarrow> ImportCache ip k)"
  by (auto simp: read_step_def read_effect_def ReadLocalFile_def
      split: option.splits prod.splits sum.splits)

lemma ip_root_step [simp]: "ip_root (read_step ip op) = ip_root ip"
  by (auto simp: read_step_def ReadLocalFile_def split: option.splits prod.splits sum.splits)

interpretation ic: coherent_store read_step ImportCache read_effect "\<lambda>_. True"
  by unfold_locales (auto simp: read_step_cache read_effect_def
      split: option.splits if_splits prod.splits sum.splits)

lemma cached_stays:
  "ImportCache ip k = Some c \<Longrightarrow> ImportCache (foldl read_step ip ops) k = Some c"
proof (induction ops arbitrary: ip)
  case (Cons op ops)
  have "ImportCache (read_step ip op) k = Some c"
    using Cons.prems by (simp add: read_step_cache read_effect_def)
  from Cons.IH[OF this] show ?case by simp
qed simp

text \<open>
  Once an import has been read, every later read of the same path returns the same text,
  whatever is read in between and however the file system changes: the file may be edited,
  deleted or grow past the size limit.
\<close>

theorem import_cache_never_refreshes:
  assumes "ReadLocalFile fs raw ip = ((labels, Inr content), ip')"
  shows "fst (ReadLocalFile fs' raw (foldl read_step ip' reads)) = ([], Inr content)"
proof -
  have "ImportCache ip' raw = Some content"
    using assms by (auto simp: ReadLocalFile_def split: option.splits prod.splits sum.splits)
  then show ?thesis by (simp add: ReadLocalFile_def cached_stays)
qed

lemma validated_labels: "ValidateLocalPath fs root raw = (labels, Inr p) \<Longrightarrow> labels = []"
  by (auto simp: ValidateLocalPath_def Let_def simp del: PathJoin.simps
      split: if_splits option.splits sum.splits)

text \<open>
  C26. What a processor that starts empty ever returns without touching the file system was
  stored by the last effective read of that path, which validated it then.
\<close>

theorem import_cache_sound:
  assumes "ImportCache (foldl read_step (NewImportProcessor root) reads) k = Some c"
  shows "\<exists>fs full. (fs, k) \<in> set reads \<and> ValidateLocalPath fs root k = ([], Inr full)
    \<and> os_read fs full = Inr c"
proof -
  have go: "\<exists>fs full. (fs, k) \<in> set ops \<and> (\<exists>ls. ValidateLocalPath fs (ip_root ip) k = (ls, Inr full))
      \<and> os_read fs full = Inr c" if "ic.last_effect ip ops k = Some (Some c)" for ip ops
    using that
  proof (induction ops arbitrary: ip)
    case (Cons op ops)
    show ?case
    proof (cases "ic.last_effect (read_step ip op) ops k")
      case None
      with Cons.prems have "read_effect op ip k = Some (Some c)" by simp
      then show ?thesis
        by (intro exI[of _ "fst op"])
           (auto simp: read_effect_def split: if_splits prod.splits sum.splits)
    next
      case (Some e)
      with Cons.prems Cons.IH[of "read_step ip op"] show ?thesis by auto
    qed
  qed simp
  have "ic.last_effect (NewImportProcessor root) reads k = Some (Some c)"
    using ic.lookup_run[OF TrueI assms] by (auto simp: NewImportProcessor_def)
  from go[OF this] validated_labels show ?thesis by (fastforce simp: NewImportProcessor_def)
qed

section \<open>Resolving script paths\<close>

lemma find_Some_mem: "find P xs = Some x \<Longrightarrow> x \<in> set xs \<and> P x"
  by (auto simp: find_Some_iff)

lemma PathJoin_three:
  assumes "abs_path root" and "d \<noteq> []"
  shows "path_comps (PathJoin [root, d, x])
      = resolve True (rev (path_comps root)) (path_comps d @ path_comps x)"
proof -
  have "root \<noteq> []" using assms(1) by (auto simp: abs_path_def)
  then have "PathJoin [root, d, x] = PathJoin [root, d @ ''/'' @ x]"
    using assms(2) by simp
  then show ?thesis using PathJoin_root(2)[OF assms(1)] by (simp only: path_comps_append)
qed

text \<open>
  C23. A path without \<open>..\<close> components resolves, if it resolves, to an existing file below the
  project root.
\<close>

theorem resolved_path_confined:
  assumes root: "abs_path root" "os_stat fs root \<noteq> None"
    and ok: "ResolveLocalPath fs root path = Inr p"
    and dots: "''..'' \<notin> set (path_comps (clean_rel path))"
  shows "os_stat fs p \<noteq> None \<and> (\<exists>ts. path_comps p = path_comps root @ ts \<and> ''..'' \<notin> set ts)"
proof -
  let ?x = "clean_rel path" and ?full = "PathJoin [root, clean_rel path]"
  have full: "abs_path ?full" "path_comps ?full = path_comps root @ path_comps ?x"
    using PathJoin_root(1)[OF root(1)] PathJoin_below[OF root(1) dots] by blast+
  obtain ps where find: "find (\<lambda>p. os_stat fs p \<noteq> None) (?full # ps) = Some p"
    and ps: "set ps \<subseteq> {?full @ ''.js''}
      \<union> (\<lambda>d. PathJoin [root, d, ?x]) ` {''js'', ''public/js'', ''modules''}"
    using ok
    by (auto simp: ResolveLocalPath_def Let_def simp del: PathJoin.simps find.simps
        split: if_splits option.splits)
  have stat: "os_stat fs p \<noteq> None" using find_Some_mem[OF find] by simp
  consider "p = ?full" | "os_stat fs ?full = None" "p = ?full @ ''.js''"
    | d where "d \<in> {''js'', ''public/js'', ''modules''}" "p = PathJoin [root, d, ?x]"
    using find ps find_Some_mem[of _ ps p] by (auto simp del: PathJoin.simps split: if_splits)
  then show ?thesis
  proof cases
    case 1
    with stat full dots show ?thesis by auto
  next
    case 2
    have ne: "path_comps ?x \<noteq> []"
      using 2(1) root full abs_path_render[OF full(1)] abs_path_render[OF root(1)] by auto
    have "path_comps p = path_comps root @ (butlast (path_comps ?x) @ [last (path_comps ?x) @ ''.js''])"
      using extended_path(2)[OF full(1), of "''.js''"] ne unfolding 2(2) full(2)
      by (simp add: butlast_append)
    moreover have "abs_path p" using extended_path(1)[OF full(1), of "''.js''"] ne full(2)
      unfolding 2(2) by simp
    ultimately show ?thesis using stat abs_path_comps[of p] by auto
  next
    case (3 d)
    have d: "d \<noteq> []" "''..'' \<notin> set (path_comps d)" using 3(1) by (auto simp: path_comps_def)
    with dots have "path_comps p = path_comps root @ (path_comps d @ path_comps ?x)"
      unfolding 3(2) PathJoin_three[OF root(1) d(1)] by (simp add: resolve_plain)
    with stat d dots show ?thesis by auto
  qed
qed

text \<open>
  C24. With \<open>..\<close> components the last fallback leaves the project: the traversal check is made
  on the path joined to the root, but the candidates are joined to a subdirectory of it, one
  level deeper.
\<close>

theorem resolve_fallback_escapes:
  assumes "os_stat fs ''/a/b/x.js'' = None" and "os_stat fs ''/a/a/b/x.js'' = Some i"
  shows "ResolveLocalPath fs ''/a/b'' ''../../a/b/x.js'' = Inr ''/a/a/b/x.js''
    \<and> rel_inside ''/a/b'' ''/a/a/b/x.js'' = None"
proof -
  have clean: "clean_rel ''../../a/b/x.js'' = ''../../a/b/x.js''"
    "is_remote url_schemes ''../../a/b/x.js'' = False" by code_simp+
  have join: "PathJoin [''/a/b'', ''../../a/b/x.js''] = ''/a/b/x.js''"
    "PathJoin [''/a/b'', ''js'', ''../../a/b/x.js''] = ''/a/a/b/x.js''" by code_simp+
  have inside: "rel_inside ''/a/b'' ''/a/b/x.js'' = Some ''x.js''"
    "rel_inside ''/a/b'' ''/a/a/b/x.js'' = None" "ext_allowed ''/a/b/x.js''" by code_simp+
  have "suffix ''.js'' ''/a/b/x.js''" by code_simp
  then show ?thesis
    using assms inside by (simp add: ResolveLocalPath_def clean join del: PathJoin.simps)
qed

section \<open>Witnesses\<close>

definition demo_fs :: os where
  "demo_fs = \<lparr>os_stat = (\<lambda>p. if p = ''/srv'' then Some \<lparr>fi_size = 0, fi_dir = True\<rparr>
       else if p = ''/srv/js/a.js'' then Some \<lparr>fi_size = 10, fi_dir = False\<rparr> else None),
     os_read = (\<lambda>p. Inr ''x'')\<rparr>"

lemma srv_abs: "abs_path ''/srv''"
  unfolding abs_path_def by code_simp

lemma demo_validate: "ValidateLocalPath demo_fs ''/srv'' ''./js/a.js'' = ([], Inr ''/srv/js/a.js'')"
  by code_simp

lemma validated_path_confined_witness: "abs_path ''/srv/js/a.js''"
proof -
  have "os_stat demo_fs ''/srv'' \<noteq> None" by (simp add: demo_fs_def)
  from validated_path_confined[OF srv_abs this demo_validate] show ?thesis by blast
qed

lemma dotless_import_rejected_witness:
  "snd (ValidateLocalPath demo_fs ''/srv'' ''js/utils'') = Inl (BadExtension [])"
proof -
  have "CHR ''.'' \<notin> set (clean_rel ''js/utils'')" "path_comps (clean_rel ''js/utils'') \<noteq> []"
    "\<not> is_remote import_schemes ''js/utils''" by code_simp+
  from dotless_import_rejected[OF srv_abs this, of demo_fs] show ?thesis by simp
qed


lemma import_cache_never_refreshes_witness:
  "fst (ReadLocalFile \<lparr>os_stat = (\<lambda>_. None), os_read = (\<lambda>_. Inl [])\<rparr> ''./js/a.js''
     (snd (ReadLocalFile demo_fs ''./js/a.js'' (NewImportProcessor ''/srv'')))) = ([], Inr ''x'')"
proof -
  have "ReadLocalFile demo_fs ''./js/a.js'' (NewImportProcessor ''/srv'')
      = (([], Inr ''x''), snd (ReadLocalFile demo_fs ''./js/a.js'' (NewImportProcessor ''/srv'')))"
    using demo_validate by (simp add: ReadLocalFile_def NewImportProcessor_def demo_fs_def)
  from import_cache_never_refreshes[OF this, of _ "[]"] show ?thesis by simp
qed

lemma import_cache_sound_witness:
  "\<exists>fs full. (fs, ''./js/a.js'') \<in> set [(demo_fs, ''./js/a.js'')]
    \<and> ValidateLocalPath fs ''/srv'' ''./js/a.js'' = ([], Inr full) \<and> os_read fs full = Inr ''x''"
  by (rule import_cache_sound)
     (use demo_validate in \<open>simp add: read_step_def ReadLocalFile_def NewImportProcessor_def demo_fs_def\<close>)

lemma resolved_path_confined_witness: "os_stat demo_fs ''/srv/js/a.js'' \<noteq> None"
proof -
  have "ResolveLocalPath demo_fs ''/srv'' ''a.js'' = Inr ''/srv/js/a.js''"
    "''..'' \<notin> set (path_comps (clean_rel ''a.js''))" by code_simp+
  from resolved_path_confined[OF srv_abs _ this] show ?thesis by (simp add: demo_fs_def)
qed

lemma resolve_fallback_escapes_witness:
  "ResolveLocalPath \<lparr>os_stat = (\<lambda>p. if p = ''/a/a/b/x.js'' then Some \<lparr>fi_size = 1, fi_dir = False\<rparr>
     else None), os_read = (\<lambda>_. Inl [])\<rparr> ''/a/b'' ''../../a/b/x.js'' = Inr ''/a/a/b/x.js''"
  by (rule conjunct1[OF resolve_fallback_escapes]) simp_all

end
