(* ===== verification/Imports.thy ===== *)
theory Imports
  imports Security
begin

text \<open>
  \<^verbatim>\<open>internal/imports/import_processor.go\<close>: rewriting the script tags of a page.  The state is
  the security processor with its cache and the labels counted by \<^verbatim>\<open>IncSecurityBlocked\<close>.
  The patterns are those of the source; \<open>GoRegexp\<close> says how they are matched.
\<close>

section \<open>State and patterns\<close>

record importState =
  securityProcessor :: importProcessor
  blocked :: "string list"

definition new_ImportProcessor :: "string \<Rightarrow> importState" where
  "new_ImportProcessor root = \<lparr>securityProcessor = NewImportProcessor root, blocked = []\<rparr>"

definition block :: "string \<Rightarrow> importState \<Rightarrow> importState" where
  "block label st = st\<lparr>blocked := blocked st @ [label]\<rparr>"

abbreviation any_lazy :: regex where "any_lazy \<equiv> Star False (Cls True [])"
abbreviation quote_re :: regex where "quote_re \<equiv> Cls False quotes"
abbreviation quoted_re :: regex where "quoted_re \<equiv> plus (Cls True quotes)"
abbreviation no_gt :: regex where "no_gt \<equiv> star (Cls True ''>'')"

definition re_script :: regex where
  "re_script = seqs [lit ''<script'', WordB, no_gt, lit ''>'', star sp,
     Grp 1 (seqs [any_lazy, lit ''import'', plus sp, lit ''{'', plus (Cls True ''}''), lit ''}'',
       plus sp, lit ''from'', plus sp, quote_re, quoted_re, quote_re, any_lazy]),
     star sp, lit ''</script>'']"

definition blank :: regex where "blank = star (Cls False [CHR 0x20, CHR 0x09])"

definition re_import_line :: regex where
  "re_import_line = seqs [Bol, blank, lit ''import'', plus sp, lit ''{'',
     Grp 1 (plus (Cls True ''}'')), lit ''}'', plus sp, lit ''from'', plus sp, quote_re,
     Grp 2 quoted_re, quote_re, star sp, opt (lit '';''), blank, Eol]"

definition re_to_call :: regex where
  "re_to_call = seqs [lit ''<script'', plus sp, lit ''to-call='', quote_re, Grp 1 quoted_re, quote_re,
     star sp, opt no_gt, lit ''>'', star sp, lit ''</script>'']"

definition re_script_src :: regex where
  "re_script_src = seqs [ci_lit ''<script'', plus sp, Grp 1 (Star False (Cls True ''>'')),
     ci_lit ''src='', quote_re, Grp 2 (Seq quoted_re (ci_lit ''.js'')), quote_re,
     Grp 3 (Star False (Cls True ''>'')), Grp 4 (Alt (ci_lit ''ls-ws'') (ci_lit ''ls'')), star sp,
     Star False (Cls True ''>''), lit ''>'', star sp, ci_lit ''</script>'']"

section \<open>Import lines\<close>

definition parseImportSpecifiers :: "string \<Rightarrow> string list" where
  "parseImportSpecifiers raw =
     filter (\<lambda>s. s \<noteq> []) (map TrimSpace (Split CHR '','' (TrimSpace raw)))"

definition nl :: string where "nl = [CHR 0x0A]"
definition sq :: string where "sq = [CHR 0x27]"
definition dq :: string where "dq = [CHR 0x22]"

text \<open>The lines that publish one imported name.\<close>

definition export_lines :: "string \<Rightarrow> string" where
  "export_lines spec =
     ''  if (typeof module.exports['' @ sq @ spec @ sq @ ''] !== '' @ sq @ ''undefined'' @ sq
       @ '') { window['' @ sq @ spec @ sq @ ''] = module.exports['' @ sq @ spec @ sq @ '']; }'' @ nl
     @ ''  else if (typeof exports['' @ sq @ spec @ sq @ ''] !== '' @ sq @ ''undefined'' @ sq
       @ '') { window['' @ sq @ spec @ sq @ ''] = exports['' @ sq @ spec @ sq @ '']; }'' @ nl
     @ ''  else if (typeof '' @ spec @ '' !== '' @ sq @ ''undefined'' @ sq
       @ '') { window['' @ sq @ spec @ sq @ ''] = '' @ spec @ ''; }'' @ nl"

definition import_all_text :: "string \<Rightarrow> string \<Rightarrow> string" where
  "import_all_text sourcePath content =
     ''// === import {all} from '' @ dq @ sourcePath @ dq @ '' ==='' @ nl @ content @ nl
     @ ''// === fin import {all} ===''"

definition import_some_text :: "string \<Rightarrow> string \<Rightarrow> string list \<Rightarrow> string" where
  "import_some_text sourcePath content specifiers =
     ''// === import {'' @ Join '', '' specifiers @ ''} from '' @ dq @ sourcePath @ dq @ '' ==='' @ nl
     @ ''(function() {'' @ nl @ ''  var module = { exports: {} };'' @ nl
     @ ''  var exports = module.exports;'' @ nl @ content @ nl
     @ concat (map export_lines (filter (\<lambda>s. s \<noteq> []) (map TrimSpace specifiers)))
     @ ''})();'' @ nl @ ''// === fin import {'' @ Join '', '' specifiers @ ''} ===''"

text \<open>Errors are their text; the depth is restored by the deferred call on every path.\<close>

definition resolveImport :: "os \<Rightarrow> string \<Rightarrow> string list \<Rightarrow> importContext \<Rightarrow> importState
    \<Rightarrow> (string + string) \<times> importContext \<times> importState" where
  "resolveImport fs sourcePath specifiers ctx st =
    (if GetDepth ctx \<ge> MaxImportDepth GlobalSecurityPolicy
     then (Inl (''profundidad m'' @ [CHR 0xC3, CHR 0xA1] @ ''xima de imports alcanzada (''
             @ show_int (MaxImportDepth GlobalSecurityPolicy) @ '')''), ctx, st)
     else case CheckAndMarkVisited sourcePath ctx of
       (True, ctx1) \<Rightarrow> (Inr (''// (ya importado: '' @ sourcePath @ '')''), ctx1, st)
     | (False, ctx1) \<Rightarrow>
         (let ctx2 = DecrementDepth (IncrementDepth ctx1) in
          case ReadLocalFile fs sourcePath (securityProcessor st) of
            ((labels, r), sp') \<Rightarrow>
              (let st1 = st\<lparr>securityProcessor := sp', blocked := blocked st @ labels\<rparr> in
               case r of
                 Inl e \<Rightarrow> (Inl (error_text e), ctx2, st1)
               | Inr content \<Rightarrow>
                   (case ValidateScriptContent content of
                      (labels', Inl e) \<Rightarrow>
                        (Inl (''contenido rechazado de '' @ sourcePath @ '': '' @ error_text e), ctx2,
                         st1\<lparr>blocked := blocked st1 @ labels'\<rparr>)
                    | (_, Inr _) \<Rightarrow>
                        (Inr (if list_ex (\<lambda>s. s = ''all'' \<or> s = ''*'') specifiers
                              then import_all_text sourcePath content
                              else import_some_text sourcePath content specifiers), ctx2, st1)))))"

section \<open>Script blocks\<close>

record scriptAcc =
  injected :: "string list"
  codeLines :: "string list"
  acc_ctx :: importContext
  acc_state :: importState

definition import_step :: "os \<Rightarrow> string \<Rightarrow> string \<Rightarrow> scriptAcc \<Rightarrow> scriptAcc" where
  "import_step fs importsRaw sourcePath0 a =
    (let sourcePath = TrimSpace sourcePath0; (count, ctx) = IncrementCount (acc_ctx a);
         a = a\<lparr>acc_ctx := ctx\<rparr>; lower = ToLower sourcePath
     in if count > MaxImportsPerFile GlobalSecurityPolicy
        then a\<lparr>injected := injected a @ [''// BLOQUEADO: import #'' @ show_int count @ '' excede el l''
               @ i_acute @ ''mite'']\<rparr>
        else if list_ex (HasPrefix lower) url_schemes
        then a\<lparr>acc_state := block ''remote_import_attempt'' (acc_state a),
               injected := injected a @ [''// BLOCKED FOR SECURITY: remote import not allowed (''
                 @ sourcePath @ '')'']\<rparr>
        else case resolveImport fs sourcePath (parseImportSpecifiers importsRaw) (acc_ctx a)
                    (acc_state a) of
               (Inl e, ctx, st) \<Rightarrow> a\<lparr>acc_ctx := ctx, acc_state := st,
                 injected := injected a @ [''// ERROR loading import '' @ sq @ sourcePath @ sq @ '': '' @ e]\<rparr>
             | (Inr code, ctx, st) \<Rightarrow> a\<lparr>acc_ctx := ctx, acc_state := st, injected := injected a @ [code]\<rparr>)"

definition line_step :: "os \<Rightarrow> scriptAcc \<Rightarrow> string \<Rightarrow> scriptAcc" where
  "line_step fs a line =
    (let trimmed = TrimSpace line in
     if trimmed = [] then a
     else case FindSubmatch re_import_line trimmed of
            Some c \<Rightarrow> import_step fs (group c 1) (group c 2) a
          | None \<Rightarrow> a\<lparr>codeLines := codeLines a @ [line]\<rparr>)"

definition render_block :: "scriptAcc \<Rightarrow> string" where
  "render_block a =
    (let userCode = TrimSpace (Join nl (codeLines a))
     in ''<script>'' @ nl @ concat (map (\<lambda>part. part @ nl) (injected a))
        @ (if userCode \<noteq> []
           then ''// --- c'' @ o_acute @ ''digo del bloque script ---'' @ nl @ ''(function() {'' @ nl
             @ userCode @ nl @ ''})();'' @ nl
           else [])
        @ ''</script>'')"

definition processScriptBlock :: "os \<Rightarrow> string \<Rightarrow> importState \<Rightarrow> string \<times> importState" where
  "processScriptBlock fs scriptContent st =
    (let a = foldl (line_step fs)
       \<lparr>injected = [], codeLines = [], acc_ctx = NewImportContext, acc_state = st\<rparr>
       (Split CHR 0x0A scriptContent)
     in (render_block a, acc_state a))"

text \<open>The counter of \<open>ProcessImports\<close> counts script blocks.\<close>

definition ProcessImports :: "os \<Rightarrow> string \<Rightarrow> importState \<Rightarrow> string \<times> importState" where
  "ProcessImports fs htmlContent st =
    (case ReplaceAllStringFunc re_script
       (\<lambda>match c (n, st).
          case FindSubmatch re_script match of
            None \<Rightarrow> (match, (n, st))
          | Some sub \<Rightarrow>
              (let n = n + 1 in
               if n > MaxImportsPerFile GlobalSecurityPolicy
               then (''<!-- BLOQUEADO: demasiados imports en este archivo -->'',
                     (n, block ''too_many_imports'' st))
               else case processScriptBlock fs (group sub 1) st of (s, st) \<Rightarrow> (s, (n, st))))
       htmlContent (0 :: int, st) of
       (html, (_, st')) \<Rightarrow> (html, st'))"

section \<open>Script tags\<close>

definition to_call_text :: "os \<Rightarrow> string \<Rightarrow> string \<Rightarrow> string \<times> string list" where
  "to_call_text fs root filePath =
    (if list_ex (HasPrefix (ToLower filePath)) url_schemes
     then (''<!-- BLOQUEADO: to-call remoto no permitido ('' @ filePath @ '') -->'', [''remote_to_call''])
     else case ResolveLocalPath fs root filePath of
       Inl e \<Rightarrow> (''<!-- Error: '' @ error_text e @ '' -->'', [])
     | Inr full \<Rightarrow>
         (case os_read fs full of
            Inl _ \<Rightarrow> (''<!-- Error: no se pudo cargar '' @ filePath @ '' -->'', [])
          | Inr data \<Rightarrow>
              (case ValidateScriptContent data of
                 (labels, Inl _) \<Rightarrow>
                   (''<!-- BLOQUEADO: contenido peligroso en '' @ filePath @ '' -->'',
                    labels @ [''blocked_content_to_call''])
               | (_, Inr _) \<Rightarrow>
                   (''<script>'' @ nl @ ''// Contenido incluido desde '' @ filePath @ nl @ data @ nl
                    @ ''</script>'', []))))"

definition ProcessToCallTags :: "os \<Rightarrow> string \<Rightarrow> string \<Rightarrow> string \<times> string list" where
  "ProcessToCallTags fs content root =
     ReplaceAllStringFunc re_to_call
       (\<lambda>match _ ls. case FindSubmatch re_to_call match of
          None \<Rightarrow> (match, ls)
        | Some c \<Rightarrow> (case to_call_text fs root (group c 1) of (s, l) \<Rightarrow> (s, ls @ l)))
       content []"

definition ws_wrapper :: "string \<Rightarrow> string \<Rightarrow> string" where
  "ws_wrapper filePath js =
     ''<script>'' @ nl @ ''// ls-ws: '' @ filePath @ nl
     @ ''(function() {'' @ nl
     @ ''  function _runWhenReady(fn) {'' @ nl
     @ ''    if (typeof ls !== '' @ sq @ ''undefined'' @ sq @ '' && typeof ls.fs !== '' @ sq
       @ ''undefined'' @ sq @ '') {'' @ nl
     @ ''      fn();'' @ nl
     @ ''    } else {'' @ nl
     @ ''      var _check = setInterval(function() {'' @ nl
     @ ''        if (typeof ls !== '' @ sq @ ''undefined'' @ sq @ '' && typeof ls.fs !== '' @ sq
       @ ''undefined'' @ sq @ '') {'' @ nl
     @ ''          clearInterval(_check);'' @ nl
     @ ''          fn();'' @ nl
     @ ''        }'' @ nl
     @ ''      }, 50);'' @ nl
     @ ''    }'' @ nl
     @ ''  }'' @ nl
     @ ''  _runWhenReady(function() {'' @ nl
     @ js @ nl
     @ ''  });'' @ nl
     @ ''})();'' @ nl
     @ ''</script>''"

definition script_src_text :: "os \<Rightarrow> string \<Rightarrow> string \<Rightarrow> string \<Rightarrow> string \<times> string list" where
  "script_src_text fs root filePath variant =
    (if list_ex (HasPrefix (ToLower filePath)) url_schemes
     then (''<!-- BLOQUEADO: script-ls remoto no permitido ('' @ filePath @ '') -->'',
           [''remote_script_src_ls''])
     else case ResolveLocalPath fs root filePath of
       Inl e \<Rightarrow> (''<!-- Error cargando ls-script '' @ filePath @ '': '' @ error_text e @ '' -->'', [])
     | Inr full \<Rightarrow>
         (case os_read fs full of
            Inl _ \<Rightarrow> (''<!-- Error leyendo ls-script '' @ filePath @ '' -->'', [])
          | Inr js \<Rightarrow>
              (case ValidateScriptContent js of
                 (labels, Inl _) \<Rightarrow>
                   (''<!-- BLOQUEADO: contenido peligroso en '' @ filePath @ '' -->'',
                    labels @ [''script_content_blocked''])
               | (_, Inr _) \<Rightarrow>
                   (if variant = ''ls-ws'' then ws_wrapper filePath js
                    else ''<script>'' @ nl @ ''// ls-script: '' @ filePath @ nl @ js @ nl @ ''</script>'', []))))"

definition ProcessScriptSrcLS :: "os \<Rightarrow> string \<Rightarrow> string \<Rightarrow> string \<times> string list" where
  "ProcessScriptSrcLS fs htmlContent root =
     ReplaceAllStringFunc re_script_src
       (\<lambda>match _ ls. case FindSubmatch re_script_src match of
          None \<Rightarrow> (match, ls)
        | Some c \<Rightarrow> (case script_src_text fs root (group c 2) (ToLower (group c 4)) of
                      (s, l) \<Rightarrow> (s, ls @ l)))
       htmlContent []"

section \<open>Properties\<close>

text \<open>
  An import marks its path as imported before it is read, and restores the depth on every
  path: a second import of the same path in the block, even after a failed one, is answered
  with a comment, reads nothing and changes nothing.
\<close>

theorem import_resolved_once:
  assumes "GetDepth ctx < 5" and "resolveImport fs path specs ctx st = (r, ctx', st')"
  shows "Depth ctx' = Depth ctx \<and> Visited ctx' = insert path (Visited ctx)
    \<and> resolveImport fs2 path specs2 ctx' st2 = (Inr (''// (ya importado: '' @ path @ '')''), ctx', st2)"
proof -
  have "Depth ctx' = Depth ctx \<and> Visited ctx' = insert path (Visited ctx)"
    using assms
    by (auto simp: resolveImport_def CheckAndMarkVisited_def IncrementDepth_def DecrementDepth_def
        Let_def GlobalSecurityPolicy_def MAX_IMPORT_DEPTH_def GetDepth_def
        split: if_splits prod.splits sum.splits)
  with assms(1) show ?thesis
    by (simp add: resolveImport_def CheckAndMarkVisited_def GlobalSecurityPolicy_def
        MAX_IMPORT_DEPTH_def GetDepth_def)
qed

text \<open>The depth is zero at every line of a block, so the depth limit never takes effect.\<close>

lemma resolve_depth: "resolveImport fs path specs ctx st = (r, ctx', st') \<Longrightarrow> Depth ctx' = Depth ctx"
  by (auto simp: resolveImport_def CheckAndMarkVisited_def IncrementDepth_def DecrementDepth_def
      Let_def split: if_splits prod.splits sum.splits)

lemma line_step_depth: "Depth (acc_ctx (line_step fs a line)) = Depth (acc_ctx a)"
proof -
  have "Depth (acc_ctx (import_step fs x y a)) = Depth (acc_ctx a)" for x y
    by (auto simp: import_step_def Let_def IncrementCount_def dest: resolve_depth
        split: prod.split sum.split)
  then show ?thesis by (simp add: line_step_def Let_def split: option.split)
qed

lemma depth_never_grows: "Depth (acc_ctx (foldl (line_step fs) a lines)) = Depth (acc_ctx a)"
  by (induction lines arbitrary: a) (simp_all add: line_step_depth)

text \<open>A page in which a plain script comes before one with an import.\<close>

definition two_scripts :: string where
  "two_scripts = ''<script>f()</script>'' @ nl @ ''<b>'' @ nl @ ''<script>'' @ nl @ ''import {x} from ''
     @ sq @ ''y'' @ sq @ nl @ ''</script>''"

definition swallowed :: string where
  "swallowed = ''f()</script>'' @ nl @ ''<b>'' @ nl @ ''<script>'' @ nl @ ''import {x} from ''
     @ sq @ ''y'' @ sq"

lemma two_scripts_match:
  "mt re_script [] two_scripts [] \<noteq> []
   \<and> (case hd (mt re_script [] two_scripts []) of (l, r, c) \<Rightarrow> r = [] \<and> group c 1 = swallowed)"
  by code_simp

lemma swallowed_lines:
  "map (\<lambda>l. (TrimSpace l = [], map_option (\<lambda>c. (group c 1, TrimSpace (group c 2)))
     (FindSubmatch re_import_line (TrimSpace l)), l)) (Split CHR 0x0A swallowed)
   = [(False, None, ''f()</script>''), (False, None, ''<b>''), (False, None, ''<script>''),
      (False, Some (''x'', ''y''), ''import {x} from '' @ sq @ ''y'' @ sq)]"
  by code_simp

lemma import_step_lines:
  "\<exists>part. injected (import_step fs x y a) = injected a @ [part]
     \<and> codeLines (import_step fs x y a) = codeLines a"
  by (auto simp: import_step_def Let_def split: prod.split sum.split)

lemma swallowed_block:
  "\<exists>part. fst (processScriptBlock fs swallowed st) =
     ''<script>'' @ nl @ part @ nl @ ''// --- c'' @ o_acute @ ''digo del bloque script ---'' @ nl
     @ ''(function() {'' @ nl @ ''f()</script>'' @ nl @ ''<b>'' @ nl @ ''<script>'' @ nl @ ''})();'' @ nl
     @ ''</script>''"
proof -
  let ?imp = "''import {x} from '' @ sq @ ''y'' @ sq"
  have lines: "Split CHR 0x0A swallowed = [''f()</script>'', ''<b>'', ''<script>'', ?imp]"
    using arg_cong[OF swallowed_lines, of "map (\<lambda>(a, b, l). l)"] by (simp add: o_def)
  note facts = swallowed_lines[unfolded lines]
  have code: "line_step fs a l = a\<lparr>codeLines := codeLines a @ [l]\<rparr>"
    if "l \<in> {''f()</script>'', ''<b>'', ''<script>''}" for a l
    using facts that by (auto simp: line_step_def Let_def)
  obtain c where "TrimSpace ?imp \<noteq> []" "FindSubmatch re_import_line (TrimSpace ?imp) = Some c"
    using facts by auto
  then have imp: "line_step fs a ?imp = import_step fs (group c 1) (group c 2) a" for a
    by (simp add: line_step_def Let_def)
  let ?a = "\<lparr>injected = [], codeLines = [''f()</script>'', ''<b>'', ''<script>''],
    acc_ctx = NewImportContext, acc_state = st\<rparr>"
  obtain part where p: "injected (import_step fs (group c 1) (group c 2) ?a) = [part]"
    "codeLines (import_step fs (group c 1) (group c 2) ?a) = [''f()</script>'', ''<b>'', ''<script>'']"
    using import_step_lines[of fs "group c 1" "group c 2" ?a] by auto
  have trim: "TrimSpace (Join nl [''f()</script>'', ''<b>'', ''<script>''])
      = ''f()</script>'' @ nl @ ''<b>'' @ nl @ ''<script>''" by code_simp
  have "foldl (line_step fs)
      \<lparr>injected = [], codeLines = [], acc_ctx = NewImportContext, acc_state = st\<rparr>
      [''f()</script>'', ''<b>'', ''<script>'', ?imp] = import_step fs (group c 1) (group c 2) ?a"
    by (simp only: foldl.simps imp) (simp add: code)
  then have "processScriptBlock fs swallowed st = (render_block (import_step fs (group c 1) (group c 2) ?a),
      acc_state (import_step fs (group c 1) (group c 2) ?a))"
    unfolding processScriptBlock_def lines Let_def by simp
  then show ?thesis
    unfolding render_block_def p trim Let_def fst_conv by (intro exI[of _ part]) simp
qed


section \<open>Witnesses\<close>

lemma import_resolved_once_witness:
  "resolveImport demo_fs ''./js/a.js'' [''x''] (fst (snd (resolveImport demo_fs ''./js/a.js'' [''x'']
      NewImportContext (new_ImportProcessor ''/srv'')))) (new_ImportProcessor ''/srv'')
   = (Inr ''// (ya importado: ./js/a.js)'', fst (snd (resolveImport demo_fs ''./js/a.js'' [''x'']
      NewImportContext (new_ImportProcessor ''/srv''))), new_ImportProcessor ''/srv'')"
proof -
  have depth: "GetDepth NewImportContext < 5" by (simp add: GetDepth_def NewImportContext_def)
  obtain r ctx st where e: "resolveImport demo_fs ''./js/a.js'' [''x''] NewImportContext
      (new_ImportProcessor ''/srv'') = (r, ctx, st)" by (rule prod_cases3)
  from import_resolved_once[OF depth e, of demo_fs "[''x'']" "new_ImportProcessor ''/srv''"] e
  show ?thesis by simp
qed

end
