(* ===== verification/ClusterManager.thy ===== *)
theory ClusterManager
  imports Prelude
begin

text \<open>
  \<^verbatim>\<open>internal/cluster/cluster.go\<close>: the worker processes and the goroutine that watches them.
  The read-write mutex is explicit: it is the subject of the component.  A step is what one
  goroutine does between two synchronisation points; processes may die at any time.
\<close>

section \<open>State\<close>

text \<open>
  The monitor waits for its ticker, scans (holding the read lock) at an index, wants the write
  lock inside \<open>restartWorker\<close>, or has returned.  \<open>Stop\<close> has not been called, has closed the
  channel and wants the write lock, or has returned.
\<close>

datatype monitor = NotStarted | Waiting | Scanning nat | WantsLock nat | MonitorDone

datatype stopper = NotCalled | Closing | StopDone

record clusterManager =
  cl_workers :: "nat option list"
  master :: bool
  stop_closed :: bool
  readers :: nat
  writer :: bool
  monitor_pc :: monitor
  stop_pc :: stopper
  dead :: "nat set"

definition NewClusterManager :: clusterManager where
  "NewClusterManager = \<lparr>cl_workers = [], master = True, stop_closed = False, readers = 0,
     writer = False, monitor_pc = NotStarted, stop_pc = NotCalled, dead = {}\<rparr>"

section \<open>Operations\<close>

text \<open>
  The loop of \<open>StartWorkers\<close>: \<open>spawn i\<close> is the process id of a started worker, \<^const>\<open>None\<close>
  an error, which ends the loop and the call; the workers started so far stay.
\<close>

fun start_loop :: "(nat \<Rightarrow> nat option) \<Rightarrow> nat \<Rightarrow> nat \<Rightarrow> nat option list \<Rightarrow> bool \<times> nat option list" where
  "start_loop spawn i 0 ws = (True, ws)"
| "start_loop spawn i (Suc n) ws =
     (case spawn i of None \<Rightarrow> (False, ws) | Some p \<Rightarrow> start_loop spawn (Suc i) n (ws @ [Some p]))"

definition StartWorkers :: "(nat \<Rightarrow> nat option) \<Rightarrow> nat \<Rightarrow> clusterManager \<Rightarrow> bool \<times> clusterManager" where
  "StartWorkers spawn count cm =
    (case start_loop spawn 0 count (cl_workers cm) of
       (ok, ws) \<Rightarrow>
         (ok, cm\<lparr>cl_workers := ws, monitor_pc := (if ok then Waiting else monitor_pc cm)\<rparr>))"

text \<open>The body of \<open>restartWorker\<close> once it holds the lock; \<open>fresh\<close> is the new process, if any.\<close>

definition restart_body :: "nat option \<Rightarrow> nat \<Rightarrow> clusterManager \<Rightarrow> clusterManager" where
  "restart_body fresh i cm =
    (if i \<ge> length (cl_workers cm) then cm
     else let cm = (case cl_workers cm ! i of None \<Rightarrow> cm | Some p \<Rightarrow> cm\<lparr>dead := insert p (dead cm)\<rparr>)
          in (case fresh of None \<Rightarrow> cm | Some p \<Rightarrow> cm\<lparr>cl_workers := (cl_workers cm)[i := Some p]\<rparr>))"

definition stop_body :: "clusterManager \<Rightarrow> clusterManager" where
  "stop_body cm = cm\<lparr>dead := dead cm \<union> {p. Some p \<in> set (cl_workers cm)}, cl_workers := []\<rparr>"

definition responds :: "clusterManager \<Rightarrow> nat \<Rightarrow> bool" where
  "responds cm i = (case cl_workers cm ! i of None \<Rightarrow> True | Some p \<Rightarrow> p \<notin> dead cm)"

text \<open>
  A write lock needs no reader and no writer; a read lock needs no writer.  (Go also makes new
  readers wait for a waiting writer; allowing them only adds behaviours.)
\<close>

inductive cluster_step :: "clusterManager \<Rightarrow> clusterManager \<Rightarrow> bool" where
  tick: "monitor_pc cm = Waiting \<Longrightarrow> \<not> writer cm \<Longrightarrow>
    cluster_step cm (cm\<lparr>readers := Suc (readers cm), monitor_pc := Scanning 0\<rparr>)"
| alive: "monitor_pc cm = Scanning i \<Longrightarrow> i < length (cl_workers cm) \<Longrightarrow> responds cm i \<Longrightarrow>
    cluster_step cm (cm\<lparr>monitor_pc := Scanning (Suc i)\<rparr>)"
| silent: "monitor_pc cm = Scanning i \<Longrightarrow> i < length (cl_workers cm) \<Longrightarrow> \<not> responds cm i \<Longrightarrow>
    cluster_step cm (cm\<lparr>monitor_pc := WantsLock i\<rparr>)"
| restart: "monitor_pc cm = WantsLock i \<Longrightarrow> readers cm = 0 \<Longrightarrow> \<not> writer cm \<Longrightarrow>
    cluster_step cm ((restart_body fresh i cm)\<lparr>monitor_pc := Scanning (Suc i)\<rparr>)"
| scanned: "monitor_pc cm = Scanning i \<Longrightarrow> i \<ge> length (cl_workers cm) \<Longrightarrow>
    cluster_step cm (cm\<lparr>readers := readers cm - 1, monitor_pc := Waiting\<rparr>)"
| stopped: "monitor_pc cm = Waiting \<Longrightarrow> stop_closed cm \<Longrightarrow>
    cluster_step cm (cm\<lparr>monitor_pc := MonitorDone\<rparr>)"
| close_stop: "stop_pc cm = NotCalled \<Longrightarrow>
    cluster_step cm (cm\<lparr>stop_closed := True, stop_pc := Closing\<rparr>)"
| kill_all: "stop_pc cm = Closing \<Longrightarrow> readers cm = 0 \<Longrightarrow> \<not> writer cm \<Longrightarrow>
    cluster_step cm ((stop_body cm)\<lparr>stop_pc := StopDone\<rparr>)"
| dies: "cluster_step cm (cm\<lparr>dead := insert p (dead cm)\<rparr>)"

inductive_cases cluster_stepE: "cluster_step s t"

inductive cluster_steps :: "clusterManager \<Rightarrow> clusterManager \<Rightarrow> bool" where
  refl: "cluster_steps s s"
| more: "cluster_steps s t \<Longrightarrow> cluster_step t u \<Longrightarrow> cluster_steps s u"

section \<open>The lock\<close>

text \<open>The monitor is the only reader, and it reads while it scans or wants the write lock.\<close>

definition lock_inv :: "clusterManager \<Rightarrow> bool" where
  "lock_inv cm \<longleftrightarrow> \<not> writer cm \<and>
     readers cm = (case monitor_pc cm of Scanning _ \<Rightarrow> 1 | WantsLock _ \<Rightarrow> 1 | _ \<Rightarrow> 0)"

lemma restart_frame [simp]:
  "readers (restart_body f i cm) = readers cm" "writer (restart_body f i cm) = writer cm"
  by (simp_all add: restart_body_def Let_def split: option.split)

lemma lock_inv_step: "cluster_step s t \<Longrightarrow> lock_inv s \<Longrightarrow> lock_inv t"
  by (induction rule: cluster_step.induct)
     (auto simp: lock_inv_def stop_body_def split: monitor.splits)

lemma lock_inv_steps: "cluster_steps s t \<Longrightarrow> lock_inv s \<Longrightarrow> lock_inv t"
  by (induction rule: cluster_steps.induct) (auto intro: lock_inv_step)

lemma start_lock_inv: "lock_inv (snd (StartWorkers spawn n NewClusterManager))"
  by (simp add: StartWorkers_def NewClusterManager_def lock_inv_def split: prod.split)

lemma stuck_step:
  "cluster_step s t \<Longrightarrow> lock_inv s \<Longrightarrow> monitor_pc s = WantsLock i \<Longrightarrow>
   monitor_pc t = WantsLock i \<and> cl_workers t = cl_workers s \<and> (stop_pc t = StopDone \<longrightarrow> stop_pc s = StopDone)"
  by (erule cluster_stepE) (auto simp: lock_inv_def)

lemma stuck_steps:
  assumes "cluster_steps s t" and "lock_inv s" and "monitor_pc s = WantsLock i"
  shows "monitor_pc t = WantsLock i \<and> cl_workers t = cl_workers s
    \<and> (stop_pc t = StopDone \<longrightarrow> stop_pc s = StopDone)"
  using assms
proof (induction rule: cluster_steps.induct)
  case (more s t u)
  have "lock_inv t" using lock_inv_steps[OF more.hyps(1)] more.prems by blast
  with more stuck_step[OF more.hyps(2)] show ?case by metis
qed simp

text \<open>
  C35. As soon as the monitor has found a worker that does not respond it is stuck for ever: it
  asks for the write lock while it holds the read lock.  No worker is ever restarted, and a
  \<open>Stop\<close> that has not finished by then never does.
\<close>

theorem dead_worker_deadlocks:
  assumes "cluster_steps (snd (StartWorkers spawn n NewClusterManager)) s"
    and "monitor_pc s = WantsLock i" and "stop_pc s \<noteq> StopDone" and "cluster_steps s t"
  shows "monitor_pc t = WantsLock i \<and> cl_workers t = cl_workers s \<and> stop_pc t \<noteq> StopDone"
  using stuck_steps[OF assms(4) lock_inv_steps[OF assms(1) start_lock_inv] assms(2)] assms(3) by blast

lemma steps_trans: "cluster_steps t u \<Longrightarrow> cluster_steps s t \<Longrightarrow> cluster_steps s u"
  by (induction rule: cluster_steps.induct) (auto intro: cluster_steps.more)

lemma step_steps: "cluster_step s t \<Longrightarrow> cluster_steps s t"
  by (blast intro: cluster_steps.intros)

text \<open>A scan over workers that respond ends and releases the read lock.\<close>

lemma scan_completes:
  "monitor_pc s = Scanning i \<Longrightarrow> i \<le> length (cl_workers s) \<Longrightarrow>
   (\<And>j. j < length (cl_workers s) \<Longrightarrow> responds s j) \<Longrightarrow>
   cluster_steps s (s\<lparr>readers := readers s - 1, monitor_pc := Waiting\<rparr>)"
proof (induction "length (cl_workers s) - i" arbitrary: s i)
  case 0
  then show ?case by (intro step_steps cluster_step.scanned[of s i]) auto
next
  case (Suc k)
  let ?t = "s\<lparr>monitor_pc := Scanning (Suc i)\<rparr>"
  have step: "cluster_step s ?t" using Suc by (intro cluster_step.alive) auto
  have "responds ?t j" if "j < length (cl_workers s)" for j
    using Suc.prems(3)[OF that] by (simp add: responds_def split: option.splits)
  then have "cluster_steps ?t (?t\<lparr>readers := readers ?t - 1, monitor_pc := Waiting\<rparr>)"
    using Suc.hyps(2) Suc.prems by (intro Suc.hyps(1)[of ?t "Suc i"]) auto
  then show ?case using steps_trans step_steps[OF step] by fastforce
qed


text \<open>
  A failed start leaves the workers started before the failure running, without a monitor.
\<close>

lemma failed_start_leaves_workers:
  "(\<And>i. i < k \<Longrightarrow> spawn i = Some (p i)) \<Longrightarrow> spawn k = None \<Longrightarrow> k < n \<Longrightarrow>
   StartWorkers spawn n NewClusterManager =
     (False, NewClusterManager\<lparr>cl_workers := map (\<lambda>i. Some (p i)) [0..<k]\<rparr>)"
proof -
  assume s: "\<And>i. i < k \<Longrightarrow> spawn i = Some (p i)" "spawn k = None" "k < n"
  have go: "start_loop spawn i m ws = (False, ws @ map (\<lambda>i. Some (p i)) [i..<k])"
    if "i \<le> k" "k < i + m" for i m ws
    using that
  proof (induction m arbitrary: i ws)
    case (Suc m)
    show ?case
    proof (cases "i = k")
      case True
      with s show ?thesis by simp
    next
      case False
      with Suc s have "start_loop spawn (Suc i) m (ws @ [Some (p i)])
          = (False, (ws @ [Some (p i)]) @ map (\<lambda>i. Some (p i)) [Suc i..<k])" by simp
      with False Suc.prems s show ?thesis by (simp add: upt_conv_Cons)
    qed
  qed simp
  show ?thesis using go[of 0 n "[]"] s(3) by (simp add: StartWorkers_def NewClusterManager_def)
qed

section \<open>Witnesses\<close>

definition one_worker :: clusterManager where
  "one_worker = snd (StartWorkers (\<lambda>i. Some 7) 1 NewClusterManager)"

lemma one_worker_simps [simp]:
  "cl_workers one_worker = [Some 7]" "monitor_pc one_worker = Waiting" "stop_pc one_worker = NotCalled"
  "readers one_worker = 0" "writer one_worker = False" "dead one_worker = {}"
  by (simp_all add: one_worker_def StartWorkers_def NewClusterManager_def)

lemma dead_worker_deadlocks_witness:
  "\<exists>s. cluster_steps one_worker s \<and> monitor_pc s = WantsLock 0
     \<and> (\<forall>t. cluster_steps s t \<longrightarrow> stop_pc t \<noteq> StopDone)"
proof -
  let ?a = "one_worker\<lparr>dead := {7}\<rparr>"
  let ?b = "?a\<lparr>readers := 1, monitor_pc := Scanning 0\<rparr>"
  let ?c = "?b\<lparr>monitor_pc := WantsLock 0\<rparr>"
  have "cluster_step one_worker ?a" using cluster_step.dies[of one_worker 7] by simp
  moreover have "cluster_step ?a ?b" using cluster_step.tick[of ?a] by simp
  moreover have "cluster_step ?b ?c"
    using cluster_step.silent[of ?b 0] by (simp add: responds_def)
  ultimately have steps: "cluster_steps one_worker ?c" by (blast intro: cluster_steps.intros)
  have "stop_pc t \<noteq> StopDone" if "cluster_steps ?c t" for t
    using dead_worker_deadlocks[of "\<lambda>i. Some 7" 1, folded one_worker_def, OF steps _ _ that] by simp
  with steps show ?thesis by (intro exI[of _ ?c]) simp
qed


end
