(* ===== verification/Http.thy ===== *)
theory Http
  imports GoStrings Metrics
begin

text \<open>
  What the program uses of \<^verbatim>\<open>net/http\<close>: requests, the response being written, and handlers.
  A handler may panic; what it has written stays written.  The world it acts on holds the
  rate limiters, the metrics and the log.
\<close>

section \<open>Requests and responses\<close>

text \<open>\<open>hdr\<close> is \<^verbatim>\<open>r.Header.Get\<close>: the empty string when a header is absent.\<close>

record request =
  req_method :: string
  req_path :: string
  hdr :: "string \<Rightarrow> string"
  rawQuery :: string
  contentLength :: int64
  remoteAddr :: string
  req_params :: "(string \<times> string) list"

text \<open>
  The header map stays writable after the status is sent, but only its content at that
  moment is sent.  \<open>last_code\<close> is what a wrapping \<^verbatim>\<open>responseWriter\<close> records of
  \<^verbatim>\<open>WriteHeader\<close>.
\<close>

record response =
  headers :: "string \<rightharpoonup> string"
  status :: "int option"
  sent_headers :: "string \<rightharpoonup> string"
  resp_body :: string
  last_code :: int

definition empty_response :: response where
  "empty_response = \<lparr>headers = Map.empty, status = None, sent_headers = Map.empty, resp_body = [],
     last_code = 200\<rparr>"

definition SetHeader :: "string \<Rightarrow> string \<Rightarrow> response \<Rightarrow> response" where
  "SetHeader k v w = w\<lparr>headers := (headers w)(k \<mapsto> v)\<rparr>"

definition WriteHeader :: "int \<Rightarrow> response \<Rightarrow> response" where
  "WriteHeader code w =
    (let w = w\<lparr>last_code := code\<rparr>
     in if status w = None then w\<lparr>status := Some code, sent_headers := headers w\<rparr> else w)"

text \<open>A write without a status sends 200, below any wrapper.\<close>

definition WriteBody :: "string \<Rightarrow> response \<Rightarrow> response" where
  "WriteBody b w =
    (let w = (if status w = None then w\<lparr>status := Some 200, sent_headers := headers w\<rparr> else w)
     in w\<lparr>resp_body := resp_body w @ b\<rparr>)"

definition http_Error :: "string \<Rightarrow> int \<Rightarrow> response \<Rightarrow> response" where
  "http_Error msg code w =
     WriteBody (msg @ [CHR 0x0A])
       (WriteHeader code
         (SetHeader ''X-Content-Type-Options'' ''nosniff''
           (SetHeader ''Content-Type'' ''text/plain; charset=utf-8'' w)))"

definition http_NotFound :: "response \<Rightarrow> response" where
  "http_NotFound = http_Error ''404 page not found'' 404"

section \<open>Handlers\<close>

record 'l world =
  limiters :: "(string \<rightharpoonup> 'l) list"
  w_metrics :: metrics
  w_log :: "(string \<times> string \<times> int) list"

text \<open>The flag says whether the writer the handler gets is an \<^verbatim>\<open>http.Flusher\<close>.\<close>

type_synonym 'l handler =
  "bool \<Rightarrow> request \<Rightarrow> 'l world \<times> response \<Rightarrow> outcome \<times> 'l world \<times> response"

type_synonym 'l middleware = "'l handler \<Rightarrow> 'l handler"

definition reply :: "(response \<Rightarrow> response) \<Rightarrow> 'l handler" where
  "reply f fl r s = (Completed, fst s, f (snd s))"

text \<open>What a whole request sees: the status that was sent, 200 if the handler sent none.\<close>

definition final_status :: "response \<Rightarrow> int" where
  "final_status w = (case status w of None \<Rightarrow> 200 | Some c \<Rightarrow> c)"

lemma response_simps [simp]:
  "status (SetHeader k v w) = status w" "headers (SetHeader k v w) = (headers w)(k \<mapsto> v)"
  "resp_body (SetHeader k v w) = resp_body w" "last_code (SetHeader k v w) = last_code w"
  "sent_headers (SetHeader k v w) = sent_headers w"
  "headers (WriteHeader c w) = headers w" "resp_body (WriteHeader c w) = resp_body w"
  "status (WriteHeader c w) = Some (case status w of None \<Rightarrow> c | Some d \<Rightarrow> d)"
  "last_code (WriteHeader c w) = c" "headers (WriteBody b w) = headers w"
  "resp_body (WriteBody b w) = resp_body w @ b"
  "status (WriteBody b w) = Some (case status w of None \<Rightarrow> 200 | Some d \<Rightarrow> d)"
  "last_code (WriteBody b w) = last_code w"
  by (auto simp: SetHeader_def WriteHeader_def WriteBody_def Let_def split: option.splits)

lemma http_Error_status [simp]:
  "status (http_Error msg code w) = Some (case status w of None \<Rightarrow> code | Some d \<Rightarrow> d)"
  "resp_body (http_Error msg code w) = resp_body w @ msg @ [CHR 0x0A]"
  by (simp_all add: http_Error_def)

end
