(* ===== verification/Config.thy ===== *)
theory Config
  imports GoPath CacheManager
begin

text \<open>
  \<^verbatim>\<open>internal/config/config.go\<close>: the configuration and \<open>LoadAppConfig\<close>.  The operating
  system and \<^verbatim>\<open>encoding/json\<close> are the record \<open>boot\<close>.  \<^verbatim>\<open>log.Fatal\<close> ends the process: the
  value \<open>Fatal\<close>.  Values of \<^verbatim>\<open>map[string]interface{}\<close> fields are of a type parameter.
\<close>

section \<open>The configuration\<close>

definition MAX_WS_CONNECTIONS :: int where "MAX_WS_CONNECTIONS = 10000"
definition CFG_MAX_VM_POOL_SIZE :: int where "CFG_MAX_VM_POOL_SIZE = 500"
definition CFG_MAX_IMPORT_FILE_SIZE :: int where "CFG_MAX_IMPORT_FILE_SIZE = 1 * 1024 * 1024"
definition CFG_MAX_IMPORTS_PER_FILE :: int where "CFG_MAX_IMPORTS_PER_FILE = 50"

record importSecurityConfig =
  is_AllowRemoteImports :: bool
  is_AllowedSubdirs :: "string list"
  is_MaxFileSize :: int
  is_MaxImportsPerFile :: int

record tlsConfig =
  tls_Enabled :: bool
  CertFile :: string
  KeyFile :: string

record corsConfig =
  cors_Enabled :: bool
  AllowedOrigins :: "string list"
  AllowedMethods :: "string list"
  AllowedHeaders :: "string list"

record securityConfig =
  CSP :: string
  HSTS :: bool
  XFrameOptions :: string
  CSRF :: bool
  InputSanitize :: bool
  Permissions :: "string list"

record clusterConfig =
  cl_Enabled :: bool
  cl_Workers :: int
  LoadBalancer :: string
  Nodes :: "string list"
  HealthCheck :: string

record 'j pluginConfig =
  pl_Name :: string
  pl_Enabled :: bool
  pl_Config :: "(string \<times> 'j) list"

record loggingConfig =
  log_Level :: string
  log_Format :: string
  log_Outputs :: "string list"
  log_Structured :: bool

record metricsConfig =
  mt_Enabled :: bool
  mt_Provider :: string
  mt_Endpoint :: string

record dbConfig =
  db_Driver :: string
  db_DSN :: string
  db_MaxOpen :: int
  db_MaxIdle :: int

record databaseConfig =
  dbs_Enabled :: bool
  dbs_PoolSize :: int
  dbs_MaxIdle :: int
  dbs_Timeout :: int
  dbs_Connections :: "(string \<times> dbConfig) list"

record graphQLConfig =
  gq_Enabled :: bool
  gq_Endpoint :: string
  gq_Playground :: bool
  gq_Schema :: string

record processConfig =
  MemoryLimit :: int
  CPUQuota :: int
  MaxProcesses :: int
  SandboxEnabled :: bool

record routeConfig =
  rt_Path :: string
  rt_Target :: string
  rt_Rewrite :: string
  rt_Redirect :: string
  rt_Methods :: "string list"

record 'j middlewareConfig =
  mw_Name :: string
  mw_Path :: string
  mw_Config :: "(string \<times> 'j) list"

record 'j appConfig =
  Name :: string
  Version :: string
  Port :: string
  Ports :: "string list"
  EntryPoint :: string
  Author :: string
  License :: string
  Indie :: bool
  Main :: string
  Server :: string
  MaxVM :: int
  MaxWS :: int
  TLS :: "tlsConfig option"
  IPv6 :: bool
  KeepAlive :: int
  Compression :: bool
  Brotli :: bool
  MaxUploadSize :: int
  RateLimit :: int
  CORS :: "corsConfig option"
  Security :: "securityConfig option"
  Cluster :: "clusterConfig option"
  Plugins :: "'j pluginConfig list"
  CacheCfg :: "cacheConfig option"
  Logging :: "loggingConfig option"
  MetricsCfg :: "metricsConfig option"
  Database :: "databaseConfig option"
  GraphQL :: "graphQLConfig option"
  Process :: "processConfig option"
  Environment :: string
  HotReload :: bool
  Routes :: "routeConfig list"
  MiddlewareCfg :: "'j middlewareConfig list"
  ImportSecurity :: "importSecurityConfig option"

definition zero_config :: "'j appConfig" where
  "zero_config = \<lparr>Name = [], Version = [], Port = [], Ports = [], EntryPoint = [], Author = [],
     License = [], Indie = False, Main = [], Server = [], MaxVM = 0, MaxWS = 0, TLS = None,
     IPv6 = False, KeepAlive = 0, Compression = False, Brotli = False, MaxUploadSize = 0,
     RateLimit = 0, CORS = None, Security = None, Cluster = None, Plugins = [], CacheCfg = None,
     Logging = None, MetricsCfg = None, Database = None, GraphQL = None, Process = None,
     Environment = [], HotReload = False, Routes = [], MiddlewareCfg = [], ImportSecurity = None\<rparr>"

text \<open>What \<^verbatim>\<open>app.json\<close> is decoded over.\<close>

definition file_base :: "'j appConfig" where
  "file_base = zero_config\<lparr>MaxVM := CFG_MAX_VM_POOL_SIZE, MaxWS := MAX_WS_CONNECTIONS,
     MaxUploadSize := 10 * 1024 * 1024, RateLimit := 100, Environment := ''development''\<rparr>"

definition default_config :: "string \<Rightarrow> 'j appConfig" where
  "default_config cwd = zero_config\<lparr>
     Name := Base cwd, Version := ''1.0.0'', Port := '':1505'', Ports := ['':1505'', '':1506''],
     EntryPoint := ''index.html'', Main := ''index.html'', Server := ''server.js'',
     Author := ''LS User'', License := ''MIT'', Indie := True,
     MaxVM := CFG_MAX_VM_POOL_SIZE, MaxWS := MAX_WS_CONNECTIONS,
     MaxUploadSize := 10 * 1024 * 1024, RateLimit := 100, IPv6 := True, KeepAlive := 60,
     Compression := True, Environment := ''development'',
     Security := Some \<lparr>CSP = ''default-src '' @ [CHR 0x27] @ ''self'' @ [CHR 0x27], HSTS = True,
       XFrameOptions = ''DENY'', CSRF = True, InputSanitize = True, Permissions = [''fs_read'']\<rparr>,
     CORS := Some \<lparr>cors_Enabled = True, AllowedOrigins = [''*''],
       AllowedMethods = [''GET'', ''POST'', ''PUT'', ''DELETE'', ''OPTIONS''],
       AllowedHeaders = [''Content-Type'', ''Authorization'']\<rparr>,
     Process := Some \<lparr>MemoryLimit = 512 * 1024 * 1024, CPUQuota = 100, MaxProcesses = 10,
       SandboxEnabled = True\<rparr>,
     CacheCfg := Some \<lparr>cc_enabled = True, cc_type = ''memory'', cc_size = 1000,
       cc_ttl = 5 * 60 * 1000000000, cc_distributed = False, cc_redisURL = []\<rparr>,
     Logging := Some \<lparr>log_Level = ''info'', log_Format = ''text'', log_Outputs = [''stdout'', ''file''],
       log_Structured = True\<rparr>,
     ImportSecurity := Some \<lparr>is_AllowRemoteImports = False,
       is_AllowedSubdirs = [''js'', ''public'', ''public/js'', ''modules'', ''scripts'', ''src'', ''lib''],
       is_MaxFileSize = CFG_MAX_IMPORT_FILE_SIZE,
       is_MaxImportsPerFile = CFG_MAX_IMPORTS_PER_FILE\<rparr>\<rparr>"

section \<open>Loading\<close>

text \<open>Lines 293 to 327, one step per test, in their order.\<close>

definition fix_port :: "'j appConfig \<Rightarrow> 'j appConfig" where
  "fix_port c =
    (let c = (if Port c = [] then c\<lparr>Port := '':1505''\<rparr> else c)
     in if \<not> HasPrefix (Port c) '':'' then c\<lparr>Port := '':'' @ Port c\<rparr> else c)"

definition fix_names :: "'j appConfig \<Rightarrow> 'j appConfig" where
  "fix_names c =
    (let c = (if Version c = [] then c\<lparr>Version := ''1.0.0''\<rparr> else c);
         c = (if EntryPoint c = []
              then (if Main c \<noteq> [] then c\<lparr>EntryPoint := Main c\<rparr> else c\<lparr>EntryPoint := ''index.html''\<rparr>)
              else c)
     in if Server c = [] then c\<lparr>Server := ''server.js''\<rparr> else c)"

definition fix_limits :: "'j appConfig \<Rightarrow> 'j appConfig" where
  "fix_limits c =
    (let c = (if MaxVM c \<le> 0 then c\<lparr>MaxVM := CFG_MAX_VM_POOL_SIZE\<rparr> else c);
         c = (if MaxWS c \<le> 0 then c\<lparr>MaxWS := MAX_WS_CONNECTIONS\<rparr> else c);
         c = (if MaxUploadSize c \<le> 0 then c\<lparr>MaxUploadSize := 10 * 1024 * 1024\<rparr> else c);
         c = (if RateLimit c \<le> 0 then c\<lparr>RateLimit := 100\<rparr> else c)
     in if KeepAlive c \<le> 0 then c\<lparr>KeepAlive := 60\<rparr> else c)"

definition normalise :: "'j appConfig \<Rightarrow> 'j appConfig" where
  "normalise c = fix_limits (fix_names (fix_port c))"

text \<open>
  \<open>b_unmarshal\<close> decodes over a value, \<^const>\<open>None\<close> on an error; \<open>b_marshal\<close> is
  \<^verbatim>\<open>MarshalIndent\<close>; \<open>b_log\<close> says whether the day's log file can be opened.
\<close>

record 'j boot =
  b_getwd :: "string option"
  b_mkdir :: "string \<Rightarrow> bool"
  b_log :: "string \<Rightarrow> bool"
  b_day :: string
  b_read :: "string \<Rightarrow> string option"
  b_unmarshal :: "string \<Rightarrow> 'j appConfig \<Rightarrow> 'j appConfig option"
  b_marshal :: "'j appConfig \<Rightarrow> string"

text \<open>The result: the configuration, the project root and the file written, if any.\<close>

datatype 'j load = Fatal | Loaded "'j appConfig" string "(string \<times> string) option"

definition data_dirs :: "string list" where
  "data_dirs = [''logs'', ''modules'', ''data'', ''cache'', ''plugins'', ''uploads'']"

definition LoadAppConfig :: "'j boot \<Rightarrow> 'j load" where
  "LoadAppConfig b =
    (case b_getwd b of
       None \<Rightarrow> Fatal
     | Some cwd \<Rightarrow>
         if \<not> list_all (\<lambda>dir. b_mkdir b (PathJoin [cwd, dir])) data_dirs then Fatal
         else if \<not> b_log b (PathJoin [cwd, ''logs'', ''ls-'' @ b_day b @ ''.log'']) then Fatal
         else let appPath = PathJoin [cwd, ''app.json''] in
           (case b_read b appPath of
              Some data \<Rightarrow>
                (case b_unmarshal b data file_base of
                   None \<Rightarrow> Fatal
                 | Some c \<Rightarrow> Loaded (normalise c) cwd None)
            | None \<Rightarrow>
                Loaded (normalise (default_config cwd)) cwd
                  (Some (appPath, b_marshal b (default_config cwd)))))"

section \<open>What a loaded configuration satisfies\<close>

definition valid_config :: "'j appConfig \<Rightarrow> bool" where
  "valid_config c \<longleftrightarrow>
     HasPrefix (Port c) '':'' \<and> Version c \<noteq> [] \<and> EntryPoint c \<noteq> [] \<and> Server c \<noteq> []
     \<and> MaxVM c > 0 \<and> MaxWS c > 0 \<and> MaxUploadSize c > 0 \<and> RateLimit c > 0 \<and> KeepAlive c > 0"

lemma fix_port_fields:
  "HasPrefix (Port (fix_port c)) '':''" "Version (fix_port c) = Version c"
  "EntryPoint (fix_port c) = EntryPoint c" "Main (fix_port c) = Main c" "Server (fix_port c) = Server c"
  by (simp_all add: fix_port_def Let_def)

lemma fix_names_fields:
  "Version (fix_names c) \<noteq> []" "EntryPoint (fix_names c) \<noteq> []" "Server (fix_names c) \<noteq> []"
  "Port (fix_names c) = Port c"
  by (simp_all add: fix_names_def Let_def)

lemma fix_limits_fields:
  "MaxVM (fix_limits c) > 0" "MaxWS (fix_limits c) > 0" "MaxUploadSize (fix_limits c) > 0"
  "RateLimit (fix_limits c) > 0" "KeepAlive (fix_limits c) > 0" "Port (fix_limits c) = Port c"
  "Version (fix_limits c) = Version c" "EntryPoint (fix_limits c) = EntryPoint c"
  "Server (fix_limits c) = Server c"
  by (simp_all add: fix_limits_def Let_def CFG_MAX_VM_POOL_SIZE_def MAX_WS_CONNECTIONS_def)

lemma normalise_valid: "valid_config (normalise c)"
  by (simp add: valid_config_def normalise_def fix_limits_fields fix_names_fields fix_port_fields)

lemma normalise_id: "valid_config c \<Longrightarrow> normalise c = c"
proof -
  assume v: "valid_config c"
  then have "fix_port c = c" by (auto simp: fix_port_def valid_config_def)
  moreover have "fix_names c = c" using v by (simp add: fix_names_def valid_config_def)
  moreover have "fix_limits c = c" using v by (simp add: fix_limits_def valid_config_def)
  ultimately show ?thesis by (simp add: normalise_def)
qed

lemma default_valid: "valid_config (default_config cwd)"
  by (simp add: valid_config_def default_config_def CFG_MAX_VM_POOL_SIZE_def MAX_WS_CONNECTIONS_def)

text \<open>
  C30. Whatever the file says, a configuration that is loaded has a port that starts with a
  colon, a version, an entry point and a server file, and positive limits; a file that is
  already valid is taken as it is, and without a file the defaults are used and written out
  unchanged.
\<close>

theorem loaded_config_valid:
  assumes "LoadAppConfig b = Loaded c root written"
  shows "valid_config c \<and> b_getwd b = Some root
    \<and> (case b_read b (PathJoin [root, ''app.json'']) of
         Some data \<Rightarrow> written = None \<and> (\<exists>raw. b_unmarshal b data file_base = Some raw
           \<and> c = normalise raw \<and> (valid_config raw \<longrightarrow> c = raw))
       | None \<Rightarrow> c = default_config root
           \<and> written = Some (PathJoin [root, ''app.json''], b_marshal b c))"
  using assms normalise_valid normalise_id default_valid
  by (auto simp: LoadAppConfig_def Let_def simp del: PathJoin.simps split: option.splits if_splits)

lemma loaded_config_valid_witness:
  "valid_config (normalise (file_base\<lparr>Port := ''80'', MaxVM := -3\<rparr> :: nat appConfig))
   \<and> Port (normalise (file_base\<lparr>Port := ''80'', MaxVM := -3\<rparr> :: nat appConfig)) = '':80''"
proof -
  let ?raw = "file_base\<lparr>Port := ''80'', MaxVM := -3\<rparr> :: nat appConfig"
  let ?b = "\<lparr>b_getwd = Some ''/srv'', b_mkdir = (\<lambda>_. True), b_log = (\<lambda>_. True), b_day = [],
    b_read = (\<lambda>_. Some []), b_unmarshal = (\<lambda>_ _. Some ?raw), b_marshal = (\<lambda>_. [])\<rparr>"
  have "LoadAppConfig ?b = Loaded (normalise ?raw) ''/srv'' None"
    by (simp add: LoadAppConfig_def data_dirs_def Let_def del: PathJoin.simps)
  from loaded_config_valid[OF this] have "valid_config (normalise ?raw)" by blast
  moreover have "Port (normalise ?raw) = '':80''"
    by (simp add: normalise_def fix_limits_fields fix_names_fields fix_port_def Let_def file_base_def)
  ultimately show ?thesis by blast
qed

end
