(* ===== verification/Middleware.thy ===== *)
theory Middleware
  imports Http Hashing GoRegexp Config
begin

text \<open>
  \<^verbatim>\<open>internal/plugins/plugins.go\<close> (package \<^verbatim>\<open>middleware\<close>): the middleware chain, the
  middlewares and the router.  The token-bucket limiter (\<^verbatim>\<open>golang.org/x/time/rate\<close>) is a
  parameter, the record \<open>rate_api\<close>; so is the gzip encoding of a body.
\<close>

section \<open>The chain\<close>

type_synonym 'l chain = "'l middleware list"

definition NewMiddlewareChain :: "'l chain" where
  "NewMiddlewareChain = []"

definition chain_Use :: "'l middleware \<Rightarrow> 'l chain \<Rightarrow> 'l chain" where
  "chain_Use m mc = mc @ [m]"

text \<open>\<^verbatim>\<open>for i := len(mc.middlewares) - 1; i >= 0; i--\<close>, by the number of middlewares left.\<close>

fun then_loop :: "'l chain \<Rightarrow> nat \<Rightarrow> 'l handler \<Rightarrow> 'l handler" where
  "then_loop mc 0 h = h"
| "then_loop mc (Suc i) h = then_loop mc i ((mc ! i) h)"

definition chain_Then :: "'l chain \<Rightarrow> 'l handler \<Rightarrow> 'l handler" where
  "chain_Then mc h = then_loop mc (length mc) h"

lemma then_loop_append: "i \<le> length mc \<Longrightarrow> then_loop (mc @ ms) i h = then_loop mc i h"
  by (induction i arbitrary: h) (simp_all add: nth_append)

lemma chain_Then_foldr: "chain_Then mc h = foldr (\<lambda>m. m) mc h"
  by (induction mc arbitrary: h rule: rev_induct)
     (simp_all add: chain_Then_def then_loop_append)

section \<open>The middlewares\<close>

text \<open>The deferred log line for slow requests is the only effect beside the wrapping.\<close>

definition TracingMiddleware :: "'l middleware" where
  "TracingMiddleware next fl r s = next False r s"

text \<open>\<open>duration\<close> is how long the inner handler took.\<close>

definition LoggingMiddleware :: "int64 \<Rightarrow> 'l middleware" where
  "LoggingMiddleware duration next fl r s =
    (case next False r (fst s, (snd s)\<lparr>last_code := 200\<rparr>) of
       (Panicked, world, w) \<Rightarrow> (Panicked, world, w)
     | (Completed, world, w) \<Rightarrow>
         (Completed,
          world\<lparr>w_metrics := AddHTTPRequest duration (last_code w) (w_metrics world),
                w_log := w_log world @ [(req_method r, req_path r, last_code w)]\<rparr>, w))"

record 'l rate_api =
  newLimiter :: "int \<Rightarrow> int \<Rightarrow> 'l"
  allow :: "'l \<Rightarrow> bool \<times> 'l"

text \<open>\<^verbatim>\<open>ip[:strings.LastIndex(ip, ":")]\<close>\<close>

definition client_ip :: "string \<Rightarrow> string" where
  "client_ip addr =
    (if CHR '':'' \<in> set addr then rev (tl (dropWhile (\<lambda>c. c \<noteq> CHR '':'') (rev addr))) else addr)"

definition RateLimitMiddleware :: "'l rate_api \<Rightarrow> int \<Rightarrow> 'l middleware" where
  "RateLimitMiddleware api rateLimit next fl r s =
    (let ip = client_ip (remoteAddr r);
         i = limiter_shard ip;
         ms = limiters (fst s);
         limiter = (case (ms ! i) ip of
                      Some l \<Rightarrow> l
                    | None \<Rightarrow> newLimiter api rateLimit (rateLimit * 2))
     in case allow api limiter of
          (ok, l') \<Rightarrow>
            (let world = (fst s)\<lparr>limiters := ms[i := (ms ! i)(ip := Some l')]\<rparr>
             in if \<not> ok then (Completed, world, http_Error ''Rate limit exceeded'' 429 (snd s))
                else next fl r (world, snd s)))"

definition common_security_headers :: "securityConfig \<Rightarrow> response \<Rightarrow> response" where
  "common_security_headers sec w =
    (let w = (if CSP sec \<noteq> [] then SetHeader ''Content-Security-Policy'' (CSP sec) w else w);
         w = (if HSTS sec then SetHeader ''Strict-Transport-Security''
                ''max-age=31536000; includeSubDomains'' w else w);
         w = (if XFrameOptions sec \<noteq> [] then SetHeader ''X-Frame-Options'' (XFrameOptions sec) w else w);
         w = SetHeader ''X-Content-Type-Options'' ''nosniff'' w
     in SetHeader ''X-XSS-Protection'' ''1; mode=block'' w)"

definition SecurityMiddleware :: "securityConfig option \<Rightarrow> 'l middleware" where
  "SecurityMiddleware sec next fl r s =
    next fl r (fst s,
      (case sec of
         None \<Rightarrow> snd s
       | Some sc \<Rightarrow>
           SetHeader ''Permissions-Policy'' ''geolocation=(), microphone=(), camera=()''
             (SetHeader ''Referrer-Policy'' ''strict-origin-when-cross-origin''
               (common_security_headers sc (snd s)))))"

text \<open>The first allowed origin that matches echoes the request's origin.\<close>

definition cors_headers :: "corsConfig \<Rightarrow> request \<Rightarrow> response \<Rightarrow> response" where
  "cors_headers cors r w =
    (let origin = hdr r ''Origin'';
         w = (if list_ex (\<lambda>allowed. allowed = ''*'' \<or> allowed = origin) (AllowedOrigins cors)
              then SetHeader ''Access-Control-Allow-Origin'' origin w else w);
         w = SetHeader ''Access-Control-Allow-Methods'' (Join '', '' (AllowedMethods cors)) w
     in SetHeader ''Access-Control-Allow-Headers'' (Join '', '' (AllowedHeaders cors)) w)"

definition CORSMiddleware :: "corsConfig option \<Rightarrow> 'l middleware" where
  "CORSMiddleware cors next fl r s =
    (case cors of
       None \<Rightarrow> next fl r s
     | Some c \<Rightarrow>
         if cors_Enabled c then
           (let w = cors_headers c r (snd s)
            in if req_method r = ''OPTIONS'' then (Completed, fst s, WriteHeader 200 w)
               else next fl r (fst s, w))
         else next fl r s)"

text \<open>
  A handler behind a gzip writer: what it writes is collected, and the deferred \<^verbatim>\<open>Close\<close>
  emits the compressed stream, also when the handler panics.  The first write already sends
  the status, as without compression.
\<close>

definition gzipped :: "(string \<Rightarrow> string) \<Rightarrow> 'l middleware" where
  "gzipped gzip next fl r s =
    (let w = SetHeader ''Content-Encoding'' ''gzip'' (snd s)
     in case next False r (fst s, w\<lparr>resp_body := []\<rparr>) of
          (out, world, w') \<Rightarrow>
            (out, world, WriteBody (gzip (resp_body w')) (w'\<lparr>resp_body := resp_body w\<rparr>)))"

definition CompressionMiddleware :: "(string \<Rightarrow> string) \<Rightarrow> bool \<Rightarrow> 'l middleware" where
  "CompressionMiddleware gzip enabled next fl r s =
    (if hdr r ''Upgrade'' = ''websocket'' then next fl r s
     else if enabled \<and> StrContains (hdr r ''Accept-Encoding'') ''gzip'' then gzipped gzip next fl r s
     else next fl r s)"

definition ValidationMiddleware :: "int64 \<Rightarrow> securityConfig option \<Rightarrow> 'l middleware" where
  "ValidationMiddleware maxUploadSize sec next fl r s =
    (if sint (contentLength r) > sint maxUploadSize
     then (Completed, fst s, http_Error ''Request entity too large'' 413 (snd s))
     else (case sec of
             Some sc \<Rightarrow>
               if InputSanitize sc
               then next fl (r\<lparr>rawQuery :=
                      ReplaceAll (ReplaceAll (rawQuery r) ''<'' ''&lt;'') ''>'' ''&gt;''\<rparr>) s
               else next fl r s
           | None \<Rightarrow> next fl r s))"

section \<open>The router\<close>

text \<open>
  Go's maps are association lists in the order in which the iteration visits them; every
  lemma holds for any order.
\<close>

record 'l router =
  routes :: "(string \<times> (string \<times> 'l handler) list) list"
  params :: "(string \<times> (string \<times> string list) list) list"
  router_mw :: "'l chain"

definition NewRouter :: "'l router" where
  "NewRouter = \<lparr>routes = [], params = [], router_mw = NewMiddlewareChain\<rparr>"

definition router_Use :: "'l middleware \<Rightarrow> 'l router \<Rightarrow> 'l router" where
  "router_Use m rt = rt\<lparr>router_mw := chain_Use m (router_mw rt)\<rparr>"

text \<open>\<^verbatim>\<open>:([^/]+)\<close> and all its matches, left to right.\<close>

definition re_param :: regex where
  "re_param = Seq (lit '':'') (Grp 1 (plus (Cls True ''/'')))"

definition param_names :: "string \<Rightarrow> string list" where
  "param_names pattern =
     snd (ReplaceAllStringFunc re_param (\<lambda>m c ns. (m, ns @ [group c 1])) pattern [])"

definition at_key :: "'k \<Rightarrow> ('k \<times> ('a \<times> 'b) list) list \<Rightarrow> ('a \<times> 'b) list" where
  "at_key k m = (case map_of m k of None \<Rightarrow> [] | Some x \<Rightarrow> x)"

definition router_Handle :: "string \<Rightarrow> string \<Rightarrow> 'l handler \<Rightarrow> 'l router \<Rightarrow> 'l router" where
  "router_Handle method pattern handler rt =
    (let names = param_names pattern;
         ps = at_key method (params rt);
         ps' = (if names \<noteq> [] then AList.update pattern names ps else ps)
     in rt\<lparr>routes := AList.update method (AList.update pattern handler (at_key method (routes rt)))
             (routes rt),
           params := AList.update method ps' (params rt)\<rparr>)"

definition router_GET :: "string \<Rightarrow> 'l handler \<Rightarrow> 'l router \<Rightarrow> 'l router" where
  "router_GET = router_Handle ''GET''"
definition router_POST :: "string \<Rightarrow> 'l handler \<Rightarrow> 'l router \<Rightarrow> 'l router" where
  "router_POST = router_Handle ''POST''"
definition router_PUT :: "string \<Rightarrow> 'l handler \<Rightarrow> 'l router \<Rightarrow> 'l router" where
  "router_PUT = router_Handle ''PUT''"
definition router_DELETE :: "string \<Rightarrow> 'l handler \<Rightarrow> 'l router \<Rightarrow> 'l router" where
  "router_DELETE = router_Handle ''DELETE''"

text \<open>
  \<^verbatim>\<open>regexp.QuoteMeta\<close>, and the patterns it can give: escaped and plain characters, and the
  group \<^verbatim>\<open>([^/]+)\<close>, seven characters, that the code means to put in.  \<open>compile\<close> numbers the groups from \<open>n\<close>.
\<close>

definition meta_chars :: string where
  "meta_chars = [CHR 0x5C] @ ''.+*?()|[]{}^$''"

definition QuoteMeta :: "string \<Rightarrow> string" where
  "QuoteMeta s = concat (map (\<lambda>c. if c \<in> set meta_chars then [CHR 0x5C, c] else [c]) s)"

definition group_text :: string where "group_text = ''([^/]+)''"

fun compile :: "nat \<Rightarrow> string \<Rightarrow> regex \<times> nat" where
  "compile n [] = (Eps, n)"
| "compile n (c # s) =
     (if c = CHR 0x5C \<and> s \<noteq> [] then
        (case compile n (tl s) of (re, k) \<Rightarrow> (Seq (Cls False [hd s]) re, k))
      else if HasPrefix (c # s) group_text then
        (case compile (Suc n) (drop 6 s) of
           (re, k) \<Rightarrow> (Seq (Grp n (plus (Cls True ''/''))) re, k))
      else (case compile n s of (re, k) \<Rightarrow> (Seq (Cls False [c]) re, k)))"

text \<open>
  The regular expression of a route: its source between \<^verbatim>\<open>^\<close> and \<^verbatim>\<open>$\<close>, and the length of
  \<^verbatim>\<open>FindStringSubmatch\<close>'s result, the match and one entry for each group.
\<close>

definition route_source :: "string \<Rightarrow> string" where
  "route_source pattern = ReplaceAll (QuoteMeta pattern) ('':'' @ group_text) group_text"

definition route_match :: "string \<Rightarrow> string \<Rightarrow> string list" where
  "route_match pattern path =
    (case compile 1 (route_source pattern) of
       (re, k) \<Rightarrow>
         (case find (\<lambda>(l, r, c). r = []) (mt re [] path []) of
            None \<Rightarrow> []
          | Some (l, r, c) \<Rightarrow> path # map (group c) [1..<k]))"

fun serve_params :: "'l router \<Rightarrow> (string \<times> 'l handler) list \<Rightarrow> 'l handler" where
  "serve_params rt [] fl r s = (Completed, fst s, http_NotFound (snd s))"
| "serve_params rt ((pattern, handler) # hs) fl r s =
    (case map_of (at_key (req_method r) (params rt)) pattern of
       None \<Rightarrow> serve_params rt hs fl r s
     | Some names \<Rightarrow>
         (let matches = route_match pattern (req_path r) in
          if length matches > 1
          then chain_Then (router_mw rt)
                 (\<lambda>fl r' s. handler fl (r'\<lparr>req_params := zip names (drop 1 matches)\<rparr>) s) fl r s
          else serve_params rt hs fl r s))"

definition router_ServeHTTP :: "'l router \<Rightarrow> 'l handler" where
  "router_ServeHTTP rt fl r s =
    (case map_of (routes rt) (req_method r) of
       None \<Rightarrow> (Completed, fst s, http_NotFound (snd s))
     | Some handlers \<Rightarrow>
         (case find (\<lambda>(pattern, _). pattern = req_path r) handlers of
            Some (_, handler) \<Rightarrow> chain_Then (router_mw rt) handler fl r s
          | None \<Rightarrow> serve_params rt handlers fl r s))"

section \<open>What the router does\<close>

lemma QuoteMeta_Cons:
  "QuoteMeta (c # s) = (if c \<in> set meta_chars then CHR 0x5C # c # QuoteMeta s else c # QuoteMeta s)"
  by (simp add: QuoteMeta_def)

lemma quote_first: "QuoteMeta s = c # t \<Longrightarrow> c \<noteq> CHR ''(''"
  by (cases s) (auto simp: QuoteMeta_Cons meta_chars_def QuoteMeta_def split: if_splits)

lemma quote_no_param: "\<not> StrContains (QuoteMeta s) '':(''"
proof (induction s)
  case Nil
  then show ?case by (simp add: QuoteMeta_def)
next
  case (Cons c s)
  have colon: "CHR '':'' \<notin> set meta_chars" by (simp add: meta_chars_def)
  have "\<not> HasPrefix (c # QuoteMeta s) '':(''"
    using quote_first[of s] by (cases "QuoteMeta s") auto
  with Cons colon show ?case by (auto simp: QuoteMeta_Cons)
qed

lemma StrContains_prefix: "StrContains s (p @ q) \<Longrightarrow> StrContains s p"
  by (induction s) (auto dest: append_prefixD)

lemma route_source_quoted: "route_source pattern = QuoteMeta pattern"
proof -
  have "\<not> StrContains (QuoteMeta pattern) ('':'' @ group_text)"
    using quote_no_param[of pattern] StrContains_prefix[of "QuoteMeta pattern" "'':(''" "''[^/]+)''"]
    by (auto simp: group_text_def)
  then show ?thesis by (simp add: route_source_def ReplaceAll_absent)
qed

lemma compile_quoted: "compile n (QuoteMeta s) = (lit s, n)"
proof (induction s)
  case Nil
  then show ?case by (simp add: QuoteMeta_def lit_def)
next
  case (Cons c s)
  show ?case
  proof (cases "c \<in> set meta_chars")
    case True
    then have "QuoteMeta (c # s) = CHR 0x5C # c # QuoteMeta s" by (simp add: QuoteMeta_def)
    with Cons show ?thesis by (simp add: lit_def)
  next
    case False
    then have "QuoteMeta (c # s) = c # QuoteMeta s" "c \<noteq> CHR 0x5C" "c \<noteq> CHR ''(''"
      by (auto simp: QuoteMeta_def meta_chars_def)
    with Cons show ?thesis by (auto simp: lit_def group_text_def)
  qed
qed

text \<open>The pattern of a route has no group, so a match has a single entry.\<close>

lemma route_match_short: "length (route_match pattern path) \<le> 1"
  by (auto simp: route_match_def route_source_quoted compile_quoted split: option.splits)

lemma serve_params_none: "serve_params rt hs fl r s = (Completed, fst s, http_NotFound (snd s))"
proof (induction rt hs fl r s rule: serve_params.induct)
  case (2 rt pattern handler hs fl r s)
  have "\<not> 1 < length (route_match pattern (req_path r))"
    using route_match_short[of pattern "req_path r"] by simp
  with 2 show ?case by (simp split: option.splits)
qed simp

lemma find_map_of: "find (\<lambda>(p, _). p = k) m = map_option (\<lambda>v. (k, v)) (map_of m k)"
  by (induction m) auto

lemma exact_serve:
  "router_ServeHTTP rt fl r s =
    (case map_of (at_key (req_method r) (routes rt)) (req_path r) of
       Some handler \<Rightarrow> chain_Then (router_mw rt) handler fl r s
     | None \<Rightarrow> (Completed, fst s, http_NotFound (snd s)))"
  by (auto simp: router_ServeHTTP_def at_key_def find_map_of serve_params_none split: option.splits)

text \<open>
  C31. The router serves a request if and only if its path is literally a pattern registered
  for its method; everything else, every request that only a parameter route would match
  included, is answered 404.
\<close>

theorem router_serves_exact_paths:
  "router_ServeHTTP rt fl r s =
    (case map_of (at_key (req_method r) (routes rt)) (req_path r) of
       Some handler \<Rightarrow> chain_Then (router_mw rt) handler fl r s
     | None \<Rightarrow> (Completed, fst s, http_NotFound (snd s)))"
  by (rule exact_serve)

lemma at_key_update [simp]:
  "at_key k (AList.update k' x m) = (if k = k' then x else at_key k m)"
  by (simp add: at_key_def)

text \<open>
  Registering a route makes requests for exactly that method and path reach its handler,
  through the middlewares in the order of their registration (the first outermost), and
  changes the answer to no other request.
\<close>

lemma serve_handled:
  "router_ServeHTTP (router_Handle method pattern handler rt) fl r s =
    (if req_method r = method \<and> req_path r = pattern
     then foldr (\<lambda>m. m) (router_mw rt) handler fl r s
     else router_ServeHTTP rt fl r s)"
  by (auto simp: exact_serve router_Handle_def Let_def chain_Then_foldr split: option.split)

lemma router_mw_Handle [simp]: "router_mw (router_Handle m p h rt) = router_mw rt"
  by (simp add: router_Handle_def Let_def)

section \<open>What the middlewares do\<close>

definition limiter_of :: "'l world \<Rightarrow> string \<Rightarrow> 'l option" where
  "limiter_of world ip = (limiters world ! limiter_shard ip) ip"

text \<open>
  C32. A request is let through exactly when the limiter of its client address allows it; the
  limiter is created at the first request of the address, and no other address's limiter
  changes.
\<close>

theorem rate_limit_per_client:
  assumes "length (limiters world) = 256"
  shows "\<exists>ok l world'. allow api (case limiter_of world (client_ip (remoteAddr r)) of
        Some l \<Rightarrow> l | None \<Rightarrow> newLimiter api n (n * 2)) = (ok, l)
    \<and> RateLimitMiddleware api n h fl r (world, w) =
        (if ok then h fl r (world', w)
         else (Completed, world', http_Error ''Rate limit exceeded'' 429 w))
    \<and> (\<forall>ip. limiter_of world' ip =
         (if ip = client_ip (remoteAddr r) then Some l else limiter_of world ip))
    \<and> length (limiters world') = 256 \<and> w_metrics world' = w_metrics world"
proof -
  let ?ip = "client_ip (remoteAddr r)" and ?ms = "limiters world"
  obtain ok l where a: "allow api (case limiter_of world ?ip of
      Some l \<Rightarrow> l | None \<Rightarrow> newLimiter api n (n * 2)) = (ok, l)" by (cases rule: prod.exhaust)
  let ?w = "world\<lparr>limiters := ?ms[limiter_shard ?ip := (?ms ! limiter_shard ?ip)(?ip := Some l)]\<rparr>"
  have "limiter_of ?w ip = (if ip = ?ip then Some l else limiter_of world ip)" for ip
    using ls.routed_entry[OF assms, of ?ip "Some l" ip]
    by (simp add: limiter_of_def)
  moreover have "RateLimitMiddleware api n h fl r (world, w) =
        (if ok then h fl r (?w, w)
         else (Completed, ?w, http_Error ''Rate limit exceeded'' 429 w))"
    using a by (simp add: RateLimitMiddleware_def Let_def limiter_of_def)
  ultimately show ?thesis using a assms by (intro exI[of _ ok] exI[of _ l] exI[of _ ?w]) simp
qed

text \<open>After sanitising no angle bracket is left in the query string.\<close>

lemma sanitised_query:
  "CHR ''<'' \<notin> set (ReplaceAll (ReplaceAll q ''<'' ''&lt;'') ''>'' ''&gt;'')
   \<and> CHR ''>'' \<notin> set (ReplaceAll (ReplaceAll q ''<'' ''&lt;'') ''>'' ''&gt;'')"
  by (auto simp: ReplaceAll_char)

text \<open>A body of unknown length (\<^verbatim>\<open>ContentLength\<close> -1) passes the size check.\<close>

lemma unknown_length_passes:
  "0 \<le> sint maxUpload \<Longrightarrow> contentLength r = -1 \<Longrightarrow>
   ValidationMiddleware maxUpload None next fl r s = next fl r s"
  by (simp add: ValidationMiddleware_def)

section \<open>Witnesses\<close>

lemma rate_limit_per_client_witness:
  "\<exists>world'. RateLimitMiddleware \<lparr>newLimiter = (\<lambda>_ b. b), allow = (\<lambda>l. (0 < l, l - 1))\<rparr> 0
      (reply (WriteBody ''ok'')) True
      \<lparr>req_method = ''GET'', req_path = ''/'', hdr = (\<lambda>_. []), rawQuery = [], contentLength = 0,
       remoteAddr = ''10.0.0.1:99'', req_params = []\<rparr>
      (\<lparr>limiters = replicate 256 Map.empty, w_metrics = GlobalMetrics 0, w_log = []\<rparr>, empty_response)
    = (Completed, world', http_Error ''Rate limit exceeded'' 429 empty_response)"
  using rate_limit_per_client[where world = "\<lparr>limiters = replicate 256 Map.empty,
      w_metrics = GlobalMetrics 0, w_log = []\<rparr>" and n = 0 and w = empty_response
      and api = "\<lparr>newLimiter = (\<lambda>_ b. b), allow = (\<lambda>l. (0 < (l :: int), l - 1))\<rparr>"
      and h = "reply (WriteBody ''ok'')" and fl = True
      and r = "\<lparr>req_method = ''GET'', req_path = ''/'', hdr = (\<lambda>_. []), rawQuery = [],
        contentLength = 0, remoteAddr = ''10.0.0.1:99'', req_params = []\<rparr>"]
    ls.shard_lt[of "client_ip ''10.0.0.1:99''"]
  by (auto simp: limiter_of_def)

end
