(* ===== verification/HttpServer.thy ===== *)
theory HttpServer
  imports Middleware
begin

text \<open>
  \<^verbatim>\<open>internal/server/server.go\<close>: the middleware stack and the handlers.  Parameters: the
  gzip encoding, the JSON encoding of a response, the file system and \<^verbatim>\<open>http.ServeFile\<close>,
  \<^verbatim>\<open>promhttp\<close>'s handler, and the parsed multipart form.
\<close>

section \<open>Environment\<close>

datatype jfield = JText string | JInt int | JTrue

record 'l server_env =
  sv_gzip :: "string \<Rightarrow> string"
  sv_json :: "(string \<times> jfield) list \<Rightarrow> string"
  sv_exists :: "string \<Rightarrow> bool"
  sv_file :: "string \<Rightarrow> request \<Rightarrow> response \<Rightarrow> response"
  sv_prometheus :: "'l handler"
  sv_format :: "request \<Rightarrow> string"
  sv_runtime :: "(string \<times> jfield) list"
  sv_form :: "int \<Rightarrow> request \<Rightarrow> unit option"
  sv_formfile :: "request \<Rightarrow> (string \<times> string) option"
  sv_create :: "string \<Rightarrow> bool"
  sv_now :: int
  sv_uptime :: int

record 'j httpServer =
  sv_config :: "'j appConfig"
  sv_root :: string

definition NewHttpServer :: "'j appConfig \<Rightarrow> string \<Rightarrow> 'j httpServer" where
  "NewHttpServer cfg projectRoot = \<lparr>sv_config = cfg, sv_root = projectRoot\<rparr>"

section \<open>The middlewares\<close>

definition loggingMiddleware :: "'l middleware" where
  "loggingMiddleware next fl r s =
    (case next False r (fst s, (snd s)\<lparr>last_code := 200\<rparr>) of
       (Panicked, world, w) \<Rightarrow> (Panicked, world, w)
     | (Completed, world, w) \<Rightarrow>
         (Completed, world\<lparr>w_log := w_log world @ [(req_method r, req_path r, last_code w)]\<rparr>, w))"

definition recoveryMiddleware :: "'l middleware" where
  "recoveryMiddleware next fl r s =
    (case next fl r s of
       (Panicked, world, w) \<Rightarrow> (Completed, world, http_Error ''Internal Server Error'' 500 w)
     | (Completed, world, w) \<Rightarrow> (Completed, world, w))"

definition securityMiddleware :: "'j httpServer \<Rightarrow> 'l middleware" where
  "securityMiddleware s next fl r st =
    next fl r (fst st,
      (case Security (sv_config s) of
         None \<Rightarrow> snd st
       | Some sec \<Rightarrow> common_security_headers sec (snd st)))"

definition corsMiddleware :: "corsConfig \<Rightarrow> 'l middleware" where
  "corsMiddleware cors next fl r st =
    (let w = cors_headers cors r (snd st)
     in if req_method r = ''OPTIONS'' then (Completed, fst st, WriteHeader 200 w)
        else next fl r (fst st, w))"

definition compressionMiddleware :: "(string \<Rightarrow> string) \<Rightarrow> 'l middleware" where
  "compressionMiddleware gzip next fl r st =
    (if StrContains (hdr r ''Accept-Encoding'') ''gzip'' then gzipped gzip next fl r st
     else next fl r st)"

definition applyMiddlewares :: "'l server_env \<Rightarrow> 'j httpServer \<Rightarrow> 'l middleware" where
  "applyMiddlewares env s next =
    (let handler = next;
         handler = (if Compression (sv_config s) then compressionMiddleware (sv_gzip env) handler
                    else handler);
         handler = securityMiddleware s handler;
         handler = (case CORS (sv_config s) of
                      Some c \<Rightarrow> if cors_Enabled c then corsMiddleware c handler else handler
                    | None \<Rightarrow> handler);
         handler = loggingMiddleware handler
     in recoveryMiddleware handler)"

section \<open>The built-in page\<close>

text \<open>In \<open>quoted\<close> texts \<^verbatim>\<open>~\<close> stands for the double quote and \<^verbatim>\<open>^\<close> for the single one.\<close>

definition quoted :: "string \<Rightarrow> string" where
  "quoted s = map (\<lambda>c. if c = CHR ''~'' then CHR 0x22 else if c = CHR ''^'' then CHR 0x27 else c) s"

definition ui_page :: "string \<Rightarrow> string" where
  "ui_page name = Join [CHR 0x0A]
    [quoted ''<!DOCTYPE html>'',
     quoted ''<html>'',
     quoted ''<head><title>'' @ name @ quoted '' - LS Engine</title>'',
     quoted ''<style>'',
     quoted ''body { font-family: Arial; background: linear-gradient(135deg, #667eea 0%, #764ba2 100%); color: #fff; padding: 40px; }'',
     quoted ''.container { max-width: 800px; margin: 0 auto; }'',
     quoted ''h1 { text-align: center; }'',
     quoted ''.stats { display: grid; grid-template-columns: repeat(2, 1fr); gap: 20px; margin: 30px 0; }'',
     quoted ''.card { background: rgba(255,255,255,0.1); padding: 20px; border-radius: 10px; text-align: center; }'',
     quoted ''.value { font-size: 32px; font-weight: bold; }'',
     quoted ''.label { font-size: 12px; margin-top: 10px; }'',
     quoted ''</style>'',
     quoted ''</head>'',
     quoted ''<body>'',
     quoted ''<div class=~container~>'',
     quoted ''<h1>'' @ [CHR 0xF0, CHR 0x9F, CHR 0x9A, CHR 0x80] @ quoted '' '' @ name @ quoted ''</h1>'',
     quoted ''<div class=~stats~>'',
     quoted ''<div class=~card~><div class=~value~ id=~goroutines~>0</div><div class=~label~>Goroutines</div></div>'',
     quoted ''<div class=~card~><div class=~value~ id=~memory~>0 MB</div><div class=~label~>Memoria</div></div>'',
     quoted ''</div>'',
     quoted ''</div>'',
     quoted ''<script>'',
     quoted ''async function load() {'',
     quoted ''    const res = await fetch(^/metrics^);'',
     quoted ''    const data = await res.json();'',
     quoted ''    document.getElementById(^goroutines^).textContent = data.goroutines || 0;'',
     quoted ''    document.getElementById(^memory^).textContent = Math.round((data.memory_alloc || 0) / 1024 / 1024) + ^ MB^;'',
     quoted ''}'',
     quoted ''setInterval(load, 2000);'',
     quoted ''load();'',
     quoted ''</script>'',
     quoted ''</body>'',
     quoted ''</html>'']"

section \<open>The handlers\<close>

text \<open>What \<open>staticHandler\<close> decides to send for a path.\<close>

datatype static_target = InvalidPath | IndexFile string | BuiltinUI | Missing | SendFile bool string

definition static_target :: "'l server_env \<Rightarrow> 'j httpServer \<Rightarrow> string \<Rightarrow> static_target" where
  "static_target env s path =
    (if StrContains path ''..'' then InvalidPath
     else if path = ''/'' then
       (let indexPath = PathJoin [sv_root s, EntryPoint (sv_config s)]
        in if sv_exists env indexPath then IndexFile indexPath else BuiltinUI)
     else let fullPath = PathJoin [sv_root s, path] in
       (case Rel (sv_root s) fullPath of
          None \<Rightarrow> Missing
        | Some rel \<Rightarrow>
            if HasPrefix rel ''..'' then Missing
            else SendFile (list_ex (HasSuffix path) [''.js'', ''.css'', ''.png'', ''.jpg'', ''.ico'']) fullPath))"

definition staticHandler :: "'l server_env \<Rightarrow> 'j httpServer \<Rightarrow> 'l handler" where
  "staticHandler env s fl r st =
    (Completed, fst st,
     (case static_target env s (req_path r) of
        InvalidPath \<Rightarrow> http_Error ''Invalid path'' 400 (snd st)
      | IndexFile p \<Rightarrow> sv_file env p r (snd st)
      | BuiltinUI \<Rightarrow> WriteBody (ui_page (Name (sv_config s)))
          (SetHeader ''Content-Type'' ''text/html; charset=utf-8'' (snd st))
      | Missing \<Rightarrow> http_NotFound (snd st)
      | SendFile cached p \<Rightarrow> sv_file env p r
          (if cached then SetHeader ''Cache-Control'' ''public, max-age=86400'' (snd st) else snd st)))"

definition send_json :: "'l server_env \<Rightarrow> (string \<times> jfield) list \<Rightarrow> response \<Rightarrow> response" where
  "send_json env flds w =
     WriteBody (sv_json env flds) (SetHeader ''Content-Type'' ''application/json'' w)"

definition healthHandler :: "'l server_env \<Rightarrow> 'j httpServer \<Rightarrow> 'l handler" where
  "healthHandler env s = reply (send_json env
     [(''status'', JText ''ok''), (''time'', JInt (sv_now env)), (''uptime'', JInt (sv_uptime env)),
      (''version'', JText (Version (sv_config s))), (''app'', JText (Name (sv_config s)))])"

definition metricsHandler :: "'l server_env \<Rightarrow> 'l handler" where
  "metricsHandler env fl r st =
    (if sv_format env r = ''prometheus'' then sv_prometheus env fl r st
     else reply (send_json env (sv_runtime env)) fl r st)"

text \<open>
  The upload: the form is parsed under the size limit, and the file is written into
  \<^verbatim>\<open>uploads\<close> under the name the client gave.
\<close>

definition upload_path :: "'j httpServer \<Rightarrow> string \<Rightarrow> string" where
  "upload_path s filename = PathJoin [PathJoin [sv_root s, ''uploads''], filename]"

definition uploadHandler :: "'l server_env \<Rightarrow> 'j httpServer \<Rightarrow> 'l handler" where
  "uploadHandler env s fl r st =
    (let w = snd st in
     if req_method r \<noteq> ''POST'' then (Completed, fst st, http_Error ''Method not allowed'' 405 w)
     else case sv_form env (MaxUploadSize (sv_config s)) r of
       None \<Rightarrow> (Completed, fst st, http_Error ''File too large'' 413 w)
     | Some _ \<Rightarrow>
         (case sv_formfile env r of
            None \<Rightarrow> (Completed, fst st, http_Error ''Error reading file'' 400 w)
          | Some (filename, content) \<Rightarrow>
              if \<not> sv_create env (upload_path s filename)
              then (Completed, fst st, http_Error ''Error saving file'' 500 w)
              else (Completed, fst st, send_json env
                [(''success'', JTrue), (''filename'', JText filename),
                 (''size'', JInt (int (length content))),
                 (''path'', JText (''/uploads/'' @ filename))] w)))"

text \<open>
  \<open>streamHandler\<close>: with a flusher it sends a keep-alive every fifteen seconds until the
  client leaves, here after the times in \<open>ticks\<close>.
\<close>

definition stream_event :: "int \<Rightarrow> string" where
  "stream_event t = ''data: {'' @ [CHR 0x22] @ ''type'' @ [CHR 0x22] @ '':'' @ [CHR 0x22]
     @ ''keepalive'' @ [CHR 0x22] @ '','' @ [CHR 0x22] @ ''timestamp'' @ [CHR 0x22] @ '':''
     @ show_int t @ ''}'' @ [CHR 0x0A, CHR 0x0A]"

definition streamHandler :: "int list \<Rightarrow> 'l handler" where
  "streamHandler ticks fl r st =
    (let w = SetHeader ''Connection'' ''keep-alive''
               (SetHeader ''Cache-Control'' ''no-cache''
                 (SetHeader ''Content-Type'' ''text/event-stream'' (snd st)))
     in if \<not> fl then (Completed, fst st, http_Error ''Streaming not supported'' 500 w)
        else (Completed, fst st, foldl (\<lambda>w t. WriteBody (stream_event t) w) w ticks))"

definition infoHandler :: "'l server_env \<Rightarrow> 'j httpServer \<Rightarrow> 'l handler" where
  "infoHandler env s = reply (send_json env
     [(''name'', JText (Name (sv_config s))), (''version'', JText (Version (sv_config s))),
      (''author'', JText (Author (sv_config s))), (''license'', JText (License (sv_config s))),
      (''environment'', JText (Environment (sv_config s))), (''port'', JText (Port (sv_config s)))])"

text \<open>
  \<^verbatim>\<open>http.ServeMux\<close> on these patterns: a path that is not clean is redirected to its clean
  form (its body left out), an exact pattern wins, \<^verbatim>\<open>/\<close> takes the rest.
\<close>

definition mux_clean :: "string \<Rightarrow> string" where
  "mux_clean path =
    (let p = (if rooted path then path else ''/'' @ path); c = Clean p
     in if HasSuffix p ''/'' \<and> c \<noteq> ''/'' then c @ ''/'' else c)"

definition serve_mux :: "'l server_env \<Rightarrow> 'j httpServer \<Rightarrow> int list \<Rightarrow> 'l handler" where
  "serve_mux env s ticks fl r st =
    (if req_method r \<noteq> ''CONNECT'' \<and> mux_clean (req_path r) \<noteq> req_path r
     then (Completed, fst st,
           WriteHeader 301 (SetHeader ''Location'' (mux_clean (req_path r)) (snd st)))
     else if req_path r = ''/health'' then healthHandler env s fl r st
     else if req_path r = ''/metrics'' then metricsHandler env fl r st
     else if req_path r = ''/upload'' then uploadHandler env s fl r st
     else if req_path r = ''/stream'' then streamHandler ticks fl r st
     else if req_path r = ''/api/info'' then infoHandler env s fl r st
     else staticHandler env s fl r st)"

definition server_handler :: "'l server_env \<Rightarrow> 'j httpServer \<Rightarrow> int list \<Rightarrow> 'l handler" where
  "server_handler env s ticks = applyMiddlewares env s (serve_mux env s ticks)"

text \<open>
  \<open>Start\<close>: the listener it configures.  \<open>serve\<close> is \<^verbatim>\<open>ListenAndServe\<close>, which returns only with
  an error (\<^const>\<open>None\<close> while it serves), and then the process ends.  \<open>Shutdown\<close> sleeps for the
  given number of seconds and does nothing else; its value is that duration.
\<close>

record http_listener =
  hl_addr :: string
  hl_readTimeout :: int64
  hl_writeTimeout :: int64
  hl_idleTimeout :: int64
  hl_maxHeaderBytes :: nat

definition second :: int64 where "second = 1000000000"

definition server_listener :: "'j httpServer \<Rightarrow> http_listener" where
  "server_listener s =
    \<lparr>hl_addr = Port (sv_config s), hl_readTimeout = 30 * second, hl_writeTimeout = 30 * second,
     hl_idleTimeout = word_of_int (KeepAlive (sv_config s)) * second, hl_maxHeaderBytes = 2 ^ 20\<rparr>"

datatype serving = Running | FatalError string

definition server_Start :: "(http_listener \<Rightarrow> string option) \<Rightarrow> 'j httpServer \<Rightarrow> serving" where
  "server_Start serve s =
    (case serve (server_listener s) of
       None \<Rightarrow> Running
     | Some e \<Rightarrow> FatalError (''Error: '' @ e))"

definition server_Shutdown :: "int64 \<Rightarrow> int64" where
  "server_Shutdown timeoutSeconds = timeoutSeconds * second"

section \<open>Properties of the stack\<close>

lemma security_status [simp]:
  "status (common_security_headers sec w) = status w"
  "last_code (common_security_headers sec w) = last_code w"
  by (simp_all add: common_security_headers_def Let_def)

lemma cors_status [simp]: "status (cors_headers c r w) = status w"
  by (simp add: cors_headers_def Let_def)

text \<open>
  The stack outside the recovery and logging: whatever it adds to the headers, it runs the
  handler behind a writer that is no flusher, with the given status.
\<close>

definition preflight :: "'j httpServer \<Rightarrow> request \<Rightarrow> bool" where
  "preflight s r \<longleftrightarrow> req_method r = ''OPTIONS''
     \<and> (case CORS (sv_config s) of Some c \<Rightarrow> cors_Enabled c | None \<Rightarrow> False)"

definition compresses :: "'j httpServer \<Rightarrow> request \<Rightarrow> bool" where
  "compresses s r \<longleftrightarrow> Compression (sv_config s) \<and> StrContains (hdr r ''Accept-Encoding'') ''gzip''"

lemma stack_shape:
  assumes "\<not> preflight s r"
  shows "\<exists>w'. status w' = status w
    \<and> applyMiddlewares env s h fl r (world, w)
      = recoveryMiddleware (loggingMiddleware (\<lambda>_ r st.
          (if compresses s r then gzipped (sv_gzip env) h else h) False r (fst st, w')))
          fl r (world, w)"
proof -
  define inner where "inner = (if Compression (sv_config s)
    then compressionMiddleware (sv_gzip env) h else h)"
  define cors where "cors = (case CORS (sv_config s) of
      Some c \<Rightarrow> if cors_Enabled c then corsMiddleware c (securityMiddleware s inner)
        else securityMiddleware s inner
    | None \<Rightarrow> securityMiddleware s inner)"
  have inner: "inner False r st = (if compresses s r then gzipped (sv_gzip env) h else h) False r st" for st
    by (simp add: inner_def compressionMiddleware_def compresses_def)
  define wc where "wc = (case CORS (sv_config s) of
      Some c \<Rightarrow> if cors_Enabled c then cors_headers c r (w\<lparr>last_code := 200\<rparr>) else w\<lparr>last_code := 200\<rparr>
    | None \<Rightarrow> w\<lparr>last_code := 200\<rparr>)"
  define ws where "ws = (case Security (sv_config s) of
      None \<Rightarrow> wc | Some sec \<Rightarrow> common_security_headers sec wc)"
  have "cors False r (world, w\<lparr>last_code := 200\<rparr>) = inner False r (world, ws)" for world
    using assms
    by (auto simp: cors_def corsMiddleware_def securityMiddleware_def preflight_def Let_def wc_def
        ws_def split: option.splits)
  moreover have "status ws = status w"
    by (simp add: ws_def wc_def split: option.split)
  ultimately have "\<exists>w'. status w' = status w \<and> (\<forall>world. cors False r (world, w\<lparr>last_code := 200\<rparr>)
      = inner False r (world, w'))" by blast
  then obtain w' where w': "status w' = status w"
    "\<And>world. cors False r (world, w\<lparr>last_code := 200\<rparr>) = inner False r (world, w')" by blast
  have "applyMiddlewares env s h = recoveryMiddleware (loggingMiddleware cors)"
    unfolding applyMiddlewares_def inner_def cors_def Let_def ..
  then show ?thesis
    using w' by (intro exI[of _ w'])
      (simp add: recoveryMiddleware_def loggingMiddleware_def inner)
qed

text \<open>
  C33. A panicking handler is recovered, but the status 500 reaches only clients that do not
  accept gzip: behind the compression the deferred close of the gzip writer has already sent
  200 when the recovery runs.
\<close>

theorem recovered_panic_status:
  assumes "\<not> preflight s r"
    and "\<And>fl w. \<exists>w'. h fl r (world, w) = (Panicked, world, w') \<and> status w' = status w"
  shows "\<exists>w. applyMiddlewares env s h fl r (world, empty_response) = (Completed, world, w)
    \<and> status w = Some (if compresses s r then 200 else 500)"
proof -
  obtain w0 where s0: "status w0 = None"
    and shape: "applyMiddlewares env s h fl r (world, empty_response)
      = recoveryMiddleware (loggingMiddleware (\<lambda>_ r st.
          (if compresses s r then gzipped (sv_gzip env) h else h) False r (fst st, w0)))
          fl r (world, empty_response)"
    using stack_shape[OF assms(1), of empty_response env h fl world]
    by (auto simp: empty_response_def)
  show ?thesis
  proof (cases "compresses s r")
    case True
    obtain w1 where w1: "h False r (world, (SetHeader ''Content-Encoding'' ''gzip'' w0)\<lparr>resp_body := []\<rparr>)
        = (Panicked, world, w1)" "status w1 = None"
      using assms(2)[of False "(SetHeader ''Content-Encoding'' ''gzip'' w0)\<lparr>resp_body := []\<rparr>"] s0
      by auto
    with True shape show ?thesis
      by (simp add: recoveryMiddleware_def loggingMiddleware_def gzipped_def Let_def)
  next
    case False
    obtain w1 where "h False r (world, w0) = (Panicked, world, w1)" "status w1 = None"
      using assms(2)[of False w0] s0 by auto
    with False shape show ?thesis
      by (simp add: recoveryMiddleware_def loggingMiddleware_def)
  qed
qed


lemma no_dots_comps: "\<not> StrContains path ''..'' \<Longrightarrow> ''..'' \<notin> set (path_comps path)"
  by (auto simp: path_comps_def dest: Split_contains)

text \<open>A path without \<^verbatim>\<open>..\<close> is never missing: the check on the relative path always passes.\<close>

lemma static_sends:
  assumes root: "abs_path (sv_root s)" and dots: "\<not> StrContains path ''..''" and path: "path \<noteq> ''/''"
  shows "static_target env s path
    = SendFile (list_ex (HasSuffix path) [''.js'', ''.css'', ''.png'', ''.jpg'', ''.ico''])
        (PathJoin [sv_root s, path])"
proof -
  let ?full = "PathJoin [sv_root s, path]"
  note full = PathJoin_root(1)[OF root, of path] PathJoin_below[OF root no_dots_comps[OF dots]]
  have rel: "Rel (sv_root s) ?full = Some (if path_comps path = [] then ''.'' else Join ''/'' (path_comps path))"
    by (rule Rel_below[OF root full])
  have "\<not> HasPrefix (Join ''/'' (path_comps path)) ''..''"
  proof
    assume *: "HasPrefix (Join ''/'' (path_comps path)) ''..''"
    then obtain c cs where c: "path_comps path = c # cs" by (cases "path_comps path") auto
    have "StrContains c ''..''"
      using * c path_comps_ok[of c path]
      by (cases c; cases "tl c") (auto simp: Join_Cons comp_ok_def split: if_splits)
    moreover have "c \<in> set (path_comps path)" using c by simp
    then have "c \<in> set (Split slash path)" by (simp add: path_comps_def)
    ultimately have "StrContains path ''..''" using Split_sublist by blast
    with dots show False by simp
  qed
  with rel dots path show ?thesis by (auto simp: static_target_def Let_def simp del: PathJoin.simps)
qed

text \<open>
  A file that the static handler sends for a path lies below the project root, and only
  the path \<^verbatim>\<open>/\<close> reaches the entry point or the built-in page.
\<close>

theorem static_files_confined:
  assumes "abs_path (sv_root s)"
  shows "case static_target env s path of
      SendFile cached p \<Rightarrow> path_comps p = path_comps (sv_root s) @ path_comps path
        \<and> ''..'' \<notin> set (path_comps p) \<and> path \<noteq> ''/''
    | IndexFile p \<Rightarrow> path = ''/'' \<and> sv_exists env p
    | BuiltinUI \<Rightarrow> path = ''/''
    | InvalidPath \<Rightarrow> StrContains path ''..''
    | Missing \<Rightarrow> False"
proof (cases "StrContains path ''..'' \<or> path = ''/''")
  case True
  then show ?thesis by (auto simp: static_target_def Let_def simp del: PathJoin.simps)
next
  case False
  then have path: "\<not> StrContains path ''..''" "path \<noteq> ''/''" by auto
  note below = PathJoin_below[OF assms no_dots_comps[OF path(1)]]
  moreover have "''..'' \<notin> set (path_comps (PathJoin [sv_root s, path]))"
    by (rule abs_path_comps[OF PathJoin_root(1)[OF assms]])
  ultimately show ?thesis using path(2) by (simp add: static_sends[OF assms path] del: PathJoin.simps)
qed

text \<open>A path below a root: the root's components, then further ones, none of them \<^verbatim>\<open>..\<close>.\<close>

definition below :: "string \<Rightarrow> string \<Rightarrow> bool" where
  "below root p \<longleftrightarrow> (\<exists>cs. path_comps p = path_comps root @ cs \<and> ''..'' \<notin> set cs)"

lemma joined_below:
  assumes "abs_path r" and "''..'' \<notin> set (path_comps x)"
  shows "below r (PathJoin [r, x])"
  unfolding below_def using PathJoin_below[OF assms] assms(2) by blast

text \<open>Every file the static handler sends is below the root.\<close>

lemma static_target_below:
  assumes "abs_path (sv_root s)" and "''..'' \<notin> set (path_comps (EntryPoint (sv_config s)))"
    and "static_target env s path = IndexFile p \<or> static_target env s path = SendFile cached p"
  shows "below (sv_root s) p"
  using assms(3) joined_below[OF assms(1,2)] joined_below[OF assms(1), of path] no_dots_comps[of path]
  by (auto simp: static_target_def Let_def simp del: PathJoin.simps split: if_splits option.splits)

text \<open>An uploaded file is stored in \<^verbatim>\<open>uploads\<close> when its name is a plain file name.\<close>

lemma upload_inside:
  assumes "abs_path (sv_root s)" and "comp_ok filename" and "filename \<noteq> ''..''"
  shows "path_comps (upload_path s filename) = path_comps (sv_root s) @ [''uploads'', filename]"
proof -
  have u: "comp_ok ''uploads''" by (simp add: comp_ok_def)
  have "abs_path (PathJoin [sv_root s, ''uploads''])"
    "path_comps (PathJoin [sv_root s, ''uploads'']) = path_comps (sv_root s) @ [''uploads'']"
    using joined_comp[OF assms(1) u] by simp_all
  with joined_comp[OF this(1) assms(2,3)] show ?thesis
    by (simp add: upload_path_def del: PathJoin.simps)
qed

section \<open>Witnesses\<close>

definition demo_server :: "nat httpServer" where
  "demo_server = NewHttpServer (default_config ''/srv'') ''/srv''"

definition demo_env :: "unit server_env" where
  "demo_env = \<lparr>sv_gzip = (\<lambda>b. b), sv_json = (\<lambda>_. []), sv_exists = (\<lambda>_. True),
     sv_file = (\<lambda>_ _ w. w), sv_prometheus = reply (\<lambda>w. w), sv_format = (\<lambda>_. []), sv_runtime = [],
     sv_form = (\<lambda>_ _. None), sv_formfile = (\<lambda>_. None), sv_create = (\<lambda>_. True), sv_now = 0,
     sv_uptime = 0\<rparr>"

definition demo_request :: "string \<Rightarrow> request" where
  "demo_request path = \<lparr>req_method = ''GET'', req_path = path, hdr = (\<lambda>_. ''gzip''), rawQuery = [],
     contentLength = 0, remoteAddr = [], req_params = []\<rparr>"

definition demo_world :: "unit world" where
  "demo_world = \<lparr>limiters = [], w_metrics = GlobalMetrics 0, w_log = []\<rparr>"

lemma demo_no_preflight: "\<not> preflight demo_server (demo_request p)"
  by (simp add: preflight_def demo_request_def)

lemma recovered_panic_status_witness:
  "\<exists>w. applyMiddlewares demo_env demo_server (\<lambda>_ _ s. (Panicked, s)) True (demo_request ''/x'')
      (demo_world, empty_response) = (Completed, demo_world, w) \<and> status w = Some 200"
proof -
  have "compresses demo_server (demo_request ''/x'')"
    by (simp add: compresses_def demo_server_def NewHttpServer_def default_config_def demo_request_def)
  with recovered_panic_status[OF demo_no_preflight, of "\<lambda>_ _ s. (Panicked, s)" "''/x''" demo_world demo_env True]
  show ?thesis by auto
qed


lemma static_files_confined_witness:
  "static_target demo_env demo_server ''/js/a.js'' = SendFile True ''/srv/js/a.js''
   \<and> ''..'' \<notin> set (path_comps ''/srv/js/a.js'')"
proof -
  have "abs_path (sv_root demo_server)"
    unfolding abs_path_def demo_server_def NewHttpServer_def by code_simp
  moreover have t: "static_target demo_env demo_server ''/js/a.js'' = SendFile True ''/srv/js/a.js''"
  proof -
    have "StrContains ''/js/a.js'' ''..'' = False" "Rel ''/srv'' ''/srv/js/a.js'' = Some ''js/a.js''"
      "PathJoin [''/srv'', ''/js/a.js''] = ''/srv/js/a.js''"
      "list_ex (HasSuffix ''/js/a.js'') [''.js'', ''.css'', ''.png'', ''.jpg'', ''.ico'']" by code_simp+
    then show ?thesis
      by (simp add: static_target_def demo_server_def NewHttpServer_def Let_def
          del: PathJoin.simps StrContains.simps)
  qed
  ultimately have "''..'' \<notin> set (path_comps ''/srv/js/a.js'')"
    using static_files_confined[where s = demo_server and env = demo_env and path = "''/js/a.js''"]
    unfolding t static_target.case by blast
  with t show ?thesis by blast
qed

end
