(* ===== verification/Startup.thy ===== *)
theory Startup
  imports HttpServer
begin

text \<open>
  \<^verbatim>\<open>cmd/main.go\<close>: which port is checked and which one is served, and the retry loop; and
  \<^verbatim>\<open>api/routes.go\<close>: the routes it registers.
\<close>

section \<open>The process\<close>

definition main_port :: "'j appConfig \<Rightarrow> string \<Rightarrow> string" where
  "main_port cfg envPort =
    (if envPort \<noteq> []
     then (if \<not> HasPrefix envPort '':'' then '':'' @ envPort else envPort)
     else Port cfg)"

text \<open>
  The loop over at most three attempts: \<open>listen i\<close> says whether the port was free at attempt
  \<open>i\<close>; the result is whether it was in the end, and the number of pauses.
\<close>

fun listen_loop :: "(nat \<Rightarrow> bool) \<Rightarrow> nat \<Rightarrow> nat \<Rightarrow> nat \<Rightarrow> bool \<times> nat" where
  "listen_loop listen i 0 pauses = (False, pauses)"
| "listen_loop listen i (Suc n) pauses =
     (if listen i then (True, pauses)
      else listen_loop listen (Suc i) n (if n > 0 then Suc pauses else pauses))"

datatype 'j process = WorkerExit | PortBusy string | Serving "'j httpServer" string

text \<open>A process started as a worker returns at once; the server listens on \<open>Config.Port\<close>.\<close>

definition main :: "string list \<Rightarrow> 'j appConfig \<Rightarrow> string \<Rightarrow> string \<Rightarrow> (string \<Rightarrow> nat \<Rightarrow> bool) \<Rightarrow> 'j process" where
  "main args cfg projectRoot envPort listen =
    (if length args > 2 \<and> args ! 1 = ''--worker'' then WorkerExit
     else let port = main_port cfg envPort in
       if fst (listen_loop (listen port) 0 3 0)
       then Serving (NewHttpServer cfg projectRoot) (Port cfg)
       else PortBusy port)"

text \<open>The goroutine that waits for a signal: it sleeps in \<open>Shutdown\<close>, then the process exits with 0.\<close>

definition on_stop :: "int64 \<times> int" where
  "on_stop = (server_Shutdown 10, 0)"

lemma on_stop_ten_seconds: "sint (fst on_stop) = 10 * 1000000000"
  by (simp add: on_stop_def server_Shutdown_def second_def)

lemma listen_loop_result: "fst (listen_loop listen i n p) \<longleftrightarrow> (\<exists>j<n. listen (i + j))"
proof (induction n arbitrary: i p)
  case (Suc n)
  have "(\<exists>j<Suc n. listen (i + j)) \<longleftrightarrow> listen i \<or> (\<exists>j<n. listen (Suc i + j))"
    by (simp add: Ex_less_Suc2)
  with Suc show ?case by simp
qed simp

lemma listen_loop_pauses: "snd (listen_loop listen i n p) \<le> p + (n - 1)"
proof (induction n arbitrary: i p)
  case (Suc n)
  show ?case using Suc[of "Suc i" "Suc p"] by (cases n) auto
qed simp

text \<open>
  The \<^verbatim>\<open>PORT\<close> variable chooses the port that is probed, not the one that is served: a server
  that starts listens on the port of the configuration.
\<close>

lemma port_variable_is_ignored:
  "main args cfg root envPort listen = Serving s p \<Longrightarrow> p = Port cfg \<and> s = NewHttpServer cfg root"
  by (auto simp: main_def Let_def split: if_splits)

text \<open>Every process that \<^verbatim>\<open>StartWorkers\<close> launches exits at once.\<close>

lemma workers_exit: "main [prog, ''--worker'', n] cfg root envPort listen = WorkerExit"
  by (simp add: main_def)

section \<open>The API routes\<close>

definition json_reply :: "string \<Rightarrow> 'l handler" where
  "json_reply body = reply (\<lambda>w. WriteBody body (SetHeader ''Content-Type'' ''application/json'' w))"

definition qt :: "string \<Rightarrow> string" where
  "qt s = [CHR 0x22] @ s @ [CHR 0x22]"

definition SetupAPIRoutes :: "'l router \<Rightarrow> 'l router" where
  "SetupAPIRoutes router =
     router_GET ''/api/ws-stats'' (json_reply (''{'' @ qt ''ws_active'' @ '':0}''))
       (router_GET ''/api/info'' (json_reply (''{'' @ qt ''name'' @ '':'' @ qt ''LS Engine'' @ '',''
            @ qt ''version'' @ '':'' @ qt ''6.0'' @ ''}''))
         (router_GET ''/api/health'' (json_reply (''{'' @ qt ''status'' @ '':'' @ qt ''ok'' @ ''}'')) router))"

lemma api_health_served:
  "req_method r = ''GET'' \<Longrightarrow> req_path r = ''/api/health'' \<Longrightarrow>
   router_ServeHTTP (SetupAPIRoutes NewRouter) fl r (world, empty_response)
     = json_reply (''{'' @ qt ''status'' @ '':'' @ qt ''ok'' @ ''}'') fl r (world, empty_response)"
  by (simp add: SetupAPIRoutes_def router_GET_def serve_handled NewRouter_def NewMiddlewareChain_def
      router_mw_Handle)

end
