(* ===== verification/Digest.thy ===== *)
theory Digest
  imports GoStrings
begin

text \<open>
  What the program uses of \<^verbatim>\<open>crypto/sha256\<close>, \<^verbatim>\<open>encoding/hex\<close> and \<^verbatim>\<open>encoding/base64\<close>, on byte
  lists, with the two functions of \<^verbatim>\<open>internal/utils/utils.go\<close> that are not in \<open>Hashing\<close>.
  The lemmas: a digest is 64 hexadecimal digits, base64 decodes what it encodes, and the
  parts of a generated identifier can be read back.
\<close>

unbundle bit_operations_syntax

definition go_bytes :: "string \<Rightarrow> byte list" where
  "go_bytes s = map of_char s"

definition go_string :: "byte list \<Rightarrow> string" where
  "go_string bs = map (\<lambda>b. char_of (unat b)) bs"

lemma of_char_byte: "char_of (unat (of_char c :: byte)) = c"
proof -
  have "(of_char c :: byte) = of_nat (of_char c)" by (simp add: of_char_def)
  then have "unat (of_char c :: byte) = of_char c"
    using nat_of_char_less_256[of c] by (simp add: unsigned_of_nat take_bit_eq_mod del: of_nat_of_char)
  then show ?thesis by simp
qed

lemma go_string_bytes: "go_string (go_bytes s) = s"
  by (induction s) (simp_all add: go_string_def go_bytes_def of_char_byte)

section \<open>Hexadecimal text\<close>

definition hex_digits :: string where "hex_digits = ''0123456789abcdef''"

definition hex_byte :: "byte \<Rightarrow> string" where
  "hex_byte b = [hex_digits ! unat (drop_bit 4 b), hex_digits ! unat (b AND 15)]"

text \<open>\<^verbatim>\<open>hex.EncodeToString\<close>, which is also the format \<^verbatim>\<open>%x\<close> of a byte slice.\<close>

definition EncodeHex :: "byte list \<Rightarrow> string" where
  "EncodeHex bs = concat (map hex_byte bs)"

section \<open>SHA-256\<close>

definition rotr :: "nat \<Rightarrow> uint32 \<Rightarrow> uint32" where
  "rotr n x = drop_bit n x OR push_bit (32 - n) x"

definition sha_K :: "uint32 list" where
  "sha_K =
    [0x428A2F98, 0x71374491, 0xB5C0FBCF, 0xE9B5DBA5, 0x3956C25B, 0x59F111F1, 0x923F82A4, 0xAB1C5ED5,
     0xD807AA98, 0x12835B01, 0x243185BE, 0x550C7DC3, 0x72BE5D74, 0x80DEB1FE, 0x9BDC06A7, 0xC19BF174,
     0xE49B69C1, 0xEFBE4786, 0x0FC19DC6, 0x240CA1CC, 0x2DE92C6F, 0x4A7484AA, 0x5CB0A9DC, 0x76F988DA,
     0x983E5152, 0xA831C66D, 0xB00327C8, 0xBF597FC7, 0xC6E00BF3, 0xD5A79147, 0x06CA6351, 0x14292967,
     0x27B70A85, 0x2E1B2138, 0x4D2C6DFC, 0x53380D13, 0x650A7354, 0x766A0ABB, 0x81C2C92E, 0x92722C85,
     0xA2BFE8A1, 0xA81A664B, 0xC24B8B70, 0xC76C51A3, 0xD192E819, 0xD6990624, 0xF40E3585, 0x106AA070,
     0x19A4C116, 0x1E376C08, 0x2748774C, 0x34B0BCB5, 0x391C0CB3, 0x4ED8AA4A, 0x5B9CCA4F, 0x682E6FF3,
     0x748F82EE, 0x78A5636F, 0x84C87814, 0x8CC70208, 0x90BEFFFA, 0xA4506CEB, 0xBEF9A3F7, 0xC67178F2]"

definition sha_H0 :: "uint32 list" where
  "sha_H0 =
    [0x6A09E667, 0xBB67AE85, 0x3C6EF372, 0xA54FF53A, 0x510E527F, 0x9B05688C, 0x1F83D9AB, 0x5BE0CD19]"

definition sha_pad :: "byte list \<Rightarrow> byte list" where
  "sha_pad msg = msg @ [0x80] @ replicate ((119 - length msg mod 64) mod 64) 0
     @ map (\<lambda>i. ucast (drop_bit (8 * (7 - i)) (of_nat (8 * length msg) :: int64))) [0..<8]"

fun be_words :: "byte list \<Rightarrow> uint32 list" where
  "be_words (a # b # c # d # bs) =
     (push_bit 24 (ucast a) OR push_bit 16 (ucast b) OR push_bit 8 (ucast c) OR ucast d) # be_words bs"
| "be_words bs = []"

text \<open>The message schedule, kept reversed: the word computed last comes first.\<close>

fun sha_schedule :: "nat \<Rightarrow> uint32 list \<Rightarrow> uint32 list" where
  "sha_schedule 0 w = w"
| "sha_schedule (Suc n) w =
     (let w15 = w ! 14; w2 = w ! 1;
          s0 = rotr 7 w15 XOR rotr 18 w15 XOR drop_bit 3 w15;
          s1 = rotr 17 w2 XOR rotr 19 w2 XOR drop_bit 10 w2
      in sha_schedule n ((w ! 15 + s0 + w ! 6 + s1) # w))"

fun sha_round :: "uint32 list \<Rightarrow> uint32 \<times> uint32 \<Rightarrow> uint32 list" where
  "sha_round [a, b, c, d, e, f, g, h] (k, w) =
     (let t1 = h + (rotr 6 e XOR rotr 11 e XOR rotr 25 e) + ((e AND f) XOR (NOT e AND g)) + k + w;
          t2 = (rotr 2 a XOR rotr 13 a XOR rotr 22 a) + ((a AND b) XOR (a AND c) XOR (b AND c))
      in [t1 + t2, a, b, c, d + t1, e, f, g])"
| "sha_round s kw = s"

definition sha_block :: "uint32 list \<Rightarrow> uint32 list \<Rightarrow> uint32 list" where
  "sha_block h block =
     map2 (+) h (foldl sha_round h (zip sha_K (rev (sha_schedule 48 (rev block)))))"

function sha_blocks :: "uint32 list \<Rightarrow> uint32 list \<Rightarrow> uint32 list" where
  "sha_blocks h ws = (if ws = [] then h else sha_blocks (sha_block h (take 16 ws)) (drop 16 ws))"
  by pat_completeness auto
termination by (relation "measure (\<lambda>(h, ws). length ws)") auto

declare sha_blocks.simps [simp del]

definition be_bytes :: "uint32 \<Rightarrow> byte list" where
  "be_bytes w = [ucast (drop_bit 24 w), ucast (drop_bit 16 w), ucast (drop_bit 8 w), ucast w]"

definition Sum256 :: "byte list \<Rightarrow> byte list" where
  "Sum256 msg = concat (map be_bytes (sha_blocks sha_H0 (be_words (sha_pad msg))))"

definition HashString :: "string \<Rightarrow> string" where
  "HashString s = EncodeHex (Sum256 (go_bytes s))"

lemma length_sha_round: "length s = 8 \<Longrightarrow> length (sha_round s kw) = 8"
  by (induction s kw rule: sha_round.induct) (auto simp: Let_def)

lemma length_sha_rounds: "length s = 8 \<Longrightarrow> length (foldl sha_round s kws) = 8"
  by (induction kws arbitrary: s) (simp_all add: length_sha_round)

lemma length_sha_blocks: "length h = 8 \<Longrightarrow> length (sha_blocks h ws) = 8"
proof (induction h ws rule: sha_blocks.induct)
  case (1 h ws)
  then show ?case
    by (subst sha_blocks.simps) (simp add: sha_block_def length_sha_rounds)
qed

lemma length_Sum256: "length (Sum256 msg) = 32"
proof -
  have "length (sha_blocks sha_H0 ws) = 8" for ws
    by (rule length_sha_blocks) (simp add: sha_H0_def)
  moreover have "length (concat (map be_bytes ws)) = 4 * length ws" for ws
    by (induction ws) (simp_all add: be_bytes_def)
  ultimately show ?thesis by (simp add: Sum256_def)
qed

lemma length_EncodeHex: "length (EncodeHex bs) = 2 * length bs"
  by (induction bs) (simp_all add: EncodeHex_def hex_byte_def)

lemma byte_eqI:
  assumes "\<And>n. n \<in> {0, 1, 2, 3, 4, 5, 6, 7} \<Longrightarrow> bit a n = bit b n"
  shows "a = (b :: byte)"
proof (rule bit_word_eqI)
  fix n assume "n < LENGTH(8)"
  then have "n \<in> {0, 1, 2, 3, 4, 5, 6, 7}" by auto
  then show "bit a n = bit b n" by (rule assms)
qed

lemma and_masks: "(b :: byte) AND 3 = take_bit 2 b" "b AND 15 = take_bit 4 b" "b AND 63 = take_bit 6 b"
  by (simp_all add: take_bit_eq_mask mask_eq_exp_minus_1)

lemma unat_take_bit_lt: "take_bit k x = x \<Longrightarrow> unat (x :: byte) < 2 ^ k"
  by (metis take_bit_nat_less_exp unsigned_take_bit_eq)

lemma nibble_lt: "unat (drop_bit 4 (b :: byte)) < 16" "unat (b AND 15) < 16"
proof -
  have "take_bit 4 (drop_bit 4 b) = drop_bit 4 b" by (rule byte_eqI) (auto simp: bit_simps dest: bit_imp_le_length)
  then show "unat (drop_bit 4 b) < 16" using unat_take_bit_lt[of 4 "drop_bit 4 b"] by simp
  show "unat (b AND 15) < 16"
    using unat_take_bit_lt[of 4 "b AND 15"] by (simp add: and_masks)
qed

lemma EncodeHex_digits: "set (EncodeHex bs) \<subseteq> set hex_digits"
proof -
  have "set (hex_byte b) \<subseteq> set hex_digits" for b
    using nibble_lt[of b] nth_mem[of _ hex_digits] by (simp add: hex_byte_def hex_digits_def)
  then show ?thesis by (auto simp: EncodeHex_def)
qed

section \<open>Base64\<close>

text \<open>
  \<^verbatim>\<open>base64.StdEncoding\<close>.  Its decoder drops line breaks, asks for padding up to a multiple
  of four characters, and does not look at the unused bits of the last sextet.
\<close>

definition b64_alphabet :: string where
  "b64_alphabet = ''ABCDEFGHIJKLMNOPQRSTUVWXYZabcdefghijklmnopqrstuvwxyz0123456789+/''"

definition b64_char :: "byte \<Rightarrow> char" where
  "b64_char b = b64_alphabet ! unat b"

definition b64_value :: "char \<Rightarrow> byte option" where
  "b64_value c =
     (let i = length (takeWhile (\<lambda>x. x \<noteq> c) b64_alphabet) in if i < 64 then Some (of_nat i) else None)"

definition sextet1 :: "byte \<Rightarrow> byte" where "sextet1 a = drop_bit 2 a"
definition sextet2 :: "byte \<Rightarrow> byte \<Rightarrow> byte" where
  "sextet2 a b = push_bit 4 (a AND 3) OR drop_bit 4 b"
definition sextet3 :: "byte \<Rightarrow> byte \<Rightarrow> byte" where
  "sextet3 b c = push_bit 2 (b AND 15) OR drop_bit 6 c"
definition sextet4 :: "byte \<Rightarrow> byte" where "sextet4 c = c AND 63"

definition octet1 :: "byte \<Rightarrow> byte \<Rightarrow> byte" where "octet1 p q = push_bit 2 p OR drop_bit 4 q"
definition octet2 :: "byte \<Rightarrow> byte \<Rightarrow> byte" where "octet2 q r = push_bit 4 q OR drop_bit 2 r"
definition octet3 :: "byte \<Rightarrow> byte \<Rightarrow> byte" where "octet3 r s = push_bit 6 r OR s"

fun b64_encode :: "byte list \<Rightarrow> string" where
  "b64_encode [] = []"
| "b64_encode [a] = [b64_char (sextet1 a), b64_char (sextet2 a 0), CHR ''='', CHR ''='']"
| "b64_encode [a, b] =
     [b64_char (sextet1 a), b64_char (sextet2 a b), b64_char (sextet3 b 0), CHR ''='']"
| "b64_encode (a # b # c # bs) =
     b64_char (sextet1 a) # b64_char (sextet2 a b) # b64_char (sextet3 b c) # b64_char (sextet4 c)
       # b64_encode bs"

fun b64_quanta :: "string \<Rightarrow> byte list option" where
  "b64_quanta [] = Some []"
| "b64_quanta (w # x # y # z # cs) =
     (case (b64_value w, b64_value x) of
        (Some p, Some q) \<Rightarrow>
          (case (b64_value y, b64_value z) of
             (Some r, Some s) \<Rightarrow>
               map_option (\<lambda>bs. octet1 p q # octet2 q r # octet3 r s # bs) (b64_quanta cs)
           | (Some r, None) \<Rightarrow>
               if z = CHR ''='' \<and> cs = [] then Some [octet1 p q, octet2 q r] else None
           | (None, _) \<Rightarrow>
               if y = CHR ''='' \<and> z = CHR ''='' \<and> cs = [] then Some [octet1 p q] else None)
      | _ \<Rightarrow> None)"
| "b64_quanta cs = None"

definition b64_decode :: "string \<Rightarrow> byte list option" where
  "b64_decode s = b64_quanta (filter (\<lambda>c. c \<noteq> CHR 10 \<and> c \<noteq> CHR 13) s)"

lemma octets:
  "octet1 (sextet1 a) (sextet2 a b) = a"
  "octet2 (sextet2 a b) (sextet3 b c) = b"
  "octet3 (sextet3 b c) (sextet4 c) = c"
  unfolding octet1_def octet2_def octet3_def sextet1_def sextet2_def sextet3_def sextet4_def and_masks
  by (rule byte_eqI; (auto simp: bit_simps dest: bit_imp_le_length)?; simp add: numeral_2_eq_2 numeral_3_eq_3)+

lemma sextets:
  "unat (sextet1 a) < 64" "unat (sextet2 a b) < 64" "unat (sextet3 b c) < 64" "unat (sextet4 c) < 64"
proof -
  have small: "unat x < 64" if "take_bit 6 x = x" for x :: byte
    using unat_take_bit_lt[OF that] by simp
  show "unat (sextet1 a) < 64" "unat (sextet2 a b) < 64" "unat (sextet3 b c) < 64" "unat (sextet4 c) < 64"
    unfolding sextet1_def sextet2_def sextet3_def sextet4_def and_masks
    by (rule small; rule byte_eqI; (auto simp: bit_simps dest: bit_imp_le_length)?; simp add: numeral_2_eq_2 numeral_3_eq_3)+
qed

lemma b64_table:
  "\<forall>i\<in>set [0..<64]. b64_value (b64_alphabet ! i) = Some (of_nat i)
     \<and> b64_alphabet ! i \<notin> {CHR 10, CHR 13, CHR ''=''}"
  by code_simp

lemma b64_value_char: "unat b < 64 \<Longrightarrow> b64_value (b64_char b) = Some b"
  using b64_table by (auto simp: b64_char_def dest!: bspec[of _ _ "unat b"])

lemma b64_char_plain:
  "unat b < 64 \<Longrightarrow> b64_char b \<noteq> CHR 10 \<and> b64_char b \<noteq> CHR 13 \<and> b64_char b \<noteq> CHR ''=''"
  using b64_table by (auto simp: b64_char_def dest!: bspec[of _ _ "unat b"])

lemma b64_pad: "b64_value (CHR ''='') = None"
  by (simp add: b64_value_def b64_alphabet_def)

theorem b64_decode_encode: "b64_decode (b64_encode bs) = Some bs"
proof -
  have "filter (\<lambda>c. c \<noteq> CHR 10 \<and> c \<noteq> CHR 13) (b64_encode bs) = b64_encode bs"
    by (induction bs rule: b64_encode.induct) (simp_all add: b64_char_plain sextets)
  moreover have "b64_quanta (b64_encode bs) = Some bs"
    by (induction bs rule: b64_encode.induct)
      (simp_all add: b64_value_char sextets octets b64_pad)
  ultimately show ?thesis by (simp add: b64_decode_def)
qed

section \<open>Generated identifiers\<close>

definition GenerateID :: "int64 \<Rightarrow> nat \<Rightarrow> string \<Rightarrow> string" where
  "GenerateID nanos rnd pre = pre @ ''_'' @ show_int (sint nanos) @ ''_'' @ show_nat rnd"

lemma show_nat_digits: "c \<in> set (show_nat n) \<Longrightarrow> \<exists>d<10. c = digit d"
proof (induction n rule: show_nat.induct)
  case (1 n)
  then show ?case
  proof (cases "n < 10")
    case True
    with 1 show ?thesis by (subst (asm) show_nat.simps) auto
  next
    case False
    then have "show_nat n = show_nat (n div 10) @ [digit (n mod 10)]"
      by (subst show_nat.simps) simp
    with 1 False show ?thesis by (auto intro: exI[of _ "n mod 10"])
  qed
qed

lemma digit_plain: "d < 10 \<Longrightarrow> digit d \<noteq> CHR ''_'' \<and> digit d \<noteq> CHR ''-''"
proof -
  assume "d < 10"
  then have "(of_char (digit d) :: nat) = 48 + d" by (simp add: digit_def of_char_of)
  with \<open>d < 10\<close> show ?thesis by (auto dest!: arg_cong[where f = "of_char :: char \<Rightarrow> nat"])
qed

lemma show_nat_plain: "CHR ''_'' \<notin> set (show_nat n)" "CHR ''-'' \<notin> set (show_nat n)"
  using show_nat_digits digit_plain by fastforce+

lemma show_int_inj: "show_int a = show_int b \<Longrightarrow> a = b"
  by (auto simp: show_int_def dest: show_nat_inj split: if_splits)
    (metis list.set_intros(1) show_nat_plain(2))+

lemma show_int_plain: "CHR ''_'' \<notin> set (show_int a)"
  by (simp add: show_int_def show_nat_plain)

lemma append_sep_eq:
  "c \<notin> set xs \<Longrightarrow> c \<notin> set xs' \<Longrightarrow> xs @ c # ys = xs' @ c # ys' \<longleftrightarrow> xs = xs' \<and> ys = ys'"
proof (induction xs arbitrary: xs')
  case Nil
  then show ?case by (cases xs') auto
next
  case (Cons a xs)
  then show ?case by (cases xs') auto
qed

lemma GenerateID_inj:
  "GenerateID n r p = GenerateID n' r' p \<longleftrightarrow> n = n' \<and> r = r'"
  by (auto simp: GenerateID_def append_sep_eq show_int_plain intro: int64_eqI
      dest!: show_int_inj show_nat_inj)
end
