(* ===== verification/LsApi.thy ===== *)
theory LsApi
  imports Digest Metrics Config
begin

text \<open>
  \<^verbatim>\<open>RegisterLS\<close> of \<^verbatim>\<open>internal/vm/vm_pool.go\<close>: the objects and functions a script finds in its
  runtime.  A native function takes the call's arguments and the world and gives the Go value
  handed to \<^verbatim>\<open>vm.ToValue\<close>.  Parameters are goja's conversions of an argument of type \<open>'v\<close>
  (they run script code and may throw, the value \<^const>\<open>Panic\<close>), the JSON functions, the HTTP
  client and the time zone.  The lemmas say what the functions return when they are called
  through the registered objects.
\<close>

section \<open>Environment and world\<close>

text \<open>
  A response whose body fails to be read after \<open>n\<close> bytes has \<open>rs_fail = Some (n, e)\<close>, the
  error coming with a read of its own.
\<close>

record 'h http_response =
  rs_status :: int64
  rs_header :: 'h
  rs_body :: string
  rs_fail :: "(nat \<times> string) option"

record ('v, 'j, 'h) ls_env =
  js_string :: "'v \<Rightarrow> string result"
  js_integer :: "'v \<Rightarrow> int64 result"
  js_export :: "'v \<Rightarrow> 'j"
  json_parse :: "string \<Rightarrow> 'j option"
  json_text :: "'j \<Rightarrow> string option"
  http_get :: "string \<Rightarrow> string + 'h http_response"
  local_format :: "int \<Rightarrow> string"

text \<open>\<open>w_clock i\<close> is the \<open>i\<close>th reading of the clock, in nanoseconds since the epoch.\<close>

record ls_world =
  w_clock :: "nat \<Rightarrow> int"
  w_reads :: nat
  w_log :: "string list"
  w_slept :: "int64 list"
  w_metrics :: metrics
  w_uptime :: int64
  w_runtime :: "(string \<times> int64) list"

definition read_clock :: "ls_world \<Rightarrow> int \<times> ls_world" where
  "read_clock w = (w_clock w (w_reads w), w\<lparr>w_reads := Suc (w_reads w)\<rparr>)"

datatype ('j, 'h) goVal =
    GoNull | GoStr string | GoInt int64 | GoJson 'j | GoHeader 'h
  | GoMap "(string \<times> ('j, 'h) goVal) list"

type_synonym ('v, 'j, 'h) native =
  "('v, 'j, 'h) ls_env \<Rightarrow> 'v list \<Rightarrow> ls_world \<Rightarrow> ('j, 'h) goVal result \<times> ls_world"

datatype ('v, 'j, 'h) member =
    MText string
  | MNative "('v, 'j, 'h) native"
  | MObj "(string \<times> ('v, 'j, 'h) member) list"

section \<open>The functions\<close>

text \<open>\<^verbatim>\<open>if len(call.Arguments) < 1 { return d }\<close>, then \<open>f\<close> of \<^verbatim>\<open>call.Argument(0).String()\<close>.\<close>

definition on_string ::
  "('j, 'h) goVal \<Rightarrow> (string \<Rightarrow> ('j, 'h) goVal) \<Rightarrow> ('v, 'j, 'h) native" where
  "on_string d f env args w =
    (case args of
       [] \<Rightarrow> (Value d, w)
     | v # _ \<Rightarrow> (case js_string env v of Panic \<Rightarrow> (Panic, w) | Value s \<Rightarrow> (Value (f s), w)))"

fun join_args :: "('v, 'j, 'h) ls_env \<Rightarrow> nat \<Rightarrow> 'v list \<Rightarrow> string \<Rightarrow> string result" where
  "join_args env i [] msg = Value msg"
| "join_args env i (v # vs) msg =
    (case js_string env v of
       Panic \<Rightarrow> Panic
     | Value s \<Rightarrow> join_args env (Suc i) vs ((if i > 0 then msg @ '' '' else msg) @ s))"

definition console_log :: "('v, 'j, 'h) native" where
  "console_log env args w =
    (case join_args env 0 args [] of
       Panic \<Rightarrow> (Panic, w)
     | Value msg \<Rightarrow> (Value GoNull, w\<lparr>w_log := w_log w @ [''[LS] '' @ msg]\<rparr>))"

definition BODY_LIMIT :: nat where "BODY_LIMIT = 10 * 1024 * 1024"

definition error_map :: "string \<Rightarrow> ('j, 'h) goVal" where
  "error_map e = GoMap [(''error'', GoStr e)]"

definition response_map :: "'h http_response \<Rightarrow> ('j, 'h) goVal" where
  "response_map resp =
    GoMap [(''status'', GoInt (rs_status resp)), (''body'', GoStr (take BODY_LIMIT (rs_body resp))),
      (''headers'', GoHeader (rs_header resp))]"

definition ls_http_get :: "('v, 'j, 'h) native" where
  "ls_http_get env args w =
    (case args of
       [] \<Rightarrow> (Value (GoMap []), w)
     | v # _ \<Rightarrow>
         (case js_string env v of
            Panic \<Rightarrow> (Panic, w)
          | Value url \<Rightarrow>
              (case http_get env url of
                 Inl e \<Rightarrow> (Value (error_map e), w)
               | Inr resp \<Rightarrow>
                   (case rs_fail resp of
                      Some (n, e) \<Rightarrow>
                        (Value (if n < BODY_LIMIT then error_map e else response_map resp), w)
                    | None \<Rightarrow> (Value (response_map resp), w)))))"

definition ls_hash :: "('v, 'j, 'h) native" where
  "ls_hash = on_string (GoStr []) (\<lambda>s. GoStr (EncodeHex (Sum256 (go_bytes s))))"

definition ls_base64Encode :: "('v, 'j, 'h) native" where
  "ls_base64Encode = on_string (GoStr []) (\<lambda>s. GoStr (b64_encode (go_bytes s)))"

definition ls_base64Decode :: "('v, 'j, 'h) native" where
  "ls_base64Decode = on_string (GoStr [])
     (\<lambda>s. GoStr (case b64_decode s of None \<Rightarrow> [] | Some bs \<Rightarrow> go_string bs))"

text \<open>
  \<^verbatim>\<open>b[i] = byte(time.Now().UnixNano() >> (i * 8))\<close>: the shift is arithmetic, so from the
  eighth byte on only the sign is left.
\<close>

fun uuid_bytes :: "nat \<Rightarrow> nat \<Rightarrow> ls_world \<Rightarrow> byte list \<times> ls_world" where
  "uuid_bytes i 0 w = ([], w)"
| "uuid_bytes i (Suc n) w =
    (let (t, w1) = read_clock w; (bs, w2) = uuid_bytes (Suc i) n w1
     in (ucast (signed_drop_bit (8 * i) (word_of_int t :: int64)) # bs, w2))"

definition uuid_text :: "byte list \<Rightarrow> string" where
  "uuid_text b0 =
    (let b = b0[6 := (b0 ! 6 AND 0x0F) OR 0x40]; b = b[8 := (b ! 8 AND 0x3F) OR 0x80]
     in EncodeHex (take 4 b) @ ''-'' @ EncodeHex (take 2 (drop 4 b)) @ ''-''
        @ EncodeHex (take 2 (drop 6 b)) @ ''-'' @ EncodeHex (take 2 (drop 8 b)) @ ''-''
        @ EncodeHex (drop 10 b))"

definition ls_uuid :: "('v, 'j, 'h) native" where
  "ls_uuid env args w = (case uuid_bytes 0 16 w of (b, w') \<Rightarrow> (Value (GoStr (uuid_text b)), w'))"

definition ls_now :: "('v, 'j, 'h) native" where
  "ls_now env args w =
    (case read_clock w of (t, w') \<Rightarrow> (Value (GoInt (word_of_int (t div 1000000000))), w'))"

definition ls_time :: "('v, 'j, 'h) native" where
  "ls_time env args w = (case read_clock w of (t, w') \<Rightarrow> (Value (GoStr (local_format env t)), w'))"

text \<open>\<^verbatim>\<open>time.Duration(ms) * time.Millisecond\<close> wraps; a sleep that is not positive returns at once.\<close>

definition sleep_duration :: "int64 \<Rightarrow> int64" where
  "sleep_duration ms = ms * 1000000"

definition ls_sleep :: "('v, 'j, 'h) native" where
  "ls_sleep env args w =
    (case (case args of [] \<Rightarrow> Value 100 | v # _ \<Rightarrow> js_integer env v) of
       Panic \<Rightarrow> (Panic, w)
     | Value ms \<Rightarrow> (Value GoNull, w\<lparr>w_slept := w_slept w @ [sleep_duration ms]\<rparr>))"

definition ls_json :: "('v, 'j, 'h) native" where
  "ls_json env = on_string GoNull
     (\<lambda>s. case json_parse env s of None \<Rightarrow> GoNull | Some j \<Rightarrow> GoJson j) env"

definition ls_stringify :: "('v, 'j, 'h) native" where
  "ls_stringify env args w =
    (case args of
       [] \<Rightarrow> (Value (GoStr []), w)
     | v # _ \<Rightarrow> (Value (GoStr (case json_text env (js_export env v) of None \<Rightarrow> [] | Some s \<Rightarrow> s)), w))"

definition ls_stats :: "('v, 'j, 'h) native" where
  "ls_stats env args w =
    (Value (GoMap (map (\<lambda>(k, n). (k, GoInt n)) (GetStats (w_uptime w) (w_runtime w) (w_metrics w)))), w)"

section \<open>Registration\<close>

definition app_object :: "'c appConfig \<Rightarrow> string \<Rightarrow> ('v, 'j, 'h) member" where
  "app_object cfg root =
    MObj [(''name'', MText (Name cfg)), (''version'', MText (Version cfg)),
      (''port'', MText (Port cfg)), (''root'', MText root),
      (''environment'', MText (Environment cfg))]"

definition crypto_members :: "(string \<times> ('v, 'j, 'h) member) list" where
  "crypto_members = [(''hash'', MNative ls_hash), (''uuid'', MNative ls_uuid),
     (''base64Encode'', MNative ls_base64Encode), (''base64Decode'', MNative ls_base64Decode)]"

definition ls_object :: "'c appConfig \<Rightarrow> string \<Rightarrow> ('v, 'j, 'h) member" where
  "ls_object cfg root =
    MObj [(''app'', app_object cfg root),
      (''http'', MObj [(''get'', MNative ls_http_get)]),
      (''crypto'', MObj crypto_members),
      (''now'', MNative ls_now), (''time'', MNative ls_time), (''sleep'', MNative ls_sleep),
      (''json'', MNative ls_json), (''stringify'', MNative ls_stringify),
      (''stats'', MNative ls_stats)]"

text \<open>\<open>config.AppCfg\<close> is a pointer: nil, the value \<^const>\<open>None\<close>, until the configuration is loaded.\<close>

definition RegisterLS :: "'c appConfig option \<Rightarrow> string \<Rightarrow> (string \<times> ('v, 'j, 'h) member) list
    \<Rightarrow> (string \<times> ('v, 'j, 'h) member) list result" where
  "RegisterLS appCfg projectRoot globals =
    (case appCfg of
       None \<Rightarrow> Panic
     | Some cfg \<Rightarrow>
         Value (AList.update ''ls'' (ls_object cfg projectRoot)
           (AList.update ''print'' (MNative console_log)
              (AList.update ''console'' (MObj [(''log'', MNative console_log)]) globals))))"

fun member_at :: "(string \<times> ('v, 'j, 'h) member) list \<Rightarrow> string list \<Rightarrow> ('v, 'j, 'h) member option" where
  "member_at obj [] = None"
| "member_at obj [k] = map_of obj k"
| "member_at obj (k # ks) =
    (case map_of obj k of Some (MObj sub) \<Rightarrow> member_at sub ks | _ \<Rightarrow> None)"

declare member_at.simps [simp del]

definition call_native :: "('v, 'j, 'h) ls_env \<Rightarrow> (string \<times> ('v, 'j, 'h) member) list \<Rightarrow> string list
    \<Rightarrow> 'v list \<Rightarrow> ls_world \<Rightarrow> (('j, 'h) goVal result \<times> ls_world) option" where
  "call_native env globals path args w =
    (case member_at globals path of Some (MNative f) \<Rightarrow> Some (f env args w) | _ \<Rightarrow> None)"

section \<open>Calls through the registered objects\<close>

lemma RegisterLS_Value:
  "RegisterLS cfg root g = Value g' \<Longrightarrow>
   \<exists>c. cfg = Some c \<and> map_of g' = (map_of g)(''console'' \<mapsto> MObj [(''log'', MNative console_log)],
      ''print'' \<mapsto> MNative console_log, ''ls'' \<mapsto> ls_object c root)"
  by (auto simp: RegisterLS_def split: option.splits)

lemma ls_registered:
  "RegisterLS cfg root g = Value g' \<Longrightarrow> \<exists>c. cfg = Some c \<and> map_of g' ''ls'' = Some (ls_object c root)"
  by (drule RegisterLS_Value) auto

lemma crypto_registered:
  assumes "RegisterLS cfg root g = Value g'"
  shows "member_at g' [''ls'', ''crypto'', k] = map_of crypto_members k"
proof -
  obtain c where "cfg = Some c" and "map_of g' ''ls'' = Some (ls_object c root)" using ls_registered[OF assms] by blast
  then show ?thesis
    unfolding member_at.simps ls_object_def by (simp add: member_at.simps crypto_members_def)
qed

lemma member_registered:
  assumes "RegisterLS cfg root g = Value g'"
  shows "member_at g' [''ls'', ''crypto'', ''hash''] = Some (MNative ls_hash)"
    and "member_at g' [''ls'', ''crypto'', ''uuid''] = Some (MNative ls_uuid)"
    and "member_at g' [''ls'', ''crypto'', ''base64Encode''] = Some (MNative ls_base64Encode)"
    and "member_at g' [''ls'', ''crypto'', ''base64Decode''] = Some (MNative ls_base64Decode)"
  unfolding crypto_registered[OF assms] crypto_members_def by simp_all

lemma uuid_bytes_clock:
  "uuid_bytes i n w =
     (map (\<lambda>k. ucast (signed_drop_bit (8 * (i + k)) (word_of_int (w_clock w (w_reads w + k)) :: int64))) [0..<n],
      w\<lparr>w_reads := w_reads w + n\<rparr>)"
proof (induction n arbitrary: i w)
  case (Suc n)
  show ?case
    by (simp add: Suc read_clock_def upt_conv_Cons map_Suc_upt[symmetric] ac_simps del: upt_Suc)
qed simp

lemma shifted_out:
  assumes "0 \<le> t" and "t < 2 ^ 63" and "64 \<le> n"
  shows "signed_drop_bit n (word_of_int t :: int64) = 0"
proof (rule int64_eqI)
  have "t < 2 ^ n" using assms power_increasing[of 63 n "2::int"] by linarith
  then show "sint (signed_drop_bit n (word_of_int t :: int64)) = sint (0 :: int64)"
    using assms by (simp add: sint_signed_drop_bit_eq sint_word_of_int drop_bit_eq_div)
qed

lemma version_digit: "drop_bit 4 ((b AND 0x0F) OR 0x40 :: byte) = 4"
proof -
  have "drop_bit 4 ((b AND 0x0F) OR 0x40) = drop_bit 4 (b AND 0x0F) OR drop_bit 4 0x40" by simp
  also have "drop_bit 4 (b AND 0x0F) = 0"
    unfolding and_masks by (rule byte_eqI) (auto simp: bit_simps)
  finally show ?thesis by simp
qed

lemma first_eight:
  assumes "8 \<le> length b"
  shows "take 8 b = [b ! 0, b ! 1, b ! 2, b ! 3, b ! 4, b ! 5, b ! 6, b ! 7]"
proof -
  have "take 8 b = map ((!) b) [0..<8]"
    using assms by (intro nth_equalityI) auto
  also have "[0..<8] = [0, 1, 2, 3, 4, 5, 6, 7]" by (simp add: upt_rec)
  finally show ?thesis by simp
qed

lemma uuid_text_tail:
  assumes "length b = 16" and "drop 8 b = replicate 8 0"
  shows "\<exists>p. uuid_text b = p @ ''-8000-000000000000'' \<and> length p = 18 \<and> p ! 14 = CHR ''4''"
proof -
  obtain b0 b1 b2 b3 b4 b5 b6 b7 where "take 8 b = [b0, b1, b2, b3, b4, b5, b6, b7]"
    using first_eight[of b] assms(1) by simp
  then have b: "b = [b0, b1, b2, b3, b4, b5, b6, b7] @ replicate 8 0"
    using assms(2) by (metis append_take_drop_id)
  have r: "replicate 8 0 = [0, 0, 0, 0, 0, 0, 0, 0 :: byte]" by (simp add: numeral_eq_Suc)
  have z: "EncodeHex [0x80, 0] = ''8000''" "EncodeHex [0, 0, 0, 0, 0, 0] = ''000000000000''"
    by (code_simp, code_simp)
  have four: "hex_byte ((b6 AND 0x0F) OR 0x40) = [CHR ''4'', hex_digits ! unat (((b6 AND 0x0F) OR 0x40) AND 15)]"
    unfolding hex_byte_def version_digit by (simp add: hex_digits_def)
  let ?p = "EncodeHex [b0, b1, b2, b3] @ ''-'' @ EncodeHex [b4, b5] @ ''-'' @ EncodeHex [(b6 AND 0x0F) OR 0x40, b7]"
  have "uuid_text b = ?p @ ''-8000-000000000000''"
    by (simp add: uuid_text_def b r z)
  moreover have "length ?p = 18" by (simp add: length_EncodeHex)
  moreover have "?p ! 14 = CHR ''4''"
    by (simp add: nth_append length_EncodeHex) (simp add: EncodeHex_def four)
  ultimately show ?thesis by blast
qed

section \<open>Properties\<close>

text \<open>
  C14. Base64 round trip: what \<open>ls.crypto.base64Encode\<close> returns for a string, given to
  \<open>ls.crypto.base64Decode\<close>, gives the bytes of the string back, and neither call touches the
  world.
\<close>

theorem base64_roundtrip:
  assumes reg: "RegisterLS cfg root g = Value g'" and v: "js_string env v = Value s"
  shows "\<exists>t. call_native env g' [''ls'', ''crypto'', ''base64Encode''] [v] w = Some (Value (GoStr t), w)
    \<and> (\<forall>v' w'. js_string env v' = Value t \<longrightarrow>
        call_native env g' [''ls'', ''crypto'', ''base64Decode''] [v'] w' = Some (Value (GoStr s), w'))"
proof (intro exI conjI allI impI)
  let ?t = "b64_encode (go_bytes s)"
  show "call_native env g' [''ls'', ''crypto'', ''base64Encode''] [v] w = Some (Value (GoStr ?t), w)"
    by (simp add: call_native_def member_registered[OF reg] ls_base64Encode_def on_string_def v)
  show "call_native env g' [''ls'', ''crypto'', ''base64Decode''] [v'] w' = Some (Value (GoStr s), w')"
    if "js_string env v' = Value ?t" for v' w'
    by (simp add: call_native_def member_registered[OF reg] ls_base64Decode_def on_string_def that
        b64_decode_encode go_string_bytes)
qed

text \<open>
  \<open>ls.crypto.hash\<close> returns the digest \<open>HashString\<close> computes, always 64 lower-case
  hexadecimal digits, and the empty string when it is called without an argument.
\<close>

theorem hash_digits:
  assumes reg: "RegisterLS cfg root g = Value g'"
  shows "call_native env g' [''ls'', ''crypto'', ''hash''] args w =
      Some (case args of
          [] \<Rightarrow> Value (GoStr [])
        | v # _ \<Rightarrow> (case js_string env v of Panic \<Rightarrow> Panic | Value s \<Rightarrow> Value (GoStr (HashString s))), w)"
    and "length (HashString s) = 64" and "set (HashString s) \<subseteq> set hex_digits"
  by (simp_all add: call_native_def member_registered[OF reg] ls_hash_def on_string_def
      HashString_def length_EncodeHex length_Sum256 EncodeHex_digits split: list.splits result.splits)

text \<open>
  C37. The identifiers of \<open>ls.crypto.uuid\<close> carry the clock only: at any time from 1970 on the
  last two groups are \<open>8000-000000000000\<close>, and two calls whose first eight readings of the
  clock agree return the same text, whatever the later readings are.
\<close>

theorem uuid_is_the_clock:
  assumes reg: "RegisterLS cfg root g = Value g'"
    and clock: "\<forall>i<16. 0 \<le> w_clock w (w_reads w + i) \<and> w_clock w (w_reads w + i) < 2 ^ 63"
  shows "\<exists>p w'. call_native env g' [''ls'', ''crypto'', ''uuid''] args w
        = Some (Value (GoStr (p @ ''-8000-000000000000'')), w')
      \<and> length p = 18 \<and> p ! 14 = CHR ''4'' \<and> w_reads w' = w_reads w + 16
      \<and> (\<forall>v. (\<forall>i<16. 0 \<le> w_clock v (w_reads v + i) \<and> w_clock v (w_reads v + i) < 2 ^ 63)
           \<longrightarrow> (\<forall>i<8. w_clock v (w_reads v + i) = w_clock w (w_reads w + i))
           \<longrightarrow> map_option fst (call_native env g' [''ls'', ''crypto'', ''uuid''] args v)
               = Some (Value (GoStr (p @ ''-8000-000000000000''))))"
proof -
  let ?b = "\<lambda>w. fst (uuid_bytes 0 16 w)"
  have len: "length (?b u) = 16" for u by (simp add: uuid_bytes_clock)
  have call: "call_native env g' [''ls'', ''crypto'', ''uuid''] args u
      = Some (Value (GoStr (uuid_text (?b u))), u\<lparr>w_reads := w_reads u + 16\<rparr>)" for u
    by (simp add: call_native_def member_registered[OF reg] ls_uuid_def uuid_bytes_clock)
  have zeros: "drop 8 (?b u) = replicate 8 0"
    if "\<forall>i<16. 0 \<le> w_clock u (w_reads u + i) \<and> w_clock u (w_reads u + i) < 2 ^ 63" for u
    using that by (intro nth_equalityI) (auto simp: uuid_bytes_clock shifted_out)
  obtain p where p: "uuid_text (?b w) = p @ ''-8000-000000000000''" "length p = 18" "p ! 14 = CHR ''4''"
    using uuid_text_tail[OF len zeros[OF clock]] by blast
  have same: "?b v = ?b w"
    if v: "\<forall>i<16. 0 \<le> w_clock v (w_reads v + i) \<and> w_clock v (w_reads v + i) < 2 ^ 63"
      and eq: "\<forall>i<8. w_clock v (w_reads v + i) = w_clock w (w_reads w + i)" for v
  proof -
    have "take 8 (?b v) = take 8 (?b w)"
      using eq by (intro nth_equalityI) (auto simp: uuid_bytes_clock)
    with zeros[OF v] zeros[OF clock] show ?thesis by (metis append_take_drop_id)
  qed
  show ?thesis
    by (intro exI[of _ p] exI[of _ "w\<lparr>w_reads := w_reads w + 16\<rparr>"])
      (simp add: call p same)
qed

lemma sleep_duration_exact:
  assumes "- 9223372036854 \<le> sint ms" and "sint ms \<le> 9223372036854"
  shows "sint (sleep_duration ms) = sint ms * 1000000"
proof -
  have "sleep_duration ms = word_of_int (sint ms * 1000000)"
    by (simp add: sleep_duration_def)
  then have "sint (sleep_duration ms) = sint (word_of_int (sint ms * 1000000) :: int64)"
    by (rule arg_cong)
  also have "\<dots> = sint ms * 1000000" using assms by (intro sint_word_of_int) auto
  finally show ?thesis .
qed

section \<open>Witnesses\<close>

text \<open>Arguments that are strings, JSON text taken as it is, and no network.\<close>

definition demo_ls_env :: "(string, string, unit) ls_env" where
  "demo_ls_env = \<lparr>js_string = Value, js_integer = (\<lambda>s. Value (of_nat (length s))), js_export = (\<lambda>s. s),
     json_parse = Some, json_text = Some, http_get = (\<lambda>u. Inl ''no network''),
     local_format = show_int\<rparr>"

definition demo_globals :: "(string \<times> (string, string, unit) member) list" where
  "demo_globals =
    (case RegisterLS (Some (zero_config :: unit appConfig)) ''/srv'' [] of Value g \<Rightarrow> g | Panic \<Rightarrow> [])"

definition demo_ls_world :: "int \<Rightarrow> ls_world" where
  "demo_ls_world t = \<lparr>w_clock = (\<lambda>i. t), w_reads = 0, w_log = [], w_slept = [],
     w_metrics = GlobalMetrics 0, w_uptime = 0, w_runtime = []\<rparr>"

lemma demo_registered: "RegisterLS (Some (zero_config :: unit appConfig)) ''/srv'' [] = Value demo_globals"
  by (simp add: demo_globals_def RegisterLS_def)

lemma base64_roundtrip_witness:
  "\<exists>t. call_native demo_ls_env demo_globals [''ls'', ''crypto'', ''base64Encode''] [''hello''] (demo_ls_world 5)
        = Some (Value (GoStr t), demo_ls_world 5)
    \<and> call_native demo_ls_env demo_globals [''ls'', ''crypto'', ''base64Decode''] [t] (demo_ls_world 5)
        = Some (Value (GoStr ''hello''), demo_ls_world 5)"
  using base64_roundtrip[OF demo_registered, of demo_ls_env "''hello''" "''hello''" "demo_ls_world 5"]
  by (auto simp: demo_ls_env_def)

lemma hash_digits_witness:
  "call_native demo_ls_env demo_globals [''ls'', ''crypto'', ''hash''] [''abc''] (demo_ls_world 5)
     = Some (Value (GoStr (HashString ''abc'')), demo_ls_world 5)"
  using hash_digits(1)[OF demo_registered, of demo_ls_env "[''abc'']" "demo_ls_world 5"]
  by (simp add: demo_ls_env_def)

lemma uuid_is_the_clock_witness:
  "\<exists>p w'. call_native demo_ls_env demo_globals [''ls'', ''crypto'', ''uuid''] [] (demo_ls_world 1700000000123456789)
     = Some (Value (GoStr (p @ ''-8000-000000000000'')), w') \<and> length p = 18"
  using uuid_is_the_clock[OF demo_registered, of "demo_ls_world 1700000000123456789" demo_ls_env "[]"]
  by (auto simp: demo_ls_world_def)

end
