(* ===== verification/Engine.thy ===== *)
theory Engine
  imports Hashing BTree Metrics GoStrings
begin

text \<open>
  \<^verbatim>\<open>internal/jsondb/engine.go\<close> and \<^verbatim>\<open>shard.go\<close>: the document store over sixteen SQLite
  databases and one for the collections.  SQLite and \<^verbatim>\<open>encoding/json\<close> are parameters: the
  record \<open>sql_api\<close> has one operation per statement the code executes, \<open>table_ok\<close> says what
  SQL promises of them, \<open>codec\<close> holds the JSON functions.  Times are arguments, and so is the
  random number of a new id.  The background update of a collection's count is an entry of
  \<open>pending\<close>.  An operation returns \<^const>\<open>Panic\<close> or a \<^const>\<open>Value\<close>, an error or a result.
\<close>

section \<open>Documents, rows and databases\<close>

text \<open>The dynamic types of an \<^verbatim>\<open>interface{}\<close> in a document; \<open>VOther\<close> is any further one.\<close>

datatype gval =
  VString string | VFloat64 float64 | VInt64 int64 | VInt int64 | VBool bool | VNil | VOther nat

text \<open>A \<^verbatim>\<open>map[string]interface{}\<close>; \<^const>\<open>None\<close> is the nil map.\<close>

type_synonym goDoc = "(string \<times> gval) list option"

definition doc_get :: "goDoc \<Rightarrow> string \<Rightarrow> gval option" where
  "doc_get d k = (case d of None \<Rightarrow> None | Some m \<Rightarrow> map_of m k)"

record row =
  r_id :: string
  r_collection :: string
  r_data :: string
  r_created :: int
  r_updated :: int

text \<open>A row of \<^verbatim>\<open>collections\<close>: schema, indices, count, shard key (\<^const>\<open>None\<close> is NULL).\<close>

datatype meta_result = NoRows | QueryError string | MetaRow string string int64 "string option"

record ('db, 'meta) sql_api =
  t_rows :: "'db \<Rightarrow> string \<rightharpoonup> row"
  db_insert :: "row \<Rightarrow> 'db \<Rightarrow> string + 'db"
  db_replace :: "row list \<Rightarrow> 'db \<Rightarrow> string + 'db"
  db_get :: "string \<Rightarrow> 'db \<Rightarrow> string + string"
  db_update :: "string \<Rightarrow> string \<Rightarrow> int \<Rightarrow> 'db \<Rightarrow> string + 'db"
  db_delete :: "string \<Rightarrow> 'db \<Rightarrow> string + 'db"
  db_page :: "string \<Rightarrow> int \<Rightarrow> int \<Rightarrow> 'db \<Rightarrow> string + row list"
  m_exists :: "string \<Rightarrow> 'meta \<Rightarrow> string + int"
  m_insert :: "string \<Rightarrow> string \<Rightarrow> string \<Rightarrow> int \<Rightarrow> 'meta \<Rightarrow> string + 'meta"
  m_select :: "string \<Rightarrow> 'meta \<Rightarrow> meta_result"
  m_count :: "string \<Rightarrow> int \<Rightarrow> int \<Rightarrow> 'meta \<Rightarrow> 'meta"

text \<open>
  What SQL promises.  Any statement may fail and then changes nothing; \<open>t_rows\<close> is the
  content of the table \<^verbatim>\<open>documents\<close> by primary key.
\<close>

definition replace_row :: "(string \<rightharpoonup> row) \<Rightarrow> row \<Rightarrow> (string \<rightharpoonup> row)" where
  "replace_row m r = m(r_id r \<mapsto> r)"

definition table_ok :: "('db, 'meta) sql_api \<Rightarrow> bool" where
  "table_ok sql \<longleftrightarrow>
     (\<forall>r db db'. db_insert sql r db = Inr db' \<longrightarrow>
        t_rows sql db (r_id r) = None \<and> t_rows sql db' = (t_rows sql db)(r_id r \<mapsto> r))
   \<and> (\<forall>rs db db'. db_replace sql rs db = Inr db' \<longrightarrow>
        t_rows sql db' = foldl replace_row (t_rows sql db) rs)
   \<and> (\<forall>i db d. db_get sql i db = Inr d \<longrightarrow> map_option r_data (t_rows sql db i) = Some d)
   \<and> (\<forall>i d t db db'. db_update sql i d t db = Inr db' \<longrightarrow>
        t_rows sql db' = (t_rows sql db)(i := map_option (\<lambda>r. r\<lparr>r_data := d, r_updated := t\<rparr>)
          (t_rows sql db i)))
   \<and> (\<forall>i db db'. db_delete sql i db = Inr db' \<longrightarrow> t_rows sql db' = (t_rows sql db)(i := None))
   \<and> (\<forall>c l off db rs. db_page sql c l off db = Inr rs \<longrightarrow> 0 \<le> l \<longrightarrow>
        int (length rs) \<le> l \<and> (\<forall>r\<in>set rs. r_collection r = c \<and> t_rows sql db (r_id r) = Some r))"

record codec =
  enc_doc :: "goDoc \<Rightarrow> string"
  dec_doc :: "string \<Rightarrow> goDoc"
  enc_schema :: "(string \<times> string) list \<Rightarrow> string"
  dec_schema :: "string \<Rightarrow> (string \<times> string) list option"
  enc_indices :: "string list \<Rightarrow> string"
  dec_indices :: "string \<Rightarrow> string list option"

section \<open>The engine\<close>

record jsonDocument =
  d_id :: string
  d_data :: goDoc
  d_created :: int
  d_updated :: int
  d_shard :: nat

record pageResult =
  pr_documents :: "jsonDocument list"
  pr_page :: int64
  pr_pageSize :: int64
  pr_hasMore :: bool

text \<open>A schema is listed in the order in which Go's map iteration visits it.\<close>

record jsonCollection =
  col_name :: string
  col_schema :: "(string \<times> string) list"
  col_indices :: "string list"
  col_docCount :: int64
  col_shardKey :: string

record ('db, 'meta) jsonEngine =
  shards :: "'db list"
  je_pageSize :: int64
  shardCount :: nat
  metadataDB :: 'meta
  collectionCache :: "string \<rightharpoonup> jsonCollection"
  pending :: "(string \<times> int \<times> int) list"
  je_metrics :: metrics

definition JSON_PAGE_SIZE :: int64 where "JSON_PAGE_SIZE = 1000"
definition JSON_SHARD_COUNT :: nat where "JSON_SHARD_COUNT = 16"
definition BATCH_INSERT_SIZE :: nat where "BATCH_INSERT_SIZE = 500"

text \<open>
  \<^verbatim>\<open>InitJSONEngine\<close> once the databases are open: the collections that \<^verbatim>\<open>rows.Scan\<close> could read,
  with what \<^verbatim>\<open>json.Unmarshal\<close> makes of their columns (nothing on an error).
\<close>

definition InitJSONEngine ::
  "codec \<Rightarrow> 'db list \<Rightarrow> 'meta \<Rightarrow> (string \<times> string \<times> string) list \<Rightarrow> ('db, 'meta) jsonEngine" where
  "InitJSONEngine cd dbs meta rows =
    \<lparr>shards = dbs, je_pageSize = JSON_PAGE_SIZE, shardCount = JSON_SHARD_COUNT, metadataDB = meta,
     collectionCache = foldl (\<lambda>m (name, s, i). m(name \<mapsto>
        \<lparr>col_name = name,
         col_schema = (case dec_schema cd s of Some x \<Rightarrow> x | None \<Rightarrow> []),
         col_indices = (case dec_indices cd i of Some x \<Rightarrow> x | None \<Rightarrow> []),
         col_docCount = 0, col_shardKey = []\<rparr>)) Map.empty rows,
     pending = [], je_metrics = GlobalMetrics 0\<rparr>"

definition null_scan_error :: string where
  "null_scan_error = ''sql: Scan error: converting NULL to string is unsupported''"

definition getCollection :: "('db, 'meta) sql_api \<Rightarrow> codec \<Rightarrow> string \<Rightarrow> ('db, 'meta) jsonEngine
    \<Rightarrow> (string + jsonCollection) \<times> ('db, 'meta) jsonEngine" where
  "getCollection sql cd name je =
    (case collectionCache je name of
       Some cached \<Rightarrow> (Inr cached, je)
     | None \<Rightarrow>
         (case m_select sql name (metadataDB je) of
            NoRows \<Rightarrow> (Inl ''collection not found'', je)
          | QueryError e \<Rightarrow> (Inl e, je)
          | MetaRow schemaStr indicesStr docCount None \<Rightarrow> (Inl null_scan_error, je)
          | MetaRow schemaStr indicesStr docCount (Some shardKey) \<Rightarrow>
              (let collection = \<lparr>col_name = name,
                 col_schema = (case dec_schema cd schemaStr of Some x \<Rightarrow> x | None \<Rightarrow> []),
                 col_indices = (case dec_indices cd indicesStr of Some x \<Rightarrow> x | None \<Rightarrow> []),
                 col_docCount = docCount, col_shardKey = shardKey\<rparr>
               in (Inr collection,
                   je\<lparr>collectionCache := (collectionCache je)(name \<mapsto> collection)\<rparr>))))"

definition op_count :: "('db, 'meta) jsonEngine \<Rightarrow> ('db, 'meta) jsonEngine" where
  "op_count je = je\<lparr>je_metrics := IncJsonOps (je_metrics je)\<rparr>"

definition err_count :: "('db, 'meta) jsonEngine \<Rightarrow> ('db, 'meta) jsonEngine" where
  "err_count je = je\<lparr>je_metrics := IncJsonErrors (je_metrics je)\<rparr>"

definition CreateCollection :: "('db, 'meta) sql_api \<Rightarrow> codec \<Rightarrow> int \<Rightarrow> string \<Rightarrow> (string \<times> string) list
    \<Rightarrow> string list \<Rightarrow> ('db, 'meta) jsonEngine \<Rightarrow> (string + unit) \<times> ('db, 'meta) jsonEngine" where
  "CreateCollection sql cd now name schema indices je0 =
    (let je = op_count je0 in
     case m_exists sql name (metadataDB je) of
       Inl e \<Rightarrow> (Inl e, err_count je)
     | Inr exists \<Rightarrow>
         if exists > 0 then (Inl ''collection already exists'', je)
         else (case m_insert sql name (enc_schema cd schema) (enc_indices cd indices) now
                 (metadataDB je) of
                 Inl e \<Rightarrow> (Inl e, err_count je)
               | Inr meta \<Rightarrow>
                   (let collection = \<lparr>col_name = name, col_schema = schema, col_indices = indices,
                      col_docCount = 0, col_shardKey = []\<rparr>
                    in (Inr (), je\<lparr>metadataDB := meta,
                          collectionCache := (collectionCache je)(name \<mapsto> collection)\<rparr>))))"

text \<open>The schema check of one field, and of all of them up to the first error.\<close>

fun has_type :: "string \<Rightarrow> gval \<Rightarrow> bool" where
  "has_type fieldType v =
    (if fieldType = ''string'' then (case v of VString _ \<Rightarrow> True | _ \<Rightarrow> False)
     else if fieldType = ''number''
     then (case v of VFloat64 _ \<Rightarrow> True | VInt64 _ \<Rightarrow> True | VInt _ \<Rightarrow> True | _ \<Rightarrow> False)
     else if fieldType = ''boolean'' then (case v of VBool _ \<Rightarrow> True | _ \<Rightarrow> False)
     else True)"

declare has_type.simps [simp del]

fun validate_schema :: "(string \<times> string) list \<Rightarrow> goDoc \<Rightarrow> string option" where
  "validate_schema [] doc = None"
| "validate_schema ((field, fieldType) # rest) doc =
    (case doc_get doc field of
       Some v \<Rightarrow> if has_type fieldType v then validate_schema rest doc
                 else Some (''field '' @ field @ '' must be '' @ fieldType)
     | None \<Rightarrow> validate_schema rest doc)"

definition route :: "('db, 'meta) jsonEngine \<Rightarrow> string \<Rightarrow> string \<Rightarrow> (nat \<times> 'db) option" where
  "route je doc_id collection =
    (case getShard (shardCount je) doc_id collection of
       None \<Rightarrow> None
     | Some s \<Rightarrow> map_option (\<lambda>db. (s, db)) (go_index (shards je) (int s)))"

definition put_shard :: "nat \<Rightarrow> 'db \<Rightarrow> ('db, 'meta) jsonEngine \<Rightarrow> ('db, 'meta) jsonEngine" where
  "put_shard s db je = je\<lparr>shards := (shards je)[s := db]\<rparr>"

definition engine_Insert :: "('db, 'meta) sql_api \<Rightarrow> codec \<Rightarrow> int \<Rightarrow> int \<Rightarrow> int \<Rightarrow> string \<Rightarrow> goDoc
    \<Rightarrow> ('db, 'meta) jsonEngine \<Rightarrow> (string + string) result \<times> ('db, 'meta) jsonEngine" where
  "engine_Insert sql cd nanos rnd now collection doc je0 =
    (case getCollection sql cd collection (op_count je0) of
       (Inl e, je) \<Rightarrow> (Value (Inl e), err_count je)
     | (Inr col, je) \<Rightarrow>
         (case validate_schema (col_schema col) doc of
            Some e \<Rightarrow> (Value (Inl e), je)
          | None \<Rightarrow>
              (let docid = collection @ ''_'' @ show_int nanos @ ''_'' @ show_int rnd in
               case route je docid collection of
                 None \<Rightarrow> (Panic, je)
               | Some (s, db) \<Rightarrow>
                   (case db_insert sql \<lparr>r_id = docid, r_collection = collection,
                      r_data = enc_doc cd doc, r_created = now, r_updated = now\<rparr> db of
                      Inl e \<Rightarrow> (Value (Inl e), err_count je)
                    | Inr db' \<Rightarrow> (Value (Inr docid),
                        (put_shard s db' je)\<lparr>pending := pending je @ [(collection, 1, now)]\<rparr>)))))"

text \<open>
  \<^verbatim>\<open>for k, v := range update { doc[k] = v }\<close> on the decoded document; a write to a nil map
  panics.
\<close>

definition merge_doc :: "goDoc \<Rightarrow> (string \<times> gval) list \<Rightarrow> goDoc result" where
  "merge_doc doc upd =
    (case doc of
       None \<Rightarrow> if upd = [] then Value None else Panic
     | Some m \<Rightarrow> Value (Some (foldl (\<lambda>m (k, v). AList.update k v m) m upd)))"

definition engine_Update :: "('db, 'meta) sql_api \<Rightarrow> codec \<Rightarrow> int \<Rightarrow> string \<Rightarrow> string
    \<Rightarrow> (string \<times> gval) list \<Rightarrow> ('db, 'meta) jsonEngine
    \<Rightarrow> (string + unit) result \<times> ('db, 'meta) jsonEngine" where
  "engine_Update sql cd now collection docid upd je0 =
    (let je = op_count je0 in
     case route je docid collection of
       None \<Rightarrow> (Panic, je)
     | Some (s, db) \<Rightarrow>
         (case db_get sql docid db of
            Inl e \<Rightarrow> (Value (Inl e), err_count je)
          | Inr dataStr \<Rightarrow>
              (case merge_doc (dec_doc cd dataStr) upd of
                 Panic \<Rightarrow> (Panic, je)
               | Value doc \<Rightarrow>
                   (case db_update sql docid (enc_doc cd doc) now db of
                      Inl e \<Rightarrow> (Value (Inl e), err_count je)
                    | Inr db' \<Rightarrow> (Value (Inr ()), put_shard s db' je)))))"

definition engine_Delete :: "('db, 'meta) sql_api \<Rightarrow> int \<Rightarrow> string \<Rightarrow> string
    \<Rightarrow> ('db, 'meta) jsonEngine \<Rightarrow> (string + unit) result \<times> ('db, 'meta) jsonEngine" where
  "engine_Delete sql now collection docid je0 =
    (let je = op_count je0 in
     case route je docid collection of
       None \<Rightarrow> (Panic, je)
     | Some (s, db) \<Rightarrow>
         (case db_delete sql docid db of
            Inl e \<Rightarrow> (Value (Inl e), err_count je)
          | Inr db' \<Rightarrow> (Value (Inr ()),
              (put_shard s db' je)\<lparr>pending := pending je @ [(collection, -1, now)]\<rparr>)))"

text \<open>The goroutine of the oldest pending count runs.\<close>

definition run_pending :: "('db, 'meta) sql_api \<Rightarrow> ('db, 'meta) jsonEngine \<Rightarrow> ('db, 'meta) jsonEngine" where
  "run_pending sql je =
    (case pending je of
       [] \<Rightarrow> je
     | (name, d, now) # rest \<Rightarrow>
         je\<lparr>metadataDB := m_count sql name d now (metadataDB je), pending := rest\<rparr>)"

section \<open>Reading\<close>

text \<open>
  \<open>FindPage\<close> in 64-bit arithmetic.  The first shards are queried concurrently; \<open>arrival\<close>
  is the order in which their answers come.  A negative number of shards makes \<^verbatim>\<open>make(chan)\<close>
  panic.  Go's sort leaves the order of equal times open; no lemma depends on it.
\<close>

definition int64_mod :: "int64 \<Rightarrow> int64 \<Rightarrow> int64" where
  "int64_mod a b = word_of_int (sint a smod sint b)"

definition page_size :: "int64 \<Rightarrow> int64" where
  "page_size n = (if sint n \<le> 0 \<or> sint n > 1000 then 100 else n)"

definition page_offset :: "int64 \<Rightarrow> int64 \<Rightarrow> int64" where
  "page_offset page psize = (let off = (page - 1) * psize in if sint off < 0 then 0 else off)"

definition shards_needed :: "('db, 'meta) jsonEngine \<Rightarrow> int64 \<Rightarrow> int64 \<Rightarrow> int" where
  "shards_needed je off psize =
    (let n = sint (int64_quot (off + psize + je_pageSize je - 1) (je_pageSize je))
     in if n > int (shardCount je) then int (shardCount je) else n)"

definition shard_offset :: "('db, 'meta) jsonEngine \<Rightarrow> int64 \<Rightarrow> nat \<Rightarrow> int64" where
  "shard_offset je off s =
    (let k = int64_quot off (of_nat (shardCount je))
     in if sint (int64_mod off (of_nat (shardCount je))) > int s then k + 1 else k)"

definition shard_limit :: "('db, 'meta) jsonEngine \<Rightarrow> int64 \<Rightarrow> int64" where
  "shard_limit je psize = int64_quot psize (of_nat (shardCount je)) + 1"

definition shard_docs :: "('db, 'meta) sql_api \<Rightarrow> codec \<Rightarrow> string \<Rightarrow> int64 \<Rightarrow> int64
    \<Rightarrow> ('db, 'meta) jsonEngine \<Rightarrow> nat \<Rightarrow> jsonDocument list" where
  "shard_docs sql cd name off psize je s =
    (case db_page sql name (sint (shard_limit je psize)) (sint (shard_offset je off s)) (shards je ! s) of
       Inl e \<Rightarrow> []
     | Inr rows \<Rightarrow> map (\<lambda>r. \<lparr>d_id = r_id r, d_data = dec_doc cd (r_data r),
         d_created = r_created r, d_updated = r_updated r, d_shard = s\<rparr>) rows)"

definition FindPage :: "('db, 'meta) sql_api \<Rightarrow> codec \<Rightarrow> nat list \<Rightarrow> string \<Rightarrow> (string \<times> gval) list
    \<Rightarrow> int64 \<Rightarrow> int64 \<Rightarrow> ('db, 'meta) jsonEngine
    \<Rightarrow> (string + pageResult) result \<times> ('db, 'meta) jsonEngine" where
  "FindPage sql cd arrival collection query page pageSize0 je0 =
    (let psize = page_size pageSize0; off = page_offset page psize in
     case getCollection sql cd collection je0 of
       (Inl e, je) \<Rightarrow> (Value (Inl e), je)
     | (Inr col, je) \<Rightarrow>
         (let needed = shards_needed je off psize in
          if needed < 0 then (Panic, je)
          else let docs = sort_key (\<lambda>d. - d_updated d)
                 (concat (map (shard_docs sql cd (col_name col) off psize je)
                    (filter (\<lambda>s. int s < needed) arrival)));
               docs = (if length docs > nat (sint psize) then take (nat (sint psize)) docs else docs)
               in (Value (Inr \<lparr>pr_documents = docs, pr_page = int64_quot off psize + 1,
                     pr_pageSize = psize, pr_hasMore = (length docs = nat (sint psize))\<rparr>), je)))"

definition engine_Find :: "('db, 'meta) sql_api \<Rightarrow> codec \<Rightarrow> nat list \<Rightarrow> string \<Rightarrow> (string \<times> gval) list
    \<Rightarrow> ('db, 'meta) jsonEngine \<Rightarrow> (string + jsonDocument list) result \<times> ('db, 'meta) jsonEngine" where
  "engine_Find sql cd arrival collection query je0 =
    (case FindPage sql cd arrival collection query 1 10000 je0 of
       (Panic, je) \<Rightarrow> (Panic, je)
     | (Value (Inl e), je) \<Rightarrow> (Value (Inl e), je)
     | (Value (Inr r), je) \<Rightarrow> (Value (Inr (pr_documents r)), je))"

definition engine_FindOne :: "('db, 'meta) sql_api \<Rightarrow> codec \<Rightarrow> nat list \<Rightarrow> string
    \<Rightarrow> (string \<times> gval) list \<Rightarrow> ('db, 'meta) jsonEngine
    \<Rightarrow> (string + jsonDocument option) result \<times> ('db, 'meta) jsonEngine" where
  "engine_FindOne sql cd arrival collection query je0 =
    (case FindPage sql cd arrival collection query 1 1 je0 of
       (Panic, je) \<Rightarrow> (Panic, je)
     | (Value (Inl e), je) \<Rightarrow> (Value (Inl e), je)
     | (Value (Inr r), je) \<Rightarrow>
         (Value (Inr (case pr_documents r of [] \<Rightarrow> None | d # _ \<Rightarrow> Some d)), je))"

section \<open>Bulk insertion\<close>

text \<open>
  A batch is split by shard, one transaction each, run concurrently on different databases;
  a failing transaction is rolled back, the others stand.  The error returned is that of some
  failing shard; here the lowest.
\<close>

definition bulk_id :: "string \<Rightarrow> int \<Rightarrow> nat \<Rightarrow> string" where
  "bulk_id collection now i = collection @ ''_'' @ show_int now @ ''_'' @ show_nat i"

definition bulk_rows :: "codec \<Rightarrow> string \<Rightarrow> int \<Rightarrow> nat \<Rightarrow> goDoc list \<Rightarrow> row list" where
  "bulk_rows cd collection now base docs =
    map (\<lambda>(i, doc). \<lparr>r_id = bulk_id collection now (base + i), r_collection = collection,
           r_data = enc_doc cd doc, r_created = now, r_updated = now\<rparr>)
      (zip [0..<length docs] docs)"

definition shard_batch :: "('db, 'meta) jsonEngine \<Rightarrow> string \<Rightarrow> row list \<Rightarrow> nat \<Rightarrow> row list" where
  "shard_batch je collection rows s =
     filter (\<lambda>r. getShard (shardCount je) (r_id r) collection = Some s) rows"

definition run_batch :: "('db, 'meta) sql_api \<Rightarrow> row list \<Rightarrow> 'db \<Rightarrow> string option \<times> 'db" where
  "run_batch sql rows db =
    (if rows = [] then (None, db)
     else case db_replace sql rows db of Inl e \<Rightarrow> (Some e, db) | Inr db' \<Rightarrow> (None, db'))"

definition bulkInsertBatch :: "('db, 'meta) sql_api \<Rightarrow> codec \<Rightarrow> int \<Rightarrow> string \<Rightarrow> goDoc list \<Rightarrow> nat
    \<Rightarrow> ('db, 'meta) jsonEngine \<Rightarrow> (string + string list) \<times> ('db, 'meta) jsonEngine" where
  "bulkInsertBatch sql cd now collection docs baseIndex je0 =
    (case getCollection sql cd collection je0 of
       (Inl e, je) \<Rightarrow> (Inl e, je)
     | (Inr _, je) \<Rightarrow>
         (let rows = bulk_rows cd collection now baseIndex docs;
              outs = map (\<lambda>s. run_batch sql (shard_batch je collection rows s) (shards je ! s))
                [0..<length (shards je)];
              je' = je\<lparr>shards := map snd outs\<rparr>
          in case List.map_filter fst outs of
               e # _ \<Rightarrow> (Inl e, je')
             | [] \<Rightarrow> (Inr (map r_id rows),
                 je'\<lparr>pending := pending je @ [(collection, int (length docs), now)]\<rparr>)))"

text \<open>The loop over batches; \<open>now b\<close> is the time of the batch that starts at \<open>b\<close>.\<close>

function bulk_loop :: "('db, 'meta) sql_api \<Rightarrow> codec \<Rightarrow> (nat \<Rightarrow> int) \<Rightarrow> string \<Rightarrow> goDoc list \<Rightarrow> nat
    \<Rightarrow> string list \<Rightarrow> ('db, 'meta) jsonEngine
    \<Rightarrow> (string list \<times> string option) \<times> ('db, 'meta) jsonEngine" where
  "bulk_loop sql cd now collection docs i ids je =
    (if docs = [] then ((ids, None), je)
     else case bulkInsertBatch sql cd (now i) collection (take BATCH_INSERT_SIZE docs) i je of
            (Inl e, je') \<Rightarrow> ((ids, Some e), je')
          | (Inr batchIDs, je') \<Rightarrow>
              bulk_loop sql cd now collection (drop BATCH_INSERT_SIZE docs) (i + BATCH_INSERT_SIZE)
                (ids @ batchIDs) je')"
  by pat_completeness auto
termination
  by (relation "measure (\<lambda>(_, _, _, _, docs, _). length docs)") (auto simp: BATCH_INSERT_SIZE_def)

declare bulk_loop.simps [simp del]

definition BulkInsert :: "('db, 'meta) sql_api \<Rightarrow> codec \<Rightarrow> (nat \<Rightarrow> int) \<Rightarrow> string \<Rightarrow> goDoc list
    \<Rightarrow> ('db, 'meta) jsonEngine \<Rightarrow> (string list \<times> string option) \<times> ('db, 'meta) jsonEngine" where
  "BulkInsert sql cd now collection docs je = bulk_loop sql cd now collection docs 0 [] je"

section \<open>The engine as a table\<close>

definition engine_ok :: "('db, 'meta) jsonEngine \<Rightarrow> bool" where
  "engine_ok je \<longleftrightarrow> length (shards je) = 16 \<and> shardCount je = 16 \<and> je_pageSize je = 1000"

text \<open>The row the engine finds for a collection and an id: the one in the shard they route to.\<close>

definition doc_row :: "('db, 'meta) sql_api \<Rightarrow> ('db, 'meta) jsonEngine \<Rightarrow> string \<Rightarrow> string \<Rightarrow> row option" where
  "doc_row sql je collection docid = t_rows sql (shards je ! shard16 (collection, docid)) docid"

lemma route_ok:
  "engine_ok je \<Longrightarrow> route je docid c = Some (shard16 (c, docid), shards je ! shard16 (c, docid))"
  using es.shard_lt[of "(c, docid)"] by (simp add: route_def engine_ok_def getShard_16)

lemma getCollection_frame:
  assumes "getCollection sql cd name je = (r, je')"
  shows "shards je' = shards je" "shardCount je' = shardCount je" "je_pageSize je' = je_pageSize je"
    "pending je' = pending je" "metadataDB je' = metadataDB je"
  using assms
  by (auto simp: getCollection_def Let_def split: option.splits meta_result.splits)

lemma doc_row_put:
  assumes "engine_ok je"
  shows "doc_row sql (put_shard (shard16 (c, docid)) db je) c' docid'
    = (if shard16 (c', docid') = shard16 (c, docid) then t_rows sql db docid'
       else doc_row sql je c' docid')"
  using assms es.shard_lt[of "(c, docid)"]
  by (auto simp: doc_row_def put_shard_def engine_ok_def nth_list_update)

section \<open>Single documents\<close>

lemma put_shard_ok: "engine_ok je \<Longrightarrow> engine_ok (put_shard s db je)"
  by (simp add: engine_ok_def put_shard_def)

lemma engine_ok_frame:
  "engine_ok (je\<lparr>pending := p\<rparr>) = engine_ok je" "engine_ok (op_count je) = engine_ok je"
  "engine_ok (err_count je) = engine_ok je"
  "doc_row sql (je\<lparr>pending := p\<rparr>) = doc_row sql je" "doc_row sql (op_count je) = doc_row sql je"
  "doc_row sql (err_count je) = doc_row sql je"
  by (simp_all add: engine_ok_def doc_row_def op_count_def err_count_def fun_eq_iff)

lemma getCollection_ok:
  assumes "getCollection sql cd name je = (r, je')"
  shows "engine_ok je' = engine_ok je" "doc_row sql je' = doc_row sql je"
  using getCollection_frame[OF assms] by (simp_all add: engine_ok_def doc_row_def fun_eq_iff)

lemma validate_schema_None:
  "validate_schema schema doc = None \<longleftrightarrow>
   (\<forall>(f, t)\<in>set schema. \<forall>v. doc_get doc f = Some v \<longrightarrow> has_type t v)"
  by (induction schema) (auto split: option.splits if_splits)

lemma table_okD:
  assumes "table_ok sql"
  shows "db_insert sql r db = Inr db' \<Longrightarrow>
      t_rows sql db (r_id r) = None \<and> t_rows sql db' = (t_rows sql db)(r_id r \<mapsto> r)"
    and "db_replace sql rs db = Inr db' \<Longrightarrow> t_rows sql db' = foldl replace_row (t_rows sql db) rs"
    and "db_get sql i db = Inr d \<Longrightarrow> map_option r_data (t_rows sql db i) = Some d"
    and "db_update sql i d t db = Inr db' \<Longrightarrow> t_rows sql db' = (t_rows sql db)(i :=
      map_option (\<lambda>r. r\<lparr>r_data := d, r_updated := t\<rparr>) (t_rows sql db i))"
    and "db_delete sql i db = Inr db' \<Longrightarrow> t_rows sql db' = (t_rows sql db)(i := None)"
    and "db_page sql c l off db = Inr rs \<Longrightarrow> 0 \<le> l \<Longrightarrow>
      int (length rs) \<le> l \<and> (\<forall>r\<in>set rs. r_collection r = c \<and> t_rows sql db (r_id r) = Some r)"
  using assms unfolding table_ok_def by - (elim conjE, meson)+

lemma insert_row:
  assumes sql: "table_ok sql" and ok: "engine_ok je"
    and ins: "engine_Insert sql cd nanos rnd now c doc je = (Value (Inr docid), je')"
  shows "engine_ok je' \<and> doc_row sql je c docid = None
    \<and> doc_row sql je' c docid = Some \<lparr>r_id = docid, r_collection = c, r_data = enc_doc cd doc,
         r_created = now, r_updated = now\<rparr>
    \<and> (\<forall>c' i. i \<noteq> docid \<longrightarrow> doc_row sql je' c' i = doc_row sql je c' i)
    \<and> (\<forall>col. collectionCache je c = Some col \<longrightarrow>
         (\<forall>(f, t)\<in>set (col_schema col). \<forall>v. doc_get doc f = Some v \<longrightarrow> has_type t v))"
proof -
  obtain col je1 where gc: "getCollection sql cd c (op_count je) = (Inr col, je1)"
    and val: "validate_schema (col_schema col) doc = None"
    using ins by (auto simp: engine_Insert_def split: prod.splits sum.splits option.splits)
  note frame = getCollection_ok[OF gc, unfolded engine_ok_frame]
  have ok1: "engine_ok je1" using ok frame by simp
  let ?s = "shard16 (c, docid)"
  let ?r = "\<lparr>r_id = docid, r_collection = c, r_data = enc_doc cd doc, r_created = now,
    r_updated = now\<rparr>"
  obtain db where db: "db_insert sql ?r (shards je1 ! ?s) = Inr db"
    and je': "je' = (put_shard ?s db je1)\<lparr>pending := pending je1 @ [(c, 1, now)]\<rparr>"
    using ins gc val ok1
    by (auto simp: engine_Insert_def route_ok Let_def split: sum.splits)
  have row: "t_rows sql (shards je1 ! ?s) docid = None"
    "t_rows sql db = (t_rows sql (shards je1 ! ?s))(docid \<mapsto> ?r)"
    using table_okD(1)[OF sql db] by simp_all
  have "collectionCache je c = Some col' \<Longrightarrow> col' = col" for col'
    using gc by (simp add: getCollection_def op_count_def)
  moreover have "doc_row sql je1 c docid = None" using row(1) by (simp add: doc_row_def)
  moreover have "doc_row sql je' c docid = Some ?r"
    unfolding je' engine_ok_frame doc_row_put[OF ok1] by (simp add: row)
  moreover have "doc_row sql je' c' i = doc_row sql je1 c' i" if "i \<noteq> docid" for c' i
    unfolding je' engine_ok_frame doc_row_put[OF ok1] using that by (simp add: row doc_row_def)
  moreover have "engine_ok je'" unfolding je' engine_ok_frame by (rule put_shard_ok[OF ok1])
  ultimately show ?thesis using val frame by (auto simp: validate_schema_None)
qed


lemma update_stores:
  assumes sql: "table_ok sql" and ok: "engine_ok je"
    and upd: "engine_Update sql cd now c docid u je = (Value (Inr ()), je')"
  shows "engine_ok je' \<and> (\<exists>r doc. doc_row sql je c docid = Some r
      \<and> merge_doc (dec_doc cd (r_data r)) u = Value doc
      \<and> doc_row sql je' c docid = Some (r\<lparr>r_data := enc_doc cd doc, r_updated := now\<rparr>))
    \<and> (\<forall>c' i. i \<noteq> docid \<longrightarrow> doc_row sql je' c' i = doc_row sql je c' i)"
proof -
  let ?s = "shard16 (c, docid)" and ?j = "op_count je"
  have ok1: "engine_ok ?j" using ok by (simp add: engine_ok_frame)
  obtain str doc db where get: "db_get sql docid (shards ?j ! ?s) = Inr str"
    and doc: "merge_doc (dec_doc cd str) u = Value doc"
    and db: "db_update sql docid (enc_doc cd doc) now (shards ?j ! ?s) = Inr db"
    and je': "je' = put_shard ?s db ?j"
    using upd ok1 by (auto simp: engine_Update_def route_ok Let_def
        split: sum.splits result.splits)
  obtain r where r: "t_rows sql (shards ?j ! ?s) docid = Some r" "r_data r = str"
    using table_okD(3)[OF sql get] by auto
  have rows: "t_rows sql db = (t_rows sql (shards ?j ! ?s))(docid \<mapsto>
      r\<lparr>r_data := enc_doc cd doc, r_updated := now\<rparr>)"
    using table_okD(4)[OF sql db] r by simp
  have 1: "doc_row sql je c docid = Some r" using r(1) by (simp add: doc_row_def op_count_def)
  have 2: "doc_row sql je' c docid = Some (r\<lparr>r_data := enc_doc cd doc, r_updated := now\<rparr>)"
    unfolding je' doc_row_put[OF ok1] by (simp add: rows)
  have 3: "doc_row sql je' c' i = doc_row sql je c' i" if "i \<noteq> docid" for c' i
    unfolding je' doc_row_put[OF ok1] using that
    by (simp add: rows doc_row_def op_count_def)
  have "engine_ok je'" unfolding je' by (rule put_shard_ok[OF ok1])
  with 1 2 3 doc r(2) show ?thesis by blast
qed

lemma map_of_merge:
  "map_of (foldl (\<lambda>m (k, v). AList.update k v m) m u) = map_of m ++ map_of (rev u)"
  by (induction u arbitrary: m) (auto simp: map_add_assoc[symmetric])

text \<open>
  C7. Updating a document that was just inserted overlays the update's fields on what the
  stored text decodes to, keeps the creation time and touches no other document.
\<close>

theorem insert_then_update:
  assumes sql: "table_ok sql" and ok: "engine_ok je"
    and ins: "engine_Insert sql cd nanos rnd t c doc je = (Value (Inr docid), je1)"
    and upd: "engine_Update sql cd t' c docid u je1 = (Value (Inr ()), je2)"
    and dec: "dec_doc cd (enc_doc cd doc) = Some m"
  shows "\<exists>d. doc_row sql je2 c docid = Some \<lparr>r_id = docid, r_collection = c,
           r_data = enc_doc cd (Some d), r_created = t, r_updated = t'\<rparr>
    \<and> map_of d = map_of m ++ map_of (rev u)
    \<and> (\<forall>c' i. i \<noteq> docid \<longrightarrow> doc_row sql je2 c' i = doc_row sql je c' i)"
proof -
  from insert_row[OF sql ok ins] have ok1: "engine_ok je1"
    and r: "doc_row sql je1 c docid = Some \<lparr>r_id = docid, r_collection = c,
      r_data = enc_doc cd doc, r_created = t, r_updated = t\<rparr>"
    and oth: "\<And>c' i. i \<noteq> docid \<Longrightarrow> doc_row sql je1 c' i = doc_row sql je c' i" by auto
  from update_stores[OF sql ok1 upd] r dec show ?thesis
    by (auto simp: merge_doc_def map_of_merge oth)
qed

section \<open>Finding documents\<close>

lemma int64_arith:
  "\<bar>sint a + sint b\<bar> < 2 ^ 63 \<Longrightarrow> sint (a + b) = sint a + sint (b :: int64)"
  "\<bar>sint a - sint b\<bar> < 2 ^ 63 \<Longrightarrow> sint (a - b) = sint a - sint (b :: int64)"
  "\<bar>sint a * sint b\<bar> < 2 ^ 63 \<Longrightarrow> sint (a * b) = sint a * sint (b :: int64)"
  "\<bar>sint a sdiv sint b\<bar> < 2 ^ 63 \<Longrightarrow> sint (int64_quot a b) = sint a sdiv sint b"
proof -
  have "a + b = word_of_int (sint a + sint b)" "a - b = word_of_int (sint a - sint b)"
    "a * b = word_of_int (sint a * sint b)"
    by simp_all
  then show "\<bar>sint a + sint b\<bar> < 2 ^ 63 \<Longrightarrow> sint (a + b) = sint a + sint b"
    "\<bar>sint a - sint b\<bar> < 2 ^ 63 \<Longrightarrow> sint (a - b) = sint a - sint b"
    "\<bar>sint a * sint b\<bar> < 2 ^ 63 \<Longrightarrow> sint (a * b) = sint a * sint b"
    by (simp_all only:) (subst sint_word_of_int; linarith)+
  show "\<bar>sint a sdiv sint b\<bar> < 2 ^ 63 \<Longrightarrow> sint (int64_quot a b) = sint a sdiv sint b"
    unfolding int64_quot_def by (subst sint_word_of_int) linarith+
qed

lemma shard_docs_shape:
  assumes "table_ok sql" and "0 \<le> sint (shard_limit je n)"
  shows "int (length (shard_docs sql cd name off n je s)) \<le> sint (shard_limit je n)
    \<and> (\<forall>d\<in>set (shard_docs sql cd name off n je s).
         d_shard d = s \<and> t_rows sql (shards je ! s) (d_id d) \<noteq> None)"
proof (cases "db_page sql name (sint (shard_limit je n)) (sint (shard_offset je off s)) (shards je ! s)")
  case (Inr rows)
  from table_okD(6)[OF assms(1) this assms(2)] show ?thesis
    by (auto simp: shard_docs_def Inr)
qed (use assms(2) in \<open>simp add: shard_docs_def\<close>)

lemma find_constants:
  assumes "engine_ok je"
  shows "page_size 10000 = 100" "page_offset 1 100 = 0" "shards_needed je 0 100 = 1"
    "sint (shard_limit je 100) = 7"
  using assms
  by (simp_all add: page_size_def page_offset_def shards_needed_def shard_limit_def engine_ok_def
      int64_quot_def signed_divide_int_def)

text \<open>
  C27. \<open>Find\<close> ignores its query and does not search the collection: it returns at most seven
  documents, all of them from the first of the sixteen shards.
\<close>

theorem find_reads_one_shard:
  assumes sql: "table_ok sql" and ok: "engine_ok je" and arrival: "distinct arrival"
    and find: "engine_Find sql cd arrival c query je = (Value (Inr docs), je')"
  shows "length docs \<le> 7
    \<and> (\<forall>d\<in>set docs. d_shard d = 0 \<and> t_rows sql (shards je ! 0) (d_id d) \<noteq> None)
    \<and> engine_Find sql cd arrival c query' je = (Value (Inr docs), je')"
proof -
  obtain col je1 where gc: "getCollection sql cd c je = (Inr col, je1)"
    using find by (auto simp: engine_Find_def FindPage_def Let_def split: prod.splits sum.splits)
  have ok1: "engine_ok je1" and sh: "shards je1 = shards je"
    using ok getCollection_ok[OF gc] getCollection_frame[OF gc] by simp_all
  let ?ds = "shard_docs sql cd (col_name col) 0 100 je1 0"
  have "filter (\<lambda>s. s = 0) as = (if 0 \<in> set as then [0] else [])" if "distinct as" for as :: "nat list"
    using that
  proof (induction as)
    case (Cons a as)
    then show ?case by (cases a) auto
  qed simp
  from this[OF arrival] have all: "concat (map (shard_docs sql cd (col_name col) 0 100 je1)
      (filter (\<lambda>s. s = 0) arrival)) = (if 0 \<in> set arrival then ?ds else [])" by simp
  have ds: "int (length ?ds) \<le> 7"
    "\<forall>d\<in>set ?ds. d_shard d = 0 \<and> t_rows sql (shards je ! 0) (d_id d) \<noteq> None"
    using shard_docs_shape[OF sql, of je1 100 cd "col_name col" 0 0] sh
    by (simp_all add: find_constants[OF ok1])
  have "docs = take 100 (sort_key (\<lambda>d. - d_updated d) (if 0 \<in> set arrival then ?ds else []))"
    using find ds(1)
    by (auto simp: engine_Find_def FindPage_def Let_def gc find_constants[OF ok1] all
        split: if_splits)
  moreover have "engine_Find sql cd arrival c query' je = engine_Find sql cd arrival c query je"
    by (simp add: engine_Find_def FindPage_def)
  ultimately show ?thesis using find ds by (auto dest: in_set_takeD)
qed

text \<open>
  C28. For any sensible page number \<open>FindPage\<close> on an open collection returns a page: sorted by
  falling time of update, no longer than the page size, which is at most 1000.
\<close>

theorem find_page_bounds:
  assumes ok: "engine_ok je" and col: "collectionCache je c = Some col"
    and page: "\<bar>sint page\<bar> < 2 ^ 50"
  shows "\<exists>r. FindPage sql cd arrival c query page n je = (Value (Inr r), je)
    \<and> length (pr_documents r) \<le> nat (sint (pr_pageSize r)) \<and> 0 < sint (pr_pageSize r)
    \<and> sint (pr_pageSize r) \<le> 1000
    \<and> sorted_wrt (\<lambda>a b. d_updated b \<le> d_updated a) (pr_documents r)
    \<and> (pr_hasMore r \<longleftrightarrow> length (pr_documents r) = nat (sint (pr_pageSize r)))"
proof -
  define s where "s = page_size n"
  define off where "off = page_offset page s"
  have s: "0 < sint s" "sint s \<le> 1000" by (auto simp: s_def page_size_def)
  have "sint (page - 1) = sint page - 1" using page by (subst int64_arith) auto
  moreover have b: "\<bar>(sint page - 1) * sint s\<bar> \<le> 2 ^ 51 * 1000"
    unfolding abs_mult using page s by (intro mult_mono) auto
  ultimately have "sint ((page - 1) * s) = (sint page - 1) * sint s"
    by (subst int64_arith) simp_all
  moreover have "(sint page - 1) * sint s \<le> 2 ^ 51 * 1000" using b by linarith
  ultimately have off: "0 \<le> sint off" "sint off \<le> 2 ^ 51 * 1000"
    by (auto simp: off_def page_offset_def Let_def)
  have k: "sint (1000 :: int64) = 1000" "sint (1 :: int64) = 1" by simp_all
  have 1: "sint (off + s) = sint off + sint s" using off s by (subst int64_arith) auto
  have 2: "sint (off + s + 1000) = sint off + sint s + 1000"
    using off s by (subst int64_arith) (auto simp: 1 k)
  have 3: "sint (off + s + 1000 - 1) = sint off + sint s + 999"
    using off s by (subst int64_arith) (auto simp: 2 k)
  have q: "x sdiv 1000 = x div 1000" if "0 \<le> x" for x :: int
    using that by (simp add: signed_divide_int_def sgn_if)
  have x: "sint (off + s + 1000 - 1) sdiv sint (1000 :: int64) = (sint off + sint s + 999) div 1000"
    unfolding 3 k using off s by (intro q) auto
  have "sint (int64_quot (off + s + 1000 - 1) 1000) = (sint off + sint s + 999) div 1000"
    by (rule int64_arith(4)[of "off + s + 1000 - 1" 1000, unfolded x]) (use off s in auto)
  then have "0 \<le> shards_needed je off s"
    using ok off s by (auto simp: shards_needed_def engine_ok_def Let_def)
  moreover have "sorted_wrt (\<lambda>a b. d_updated b \<le> d_updated a)
      (take m (sort_key (\<lambda>d. - d_updated d) ds))" for m ds
    using sorted_sort_key[of "\<lambda>d. - d_updated d" ds]
    by (intro sorted_wrt_take) (simp add: sorted_map)
  moreover from this[of "length _"] have "sorted_wrt (\<lambda>a b. d_updated b \<le> d_updated a)
      (sort_key (\<lambda>d. - d_updated d) ds)" for ds by (metis take_all order_refl)
  ultimately show ?thesis
    using s col
    by (auto simp: FindPage_def getCollection_def Let_def s_def[symmetric] off_def[symmetric])
qed

text \<open>
  A large page number overflows the computation of the shards to ask: their number comes
  out negative and creating the channel panics.
\<close>

theorem find_page_overflow_panics:
  assumes "engine_ok je" and "collectionCache je c = Some col"
  shows "fst (FindPage sql cd arrival c query 92233720368547758 100 je) = Panic"
proof -
  have "shards_needed je (page_offset 92233720368547758 (page_size 100)) (page_size 100) < 0"
    using assms(1)
    by (simp add: page_size_def page_offset_def shards_needed_def engine_ok_def int64_quot_def
        signed_divide_int_def)
  then show ?thesis using assms(2) by (simp add: FindPage_def getCollection_def Let_def)
qed

section \<open>Bulk insertion\<close>

lemma foldl_replace:
  "foldl replace_row m rs k =
     (if k \<in> r_id ` set rs then Some (last (filter (\<lambda>r. r_id r = k) rs)) else m k)"
proof (induction rs rule: rev_induct)
  case (snoc r rs)
  then show ?case by (auto simp: replace_row_def)
qed simp

lemma bulk_id_inj: "bulk_id c now i = bulk_id c now j \<longleftrightarrow> i = j"
  by (auto simp: bulk_id_def dest: show_nat_inj)

lemma bulk_rows_ids: "map r_id (bulk_rows cd c now base docs) = map (bulk_id c now) [base..<base + length docs]"
  by (rule nth_equalityI) (simp_all add: bulk_rows_def)

lemma bulk_rows_at:
  assumes "i < length docs"
  shows "last (filter (\<lambda>r. r_id r = bulk_id c now (base + i)) (bulk_rows cd c now base docs))
    = \<lparr>r_id = bulk_id c now (base + i), r_collection = c, r_data = enc_doc cd (docs ! i),
       r_created = now, r_updated = now\<rparr>"
proof -
  let ?rows = "bulk_rows cd c now base docs" and ?k = "bulk_id c now (base + i)"
  have len: "length ?rows = length docs" by (simp add: bulk_rows_def)
  have id: "r_id (?rows ! j) = bulk_id c now (base + j)" if "j < length docs" for j
    using that by (simp add: bulk_rows_def)
  have "filter (\<lambda>r. r_id r = ?k) ?rows = map (\<lambda>j. ?rows ! j) (filter (\<lambda>j. r_id (?rows ! j) = ?k) [0..<length ?rows])"
    using filter_map[of "\<lambda>r. r_id r = ?k" "(!) ?rows" "[0..<length ?rows]"]
    by (simp add: map_nth o_def)
  also have "filter (\<lambda>j. r_id (?rows ! j) = ?k) [0..<length ?rows] = filter ((=) i) [0..<length docs]"
    unfolding len by (rule filter_cong) (auto simp: id bulk_id_inj)
  also have "\<dots> = [i]" using assms by (induction docs rule: rev_induct) (auto simp: less_Suc_eq)
  finally show ?thesis using assms by (simp add: bulk_rows_def)
qed

lemma run_batch_rows:
  assumes "table_ok sql" and "run_batch sql rs db = (None, db')"
  shows "t_rows sql db' = foldl replace_row (t_rows sql db) rs"
  using assms by (auto simp: run_batch_def dest: table_okD(2) split: if_splits sum.splits)

lemma filter_shard:
  "engine_ok je \<Longrightarrow> filter (\<lambda>r. r_id r = k) (shard_batch je c rows (shard16 (c, k)))
     = filter (\<lambda>r. r_id r = k) rows"
  by (auto simp: shard_batch_def engine_ok_def getShard_16 intro!: filter_cong)

text \<open>A batch that succeeds: every row of the batch is stored, and nothing else changes.\<close>

lemma batch_stores:
  assumes sql: "table_ok sql" and ok: "engine_ok je0"
    and b: "bulkInsertBatch sql cd now c docs base je0 = (Inr ids, je')"
  shows "engine_ok je' \<and> ids = map (bulk_id c now) [base..<base + length docs]
    \<and> (\<forall>i<length docs. doc_row sql je' c (bulk_id c now (base + i)) =
         Some \<lparr>r_id = bulk_id c now (base + i), r_collection = c, r_data = enc_doc cd (docs ! i),
           r_created = now, r_updated = now\<rparr>)
    \<and> (\<forall>k. k \<notin> set ids \<longrightarrow> doc_row sql je' c k = doc_row sql je0 c k)"
proof -
  obtain col je where gc: "getCollection sql cd c je0 = (Inr col, je)"
    using b by (auto simp: bulkInsertBatch_def split: prod.splits sum.splits)
  define rows where "rows = bulk_rows cd c now base docs"
  define out where "out s = run_batch sql (shard_batch je c rows s) (shards je ! s)" for s
  have ok1: "engine_ok je" using ok getCollection_ok[OF gc] by simp
  then have n: "length (shards je) = 16" by (simp add: engine_ok_def)
  have none: "List.map_filter fst (map out [0..<16]) = []" and ids: "ids = map r_id rows"
    and je': "shards je' = map (snd \<circ> out) [0..<16]" "shardCount je' = shardCount je"
      "je_pageSize je' = je_pageSize je"
    using b gc n
    by (auto simp: bulkInsertBatch_def Let_def rows_def out_def[abs_def] split: list.splits)
  have fst: "fst (out s) = None" if "s < 16" for s
    using none that by (auto simp: List.map_filter_def filter_empty_conv)
  have row: "doc_row sql je' c k = (if k \<in> set ids
      then Some (last (filter (\<lambda>r. r_id r = k) rows)) else doc_row sql je c k)" for k
  proof -
    let ?s = "shard16 (c, k)"
    have s: "?s < 16" by (rule es.shard_lt)
    have "out ?s = (None, snd (out ?s))" using fst[OF s] by (metis prod.collapse)
    then have "t_rows sql (snd (out ?s))
        = foldl replace_row (t_rows sql (shards je ! ?s)) (shard_batch je c rows ?s)"
      unfolding out_def by (rule run_batch_rows[OF sql])
    moreover have "k \<in> r_id ` set (shard_batch je c rows ?s) \<longleftrightarrow> k \<in> set ids"
      using filter_shard[OF ok1, of k c rows] unfolding ids
      by (auto simp: filter_empty_conv image_iff shard_batch_def ok1[unfolded engine_ok_def] getShard_16)
    ultimately show ?thesis
      using s by (simp add: doc_row_def je' foldl_replace filter_shard[OF ok1])
  qed
  have ids': "ids = map (bulk_id c now) [base..<base + length docs]"
    using ids by (simp add: rows_def bulk_rows_ids)
  have "doc_row sql je' c (bulk_id c now (base + i)) = Some \<lparr>r_id = bulk_id c now (base + i),
      r_collection = c, r_data = enc_doc cd (docs ! i), r_created = now, r_updated = now\<rparr>"
    if "i < length docs" for i
    using that row[of "bulk_id c now (base + i)"] bulk_rows_at[OF that, of c now base cd]
    by (simp add: ids' rows_def)
  moreover have "engine_ok je'" using ok1 je' by (simp add: engine_ok_def)
  ultimately show ?thesis using row ids' getCollection_ok[OF gc] by simp
qed

lemma bulk_loop_stores:
  assumes sql: "table_ok sql"
  shows "bulk_loop sql cd (\<lambda>_. now) c docs base ids0 je = ((ids, None), je') \<Longrightarrow> engine_ok je \<Longrightarrow>
    engine_ok je' \<and> ids = ids0 @ map (bulk_id c now) [base..<base + length docs]
    \<and> (\<forall>i<length docs. doc_row sql je' c (bulk_id c now (base + i)) =
         Some \<lparr>r_id = bulk_id c now (base + i), r_collection = c, r_data = enc_doc cd (docs ! i),
           r_created = now, r_updated = now\<rparr>)
    \<and> (\<forall>k. (\<forall>i<length docs. k \<noteq> bulk_id c now (base + i)) \<longrightarrow> doc_row sql je' c k = doc_row sql je c k)"
proof (induction "length docs" arbitrary: docs base ids0 je rule: less_induct)
  case less
  show ?case
  proof (cases "docs = []")
    case True
    with less.prems show ?thesis by (simp add: bulk_loop.simps)
  next
    case False
    let ?n = BATCH_INSERT_SIZE
    let ?d1 = "take ?n docs" and ?d2 = "drop ?n docs"
    have n: "0 < ?n" by (simp add: BATCH_INSERT_SIZE_def)
    obtain ids1 je1 where b: "bulkInsertBatch sql cd now c ?d1 base je = (Inr ids1, je1)"
      and l: "bulk_loop sql cd (\<lambda>_. now) c ?d2 (base + ?n) (ids0 @ ids1) je1 = ((ids, None), je')"
      using less.prems(1) False by (subst (asm) bulk_loop.simps) (auto split: prod.splits sum.splits)
    from batch_stores[OF sql less.prems(2) b] have ok1: "engine_ok je1"
      and ids1: "ids1 = map (bulk_id c now) [base..<base + length ?d1]"
      and at: "\<And>i. i < length ?d1 \<Longrightarrow> doc_row sql je1 c (bulk_id c now (base + i)) =
         Some \<lparr>r_id = bulk_id c now (base + i), r_collection = c, r_data = enc_doc cd (?d1 ! i),
           r_created = now, r_updated = now\<rparr>"
      and frame: "\<And>k. k \<notin> set ids1 \<Longrightarrow> doc_row sql je1 c k = doc_row sql je c k" by blast+
    have "length ?d2 < length docs" using False n by (cases docs) auto
    from less.hyps[OF this l ok1] have ok2: "engine_ok je'"
      and ids: "ids = (ids0 @ ids1) @ map (bulk_id c now) [base + ?n..<base + ?n + length ?d2]"
      and at2: "\<And>i. i < length ?d2 \<Longrightarrow> doc_row sql je' c (bulk_id c now (base + ?n + i)) =
         Some \<lparr>r_id = bulk_id c now (base + ?n + i), r_collection = c, r_data = enc_doc cd (?d2 ! i),
           r_created = now, r_updated = now\<rparr>"
      and frame2: "\<And>k. \<forall>i<length ?d2. k \<noteq> bulk_id c now (base + ?n + i) \<Longrightarrow>
         doc_row sql je' c k = doc_row sql je1 c k" by blast+
    have split: "[base..<base + length ?d1] @ [base + ?n..<base + ?n + length ?d2]
        = [base..<base + length docs]"
      using upt_add_eq_append[of base "base + ?n" "length docs - ?n"]
      by (cases "?n \<le> length docs") (simp_all add: min_def)
    have "doc_row sql je' c (bulk_id c now (base + i)) =
         Some \<lparr>r_id = bulk_id c now (base + i), r_collection = c, r_data = enc_doc cd (docs ! i),
           r_created = now, r_updated = now\<rparr>" if i: "i < length docs" for i
    proof (cases "i < ?n")
      case True
      then have "doc_row sql je' c (bulk_id c now (base + i)) = doc_row sql je1 c (bulk_id c now (base + i))"
        by (intro frame2) (simp add: bulk_id_inj)
      with at[of i] True i show ?thesis by simp
    next
      case False
      with at2[of "i - ?n"] i show ?thesis by simp
    qed
    moreover have "doc_row sql je' c k = doc_row sql je c k"
      if k: "\<forall>i<length docs. k \<noteq> bulk_id c now (base + i)" for k
    proof -
      have "k \<notin> set ids1"
      proof
        assume "k \<in> set ids1"
        then obtain j where "base \<le> j" "j < base + length ?d1" "k = bulk_id c now j"
          unfolding ids1 by auto
        with spec[OF k, of "j - base"] show False by simp
      qed
      moreover have "k \<noteq> bulk_id c now (base + ?n + i)" if "i < length ?d2" for i
        using that spec[OF k, of "?n + i"] by (simp add: add.assoc)
      ultimately show ?thesis using frame frame2 by simp
    qed
    moreover have "ids = ids0 @ map (bulk_id c now) [base..<base + length docs]"
      unfolding ids ids1 split[symmetric] by simp
    ultimately show ?thesis using ok2 by simp
  qed
qed


text \<open>
  The ids count from zero in every call and the clock is read in seconds: a second bulk
  insertion into the collection in the same second, at least as long as the first, succeeds
  and replaces every document the first one stored.
\<close>

theorem bulk_insert_same_second_overwrites:
  assumes "table_ok sql" and "engine_ok je"
    and "BulkInsert sql cd (\<lambda>_. now) c docs1 je = ((ids1, None), je1)"
    and "BulkInsert sql cd (\<lambda>_. now) c docs2 je1 = ((ids2, None), je2)"
    and "i < length docs1" and "length docs1 \<le> length docs2"
  shows "ids1 ! i = ids2 ! i
    \<and> map_option r_data (doc_row sql je2 c (ids1 ! i)) = Some (enc_doc cd (docs2 ! i))"
proof -
  note 1 = bulk_loop_stores[OF assms(1) assms(3)[unfolded BulkInsert_def] assms(2)]
  then have "engine_ok je1" by blast
  note 2 = bulk_loop_stores[OF assms(1) assms(4)[unfolded BulkInsert_def] this]
  from 1 2 assms(5,6) show ?thesis by simp
qed

section \<open>Witnesses\<close>

text \<open>A table as a map from ids to rows, in which every statement succeeds that may.\<close>

definition map_sql :: "((string \<rightharpoonup> row), unit) sql_api" where
  "map_sql =
    \<lparr>t_rows = (\<lambda>m. m),
     db_insert = (\<lambda>r m. if m (r_id r) = None then Inr (m(r_id r \<mapsto> r)) else Inl ''UNIQUE''),
     db_replace = (\<lambda>rs m. Inr (foldl replace_row m rs)),
     db_get = (\<lambda>i m. case m i of None \<Rightarrow> Inl ''no rows'' | Some r \<Rightarrow> Inr (r_data r)),
     db_update = (\<lambda>i d t m. Inr (m(i := map_option (\<lambda>r. r\<lparr>r_data := d, r_updated := t\<rparr>) (m i)))),
     db_delete = (\<lambda>i m. Inr (m(i := None))),
     db_page = (\<lambda>c l off m. Inr []),
     m_exists = (\<lambda>_ _. Inr 0), m_insert = (\<lambda>_ _ _ _ _. Inr ()), m_select = (\<lambda>_ _. NoRows),
     m_count = (\<lambda>_ _ _ m. m)\<rparr>"

lemma map_sql_ok: "table_ok map_sql"
  by (auto simp: table_ok_def map_sql_def split: option.splits if_splits)

definition demo_codec :: codec where
  "demo_codec = \<lparr>enc_doc = (\<lambda>d. case d of None \<Rightarrow> ''null'' | Some m \<Rightarrow> concat (map fst m)),
     dec_doc = (\<lambda>s. Some [(s, VBool True)]), enc_schema = (\<lambda>_. []), dec_schema = (\<lambda>_. None),
     enc_indices = (\<lambda>_. []), dec_indices = (\<lambda>_. None)\<rparr>"

definition demo_col :: jsonCollection where
  "demo_col = \<lparr>col_name = ''c'', col_schema = [(''k'', ''boolean'')], col_indices = [],
     col_docCount = 0, col_shardKey = []\<rparr>"

definition demo_engine :: "((string \<rightharpoonup> row), unit) jsonEngine" where
  "demo_engine = \<lparr>shards = replicate 16 Map.empty, je_pageSize = 1000, shardCount = 16,
     metadataDB = (), collectionCache = [''c'' \<mapsto> demo_col], pending = [],
     je_metrics = GlobalMetrics 0\<rparr>"

lemma demo_engine_ok: "engine_ok demo_engine" "collectionCache demo_engine ''c'' = Some demo_col"
  by (simp_all add: engine_ok_def demo_engine_def)

lemma demo_empty: "i < 16 \<Longrightarrow> shards demo_engine ! i = Map.empty"
  by (simp add: demo_engine_def)

abbreviation demo_doc :: goDoc where "demo_doc \<equiv> Some [(''k'', VBool True)]"

definition inserted :: "((string \<rightharpoonup> row), unit) jsonEngine" where
  "inserted = snd (engine_Insert map_sql demo_codec 5 6 7 ''c'' demo_doc demo_engine)"

lemma demo_insert:
  "engine_Insert map_sql demo_codec 5 6 7 ''c'' demo_doc demo_engine = (Value (Inr ''c_5_6''), inserted)"
proof -
  have gc: "getCollection map_sql demo_codec ''c'' (op_count demo_engine)
      = (Inr demo_col, op_count demo_engine)"
    using demo_engine_ok(2) by (simp add: getCollection_def op_count_def)
  have ok: "engine_ok (op_count demo_engine)" using demo_engine_ok(1) by (simp add: engine_ok_frame)
  have v: "validate_schema (col_schema demo_col) demo_doc = None"
    by (simp add: demo_col_def doc_get_def has_type.simps)
  have sh: "shards (op_count demo_engine) ! shard16 (''c'', k) = Map.empty" for k
    using demo_empty es.shard_lt by (simp add: op_count_def)
  have i: "show_int 5 = ''5''" "show_int 6 = ''6''" by code_simp+
  have db: "db_insert map_sql r Map.empty = Inr [r_id r \<mapsto> r]" for r
    by (simp add: map_sql_def)
  show ?thesis
    unfolding inserted_def
    by (simp add: engine_Insert_def gc v route_ok[OF ok] sh Let_def i db)
qed


lemma insert_then_update_witness:
  "\<exists>je d. doc_row map_sql je ''c'' ''c_5_6'' = Some \<lparr>r_id = ''c_5_6'', r_collection = ''c'',
     r_data = enc_doc demo_codec (Some d), r_created = 7, r_updated = 9\<rparr>
     \<and> map_of d = map_of [(''k'', VBool True)] ++ map_of [(''j'', VNil)]"
proof -
  have row: "doc_row map_sql inserted ''c'' ''c_5_6'' = Some \<lparr>r_id = ''c_5_6'', r_collection = ''c'',
     r_data = ''k'', r_created = 7, r_updated = 7\<rparr>" and ok: "engine_ok inserted"
    using insert_row[OF map_sql_ok demo_engine_ok(1) demo_insert] by (simp_all add: demo_codec_def)
  let ?u = "engine_Update map_sql demo_codec 9 ''c'' ''c_5_6'' [(''j'', VNil)] inserted"
  have ok': "engine_ok (op_count inserted)" using ok by (simp add: engine_ok_frame)
  have "doc_row map_sql (op_count inserted) ''c'' ''c_5_6'' \<noteq> None" using row by (simp add: engine_ok_frame)
  then have "fst ?u = Value (Inr ())"
    unfolding engine_Update_def Let_def route_ok[OF ok']
    by (auto simp: doc_row_def map_sql_def merge_doc_def demo_codec_def)
  then have "?u = (Value (Inr ()), snd ?u)" by (metis prod.collapse)
  from insert_then_update[OF map_sql_ok demo_engine_ok(1) demo_insert this, of "[(''k'', VBool True)]"]
  show ?thesis by (auto simp: demo_codec_def)
qed

lemma demo_find:
  "engine_Find map_sql demo_codec [0] ''c'' q demo_engine = (Value (Inr []), demo_engine)"
  using demo_engine_ok
  by (simp add: engine_Find_def FindPage_def getCollection_def Let_def find_constants shard_docs_def
      map_sql_def)

lemma find_reads_one_shard_witness:
  "engine_Find map_sql demo_codec [0] ''c'' [(''k'', VNil)] demo_engine = (Value (Inr []), demo_engine)"
  using find_reads_one_shard[OF map_sql_ok demo_engine_ok(1) _ demo_find[of "[]"], of "[(''k'', VNil)]"]
  by simp

lemma find_page_bounds_witness:
  "\<exists>r. FindPage map_sql demo_codec [0] ''c'' [] 2 100 demo_engine = (Value (Inr r), demo_engine)
    \<and> sint (pr_pageSize r) \<le> 1000"
  using find_page_bounds[OF demo_engine_ok, of 2 map_sql demo_codec "[0]" "[]" 100] by auto

lemma find_page_overflow_panics_witness:
  "fst (FindPage map_sql demo_codec [0] ''c'' [] 92233720368547758 100 demo_engine) = Panic"
  by (rule find_page_overflow_panics[OF demo_engine_ok])

definition bulked :: "goDoc \<Rightarrow> ((string \<rightharpoonup> row), unit) jsonEngine \<Rightarrow> ((string \<rightharpoonup> row), unit) jsonEngine" where
  "bulked d je = snd (BulkInsert map_sql demo_codec (\<lambda>_. 7) ''c'' [d] je)"

lemma demo_bulk:
  assumes "engine_ok je" and "collectionCache je ''c'' = Some demo_col"
  shows "BulkInsert map_sql demo_codec (\<lambda>_. 7) ''c'' [d] je = (([bulk_id ''c'' 7 0], None), bulked d je)"
    and "collectionCache (bulked d je) ''c'' = Some demo_col"
proof -
  have r: "fst (run_batch map_sql rs db) = None" for rs db
    by (simp add: run_batch_def map_sql_def)
  have gc: "getCollection map_sql demo_codec ''c'' je = (Inr demo_col, je)"
    using assms(2) by (simp add: getCollection_def)
  have l: "bulk_loop map_sql demo_codec n ''c'' [] i ids j = ((ids, None), j)" for n i ids j
    by (simp add: bulk_loop.simps)
  have t: "take BATCH_INSERT_SIZE [d] = [d]" "drop BATCH_INSERT_SIZE [d] = []"
    by (simp_all add: BATCH_INSERT_SIZE_def)
  have mf: "List.map_filter fst (map (\<lambda>s. run_batch map_sql (f s) (g s)) xs) = []" for f g xs
    using r by (induction xs) (simp_all add: List.map_filter_simps)
  have ids: "map r_id (bulk_rows demo_codec ''c'' 7 0 [d]) = [bulk_id ''c'' 7 0]"
    by (simp add: bulk_rows_def)
  show "BulkInsert map_sql demo_codec (\<lambda>_. 7) ''c'' [d] je = (([bulk_id ''c'' 7 0], None), bulked d je)"
    "collectionCache (bulked d je) ''c'' = Some demo_col"
    using assms(2)
    by (simp_all add: bulked_def BulkInsert_def bulk_loop.simps[of _ _ _ _ "[d]"] t bulkInsertBatch_def
        gc Let_def mf ids l)
qed


lemma bulk_insert_same_second_overwrites_witness:
  "map_option r_data (doc_row map_sql (bulked None (bulked demo_doc demo_engine)) ''c''
     (bulk_id ''c'' 7 0)) = Some ''null''"
proof -
  note b1 = demo_bulk[OF demo_engine_ok, of demo_doc]
  have ok: "engine_ok (bulked demo_doc demo_engine)"
    using bulk_loop_stores[OF map_sql_ok b1(1)[unfolded BulkInsert_def] demo_engine_ok(1)] by blast
  from bulk_insert_same_second_overwrites[OF map_sql_ok demo_engine_ok(1) b1(1)
      demo_bulk(1)[OF ok b1(2), of None], of 0]
  show ?thesis by (simp add: demo_codec_def)
qed

end
