(* ===== verification/Shards.thy ===== *)
theory Shards
  imports Engine GoPath
begin

text \<open>
  Opening and closing the databases: \<^verbatim>\<open>JSONShardManager\<close> of \<^verbatim>\<open>internal/jsondb/shard.go\<close>, and
  \<^verbatim>\<open>InitJSONEngine\<close> and \<^verbatim>\<open>Close\<close> of \<^verbatim>\<open>internal/jsondb/engine.go\<close>.  The driver is the record
  \<open>sql_driver\<close> over its own state \<open>'s\<close>; a handle \<open>'h\<close> is a \<^verbatim>\<open>*sql.DB\<close>.  \<open>driver_ok\<close> says what
  \<^verbatim>\<open>database/sql\<close> promises about which handles are open.  The lemmas say which handles are
  open after each operation, and that a successful start gives an engine that routes every
  document to an existing shard.
\<close>

section \<open>The driver\<close>

text \<open>
  \<open>dr_tune\<close> is the three limits of the connection pool, \<open>dr_exec\<close> gives the error if there
  is one, \<open>dr_collections\<close> the rows that could be scanned.  \<open>dr_handles\<close>, \<open>dr_documents\<close> and
  \<open>dr_meta\<close> read the state: the open handles and the contents behind a handle.
\<close>

record ('s, 'h, 'db, 'meta) sql_driver =
  dr_open :: "string \<Rightarrow> 's \<Rightarrow> (string + 'h) \<times> 's"
  dr_tune :: "nat \<Rightarrow> nat \<Rightarrow> nat \<Rightarrow> 'h \<Rightarrow> 's \<Rightarrow> 's"
  dr_exec :: "string \<Rightarrow> 'h \<Rightarrow> 's \<Rightarrow> string option \<times> 's"
  dr_close :: "'h \<Rightarrow> 's \<Rightarrow> string option \<times> 's"
  dr_collections :: "'h \<Rightarrow> 's \<Rightarrow> (string + (string \<times> string \<times> string) list) \<times> 's"
  dr_handles :: "'s \<Rightarrow> 'h set"
  dr_documents :: "'h \<Rightarrow> 's \<Rightarrow> 'db"
  dr_meta :: "'h \<Rightarrow> 's \<Rightarrow> 'meta"

definition driver_ok :: "('s, 'h, 'db, 'meta) sql_driver \<Rightarrow> bool" where
  "driver_ok drv \<longleftrightarrow>
     (\<forall>p s h s'. dr_open drv p s = (Inr h, s') \<longrightarrow>
        h \<notin> dr_handles drv s \<and> dr_handles drv s' = insert h (dr_handles drv s))
   \<and> (\<forall>p s e s'. dr_open drv p s = (Inl e, s') \<longrightarrow> dr_handles drv s' = dr_handles drv s)
   \<and> (\<forall>a b c h s. dr_handles drv (dr_tune drv a b c h s) = dr_handles drv s)
   \<and> (\<forall>q h s. dr_handles drv (snd (dr_exec drv q h s)) = dr_handles drv s)
   \<and> (\<forall>h s. dr_handles drv (snd (dr_close drv h s)) = dr_handles drv s - {h})
   \<and> (\<forall>h s. dr_handles drv (snd (dr_collections drv h s)) = dr_handles drv s)"

section \<open>Statements and file names\<close>

text \<open>A raw string literal in the source: lines with their indentation, \<open>k\<close> tabs at least.\<close>

definition raw_sql :: "nat \<Rightarrow> (nat \<times> string) list \<Rightarrow> string" where
  "raw_sql k ls =
    concat (map (\<lambda>(d, l). CHR 10 # replicate (k + d) (CHR 9) @ l) ls) @ CHR 10 # replicate k (CHR 9)"

definition createShardTables :: string where
  "createShardTables = raw_sql 2
    [(0, ''CREATE TABLE IF NOT EXISTS documents (''), (1, ''id TEXT PRIMARY KEY,''),
     (1, ''collection TEXT,''), (1, ''data TEXT,''), (1, ''created_at INTEGER,''),
     (1, ''updated_at INTEGER''), (0, '');''),
     (0, ''CREATE INDEX IF NOT EXISTS idx_docs_collection ON documents(collection);''),
     (0, ''CREATE INDEX IF NOT EXISTS idx_docs_updated ON documents(updated_at);'')]"

definition createMetaTables :: string where
  "createMetaTables = raw_sql 1
    [(0, ''CREATE TABLE IF NOT EXISTS collections (''), (1, ''name TEXT PRIMARY KEY,''),
     (1, ''schema TEXT,''), (1, ''indices TEXT,''), (1, ''document_count INTEGER DEFAULT 0,''),
     (1, ''shard_key TEXT,''), (1, ''created_at INTEGER,''), (1, ''updated_at INTEGER''), (0, '');''),
     (0, ''CREATE TABLE IF NOT EXISTS index_stats (''), (1, ''collection TEXT,''), (1, ''field TEXT,''),
     (1, ''index_type TEXT,''), (1, ''size INTEGER,''), (1, ''updated_at INTEGER,''),
     (1, ''PRIMARY KEY (collection, field)''), (0, '');'')]"

definition dsn :: "string \<Rightarrow> string" where
  "dsn path = path @ ''?_journal=WAL&_synchronous=NORMAL&_cache_size=10000''"

definition shard_file :: "string \<Rightarrow> nat \<Rightarrow> string" where
  "shard_file dataDir i = PathJoin [dataDir, ''json_shard_'' @ show_nat i @ ''.db'']"

definition meta_file :: "string \<Rightarrow> string" where
  "meta_file dataDir = PathJoin [dataDir, ''json_meta.db'']"

definition five_minutes :: nat where "five_minutes = 5 * 60 * 1000000000"

section \<open>Opening\<close>

text \<open>
  One turn of the loop \<^verbatim>\<open>for i := 0; i < shardCount; i++\<close>, the same in both functions, and the
  loop with \<open>n\<close> turns left: an error ends it at once.
\<close>

definition open_shard :: "('s, 'h, 'db, 'meta) sql_driver \<Rightarrow> string \<Rightarrow> nat \<Rightarrow> 's \<Rightarrow> (string + 'h) \<times> 's" where
  "open_shard drv dataDir i s =
    (case dr_open drv (dsn (shard_file dataDir i)) s of
       (Inl e, s) \<Rightarrow> (Inl e, s)
     | (Inr h, s) \<Rightarrow>
         (case dr_exec drv createShardTables h (dr_tune drv 25 10 five_minutes h s) of
            (Some e, s) \<Rightarrow> (Inl e, s)
          | (None, s) \<Rightarrow> (Inr h, s)))"

fun open_shards :: "('s, 'h, 'db, 'meta) sql_driver \<Rightarrow> string \<Rightarrow> nat \<Rightarrow> nat \<Rightarrow> 's
    \<Rightarrow> (string + (nat \<times> 'h) list) \<times> 's" where
  "open_shards drv dataDir i 0 s = (Inr [], s)"
| "open_shards drv dataDir i (Suc n) s =
    (case open_shard drv dataDir i s of
       (Inl e, s) \<Rightarrow> (Inl e, s)
     | (Inr h, s) \<Rightarrow>
         (case open_shards drv dataDir (Suc i) n s of
            (Inl e, s) \<Rightarrow> (Inl e, s)
          | (Inr hs, s) \<Rightarrow> (Inr ((i, h) # hs), s)))"

section \<open>The shard manager\<close>

record 'h jsonShardManager =
  sm_shards :: "(nat \<times> 'h) list"
  sm_shardCount :: int

text \<open>A negative count makes \<^verbatim>\<open>make([]*JSONShard, shardCount)\<close> panic.\<close>

definition NewJSONShardManager :: "('s, 'h, 'db, 'meta) sql_driver \<Rightarrow> string \<Rightarrow> int \<Rightarrow> 's
    \<Rightarrow> (string + 'h jsonShardManager) result \<times> 's" where
  "NewJSONShardManager drv dataDir n s =
    (if n < 0 then (Panic, s)
     else (case open_shards drv dataDir 0 (nat n) s of
             (Inl e, s) \<Rightarrow> (Value (Inl e), s)
           | (Inr hs, s) \<Rightarrow> (Value (Inr \<lparr>sm_shards = hs, sm_shardCount = n\<rparr>), s)))"

text \<open>The result is \<^const>\<open>None\<close> for \<^verbatim>\<open>nil\<close>.\<close>

definition GetShard :: "int \<Rightarrow> 'h jsonShardManager \<Rightarrow> (nat \<times> 'h) option result" where
  "GetShard i sm =
    (if i < 0 \<or> i \<ge> sm_shardCount sm then Value None
     else (case go_index (sm_shards sm) i of None \<Rightarrow> Panic | Some sh \<Rightarrow> Value (Some sh)))"

definition GetAllShards :: "'h jsonShardManager \<Rightarrow> (nat \<times> 'h) list" where
  "GetAllShards sm = sm_shards sm"

fun close_all :: "('s, 'h, 'db, 'meta) sql_driver \<Rightarrow> (nat \<times> 'h) list \<Rightarrow> 's \<Rightarrow> 's" where
  "close_all drv [] s = s"
| "close_all drv ((i, h) # hs) s = close_all drv hs (snd (dr_close drv h s))"

definition sm_Close :: "('s, 'h, 'db, 'meta) sql_driver \<Rightarrow> 'h jsonShardManager \<Rightarrow> 's \<Rightarrow> 's" where
  "sm_Close drv sm s = close_all drv (sm_shards sm) s"

section \<open>The engine's start and end\<close>

text \<open>
  The handles of an engine beside its model.  The global engine is set before the collections
  are read, so it is there even when the function then returns an error.
\<close>

record ('h, 'db, 'meta) openEngine =
  oe_shards :: "(nat \<times> 'h) list"
  oe_metadata :: 'h
  oe_engine :: "('db, 'meta) jsonEngine"

definition engine_over :: "('s, 'h, 'db, 'meta) sql_driver \<Rightarrow> codec \<Rightarrow> (nat \<times> 'h) list \<Rightarrow> 'h \<Rightarrow> 's
    \<Rightarrow> (string \<times> string \<times> string) list \<Rightarrow> ('h, 'db, 'meta) openEngine" where
  "engine_over drv cd hs mh s rows =
    \<lparr>oe_shards = hs, oe_metadata = mh,
     oe_engine = InitJSONEngine cd (map (\<lambda>(i, h). dr_documents drv h s) hs) (dr_meta drv mh s) rows\<rparr>"

definition StartJSONEngine :: "('s, 'h, 'db, 'meta) sql_driver \<Rightarrow> codec \<Rightarrow> string
    \<Rightarrow> ('h, 'db, 'meta) openEngine option \<Rightarrow> 's
    \<Rightarrow> string option \<times> ('h, 'db, 'meta) openEngine option \<times> 's" where
  "StartJSONEngine drv cd dataDir global s =
    (case dr_open drv (dsn (meta_file dataDir)) s of
       (Inl e, s) \<Rightarrow> (Some e, global, s)
     | (Inr mh, s) \<Rightarrow>
         (case dr_exec drv createMetaTables mh (dr_tune drv 10 5 five_minutes mh s) of
            (Some e, s) \<Rightarrow> (Some e, global, s)
          | (None, s) \<Rightarrow>
              (case open_shards drv dataDir 0 JSON_SHARD_COUNT s of
                 (Inl e, s) \<Rightarrow> (Some e, global, s)
               | (Inr hs, s) \<Rightarrow>
                   (case dr_collections drv mh s of
                      (Inl e, s) \<Rightarrow> (Some e, Some (engine_over drv cd hs mh s []), s)
                    | (Inr rows, s) \<Rightarrow> (None, Some (engine_over drv cd hs mh s rows), s)))))"

definition engine_Close :: "('s, 'h, 'db, 'meta) sql_driver \<Rightarrow> ('h, 'db, 'meta) openEngine \<Rightarrow> 's
    \<Rightarrow> string option \<times> 's" where
  "engine_Close drv oe s = dr_close drv (oe_metadata oe) (close_all drv (oe_shards oe) s)"

section \<open>Which handles are open\<close>

lemma driver_okD:
  assumes "driver_ok drv"
  shows "dr_open drv p s = (Inr h, s') \<Longrightarrow> h \<notin> dr_handles drv s"
    and "dr_open drv p s = (Inr h, s') \<Longrightarrow> dr_handles drv s' = insert h (dr_handles drv s)"
    and "dr_open drv p s = (Inl e, s') \<Longrightarrow> dr_handles drv s' = dr_handles drv s"
    and "dr_handles drv (dr_tune drv a b c h s) = dr_handles drv s"
    and "dr_exec drv q h s = (x, s') \<Longrightarrow> dr_handles drv s' = dr_handles drv s"
    and "dr_handles drv (snd (dr_close drv h s)) = dr_handles drv s - {h}"
    and "dr_collections drv h s = (y, s') \<Longrightarrow> dr_handles drv s' = dr_handles drv s"
  using assms unfolding driver_ok_def by (metis snd_conv)+

lemma open_shard_ok:
  assumes "driver_ok drv" and "open_shard drv d i s = (Inr h, s')"
  shows "h \<notin> dr_handles drv s" "dr_handles drv s' = insert h (dr_handles drv s)"
  using assms(2) driver_okD[OF assms(1)]
  by (auto simp: open_shard_def split: prod.splits sum.splits option.splits)

lemma open_shard_grows:
  assumes "driver_ok drv" and "open_shard drv d i s = (r, s')"
  shows "dr_handles drv s \<subseteq> dr_handles drv s'"
  using assms(2) driver_okD[OF assms(1)]
  by (auto simp: open_shard_def split: prod.splits sum.splits option.splits)

lemma open_shards_grows:
  "driver_ok drv \<Longrightarrow> open_shards drv d i n s = (r, s') \<Longrightarrow> dr_handles drv s \<subseteq> dr_handles drv s'"
proof (induction n arbitrary: i s r s')
  case (Suc n)
  obtain r1 s1 where o: "open_shard drv d i s = (r1, s1)" by fastforce
  note g = open_shard_grows[OF Suc.prems(1) o]
  show ?case
  proof (cases r1)
    case (Inl e)
    with Suc.prems(2) o g show ?thesis by simp
  next
    case (Inr h)
    obtain r2 s2 where r: "open_shards drv d (Suc i) n s1 = (r2, s2)" by fastforce
    with Inr Suc.prems(2) o have "s' = s2" by (auto split: sum.splits)
    with Suc.IH[OF Suc.prems(1) r] g show ?thesis by auto
  qed
qed simp

text \<open>A loop that completes has opened one new handle for each index, in order.\<close>

lemma open_shards_ok:
  assumes "driver_ok drv" and "open_shards drv d i n s = (Inr hs, s')"
  shows "map fst hs = [i..<i + n] \<and> distinct (map snd hs)
    \<and> set (map snd hs) \<inter> dr_handles drv s = {}
    \<and> dr_handles drv s' = dr_handles drv s \<union> set (map snd hs)"
  using assms(2)
proof (induction n arbitrary: i s hs s')
  case 0
  then show ?case by simp
next
  case (Suc n)
  obtain h s1 hs' where o: "open_shard drv d i s = (Inr h, s1)"
    and r: "open_shards drv d (Suc i) n s1 = (Inr hs', s')" and hs: "hs = (i, h) # hs'"
    using Suc.prems by (auto split: prod.splits sum.splits)
  note ok = open_shard_ok[OF assms(1) o]
  from Suc.IH[OF r] ok show ?case
    by (auto simp: hs upt_conv_Cons simp del: upt_Suc)
qed

lemma close_all_handles:
  "driver_ok drv \<Longrightarrow> dr_handles drv (close_all drv hs s) = dr_handles drv s - set (map snd hs)"
  by (induction drv hs s rule: close_all.induct) (auto simp: driver_okD)

section \<open>Properties\<close>

text \<open>
  C38. A shard manager that could be created owns one new handle per shard, in order;
  \<open>GetShard\<close> returns the shard of every index in range and nil for every other one without
  panicking; \<open>Close\<close> closes exactly the handles that were opened.
\<close>

theorem shard_manager_lifecycle:
  assumes drv: "driver_ok drv"
    and new: "NewJSONShardManager drv dataDir n s = (Value (Inr sm), s')"
  shows "length (GetAllShards sm) = nat n
    \<and> distinct (map snd (GetAllShards sm))
    \<and> dr_handles drv s' = dr_handles drv s \<union> snd ` set (GetAllShards sm)
    \<and> GetShard i sm =
      Value (if 0 \<le> i \<and> i < n then Some (nat i, snd (GetAllShards sm ! nat i)) else None)
    \<and> dr_handles drv (sm_Close drv sm s') = dr_handles drv s"
proof (intro conjI)
  obtain hs where n: "0 \<le> n" and op: "open_shards drv dataDir 0 (nat n) s = (Inr hs, s')"
    and sm: "sm = \<lparr>sm_shards = hs, sm_shardCount = n\<rparr>"
    using new by (auto simp: NewJSONShardManager_def split: if_splits prod.splits sum.splits)
  note ok = open_shards_ok[OF drv op]
  then have len: "length hs = nat n" by (metis add_0 diff_zero length_map length_upt)
  have fst: "fst (hs ! k) = k" if "k < nat n" for k
    using that ok len by (metis add_0 diff_zero length_upt nth_map nth_upt)
  show "length (GetAllShards sm) = nat n" and "distinct (map snd (GetAllShards sm))"
    and "dr_handles drv s' = dr_handles drv s \<union> snd ` set (GetAllShards sm)"
    using ok len by (simp_all add: sm GetAllShards_def)
  show "GetShard i sm =
      Value (if 0 \<le> i \<and> i < n then Some (nat i, snd (GetAllShards sm ! nat i)) else None)"
    using n len fst[of "nat i"]
    by (auto simp: GetShard_def GetAllShards_def sm go_index_def prod_eq_iff)
  show "dr_handles drv (sm_Close drv sm s') = dr_handles drv s"
    using ok by (auto simp: sm_Close_def sm close_all_handles[OF drv])
qed

text \<open>
  C15. Whenever \<open>InitJSONEngine\<close> sets the global engine, also when it then fails to read the
  collections, the engine has its sixteen shards, so every operation routes to an existing
  one; seventeen new handles are open, and \<open>Close\<close> closes them all.
\<close>

theorem engine_start_routes:
  assumes drv: "driver_ok drv"
    and start: "StartJSONEngine drv cd dataDir None s = (err, Some oe, s')"
  shows "engine_ok (oe_engine oe)
    \<and> route (oe_engine oe) docid c \<noteq> None
    \<and> card (dr_handles drv s' - dr_handles drv s) = 17
    \<and> dr_handles drv (snd (engine_Close drv oe s')) = dr_handles drv s"
proof (intro conjI)
  obtain mh s1 s2 hs s3 rows where mo: "dr_open drv (dsn (meta_file dataDir)) s = (Inr mh, s1)"
    and ex: "dr_exec drv createMetaTables mh (dr_tune drv 10 5 five_minutes mh s1) = (None, s2)"
    and op: "open_shards drv dataDir 0 JSON_SHARD_COUNT s2 = (Inr hs, s3)"
    and cl: "dr_handles drv s' = dr_handles drv s3" and oe: "oe = engine_over drv cd hs mh s' rows"
    using start driver_okD(7)[OF drv]
    by (auto simp: StartJSONEngine_def split: prod.splits sum.splits option.splits)
  note ok = open_shards_ok[OF drv op]
  then have len: "length hs = 16" by (metis JSON_SHARD_COUNT_def add_0 diff_zero length_map length_upt)
  show eng: "engine_ok (oe_engine oe)"
    by (simp add: oe engine_over_def engine_ok_def InitJSONEngine_def len JSON_SHARD_COUNT_def
        JSON_PAGE_SIZE_def)
  show "route (oe_engine oe) docid c \<noteq> None" by (simp add: route_ok[OF eng])
  have s2: "dr_handles drv s2 = insert mh (dr_handles drv s)" and mh: "mh \<notin> dr_handles drv s"
    using driver_okD[OF drv] mo ex by auto
  then have all: "dr_handles drv s' = dr_handles drv s \<union> insert mh (set (map snd hs))"
    and new: "insert mh (set (map snd hs)) \<inter> dr_handles drv s = {}"
    using ok cl by auto
  then have "dr_handles drv s' - dr_handles drv s = insert mh (set (map snd hs))" by auto
  moreover have "card (insert mh (set (map snd hs))) = 17"
    using ok s2 len distinct_card[of "map snd hs"] by (subst card_insert_disjoint) auto
  ultimately show "card (dr_handles drv s' - dr_handles drv s) = 17" by simp
  show "dr_handles drv (snd (engine_Close drv oe s')) = dr_handles drv s"
    using all new
    by (auto simp: engine_Close_def oe engine_over_def close_all_handles[OF drv] driver_okD(6)[OF drv])
qed

text \<open>
  A start that fails after its first database was opened closes nothing: the handle of the
  metadata database stays open, whatever the error.
\<close>

theorem failed_start_leaks:
  assumes drv: "driver_ok drv"
    and start: "StartJSONEngine drv cd dataDir g s = (Some e, g', s')"
    and first: "dr_open drv (dsn (meta_file dataDir)) s = (Inr mh, s1)"
  shows "dr_handles drv s \<subset> dr_handles drv s' \<and> mh \<in> dr_handles drv s'"
proof -
  obtain x s2 where ex: "dr_exec drv createMetaTables mh (dr_tune drv 10 5 five_minutes mh s1) = (x, s2)"
    by fastforce
  have s2: "dr_handles drv s2 = insert mh (dr_handles drv s)"
    using driver_okD[OF drv] first ex by auto
  obtain r s3 where op: "open_shards drv dataDir 0 JSON_SHARD_COUNT s2 = (r, s3)" by fastforce
  have "dr_handles drv s' = dr_handles drv s2 \<or> dr_handles drv s' = dr_handles drv s3"
    using start driver_okD(7)[OF drv]
    by (auto simp: StartJSONEngine_def first ex op split: prod.splits sum.splits option.splits)
  then have "insert mh (dr_handles drv s) \<subseteq> dr_handles drv s'"
    using s2 open_shards_grows[OF drv op] by auto
  then show ?thesis using driver_okD(1)[OF drv first] by auto
qed

section \<open>Witnesses\<close>

text \<open>A driver that numbers its handles, over the open ones; opening fails at number \<open>k\<close>.\<close>

definition counting_driver :: "nat option \<Rightarrow> (nat \<times> nat set, nat, unit, unit) sql_driver" where
  "counting_driver k = \<lparr>dr_open = (\<lambda>p (n, hs). if k = Some n then (Inl ''cannot open'', (n, hs))
        else (Inr n, (Suc n, insert n {h \<in> hs. h < n}))),
     dr_tune = (\<lambda>a b c h s. s), dr_exec = (\<lambda>q h s. (None, s)),
     dr_close = (\<lambda>h (n, hs). (None, (n, hs - {h}))), dr_collections = (\<lambda>h s. (Inr [], s)),
     dr_handles = (\<lambda>(n, hs). {h \<in> hs. h < n}), dr_documents = (\<lambda>h s. ()), dr_meta = (\<lambda>h s. ())\<rparr>"

lemma counting_driver_ok: "driver_ok (counting_driver k)"
  by (auto simp: driver_ok_def counting_driver_def split: if_splits)

lemma counting_open_shard:
  "k \<noteq> Some n \<Longrightarrow> open_shard (counting_driver k) d i (n, hs) = (Inr n, (Suc n, insert n {h \<in> hs. h < n}))"
  by (simp add: open_shard_def counting_driver_def)

lemma counting_open_shards:
  "\<exists>hs' s'. open_shards (counting_driver None) d i n (m, hs) = (Inr hs', s')"
proof (induction n arbitrary: i m hs)
  case (Suc n)
  obtain hs' s' where "open_shards (counting_driver None) d (Suc i) n (Suc m, insert m {h \<in> hs. h < m}) = (Inr hs', s')"
    using Suc.IH by blast
  then show ?case by (simp add: counting_open_shard)
qed simp

lemma shard_manager_lifecycle_witness:
  "\<exists>sm s'. NewJSONShardManager (counting_driver None) ''/data'' 2 (0, {}) = (Value (Inr sm), s')
     \<and> GetShard 2 sm = Value None \<and> dr_handles (counting_driver None) (sm_Close (counting_driver None) sm s') = {}"
proof -
  obtain hs' s' where "open_shards (counting_driver None) ''/data'' 0 2 (0, {}) = (Inr hs', s')"
    using counting_open_shards by blast
  then have new: "NewJSONShardManager (counting_driver None) ''/data'' 2 (0, {})
      = (Value (Inr \<lparr>sm_shards = hs', sm_shardCount = 2\<rparr>), s')"
    by (simp add: NewJSONShardManager_def)
  from shard_manager_lifecycle[OF counting_driver_ok new] new show ?thesis
    by (intro exI conjI) (auto simp: counting_driver_def)
qed

lemma engine_start_routes_witness:
  "\<exists>oe s'. StartJSONEngine (counting_driver None) demo_codec ''/data'' None (0, {}) = (None, Some oe, s')
     \<and> engine_ok (oe_engine oe)"
proof -
  obtain hs' s' where op: "open_shards (counting_driver None) ''/data'' 0 JSON_SHARD_COUNT (Suc 0, {0}) = (Inr hs', s')"
    using counting_open_shards by blast
  have "\<exists>oe. StartJSONEngine (counting_driver None) demo_codec ''/data'' None (0, {}) = (None, Some oe, s')"
    using op by (simp add: StartJSONEngine_def counting_driver_def)
  then show ?thesis using engine_start_routes[OF counting_driver_ok] by blast
qed

lemma failed_start_leaks_witness:
  "\<exists>s'. StartJSONEngine (counting_driver (Some 1)) demo_codec ''/data'' None (0, {})
       = (Some ''cannot open'', None, s') \<and> 0 \<in> dr_handles (counting_driver (Some 1)) s'"
proof -
  have "open_shards (counting_driver (Some 1)) ''/data'' 0 JSON_SHARD_COUNT (1, {0}) = (Inl ''cannot open'', (1, {0}))"
    by (simp add: JSON_SHARD_COUNT_def numeral_eq_Suc open_shard_def counting_driver_def)
  then have st: "StartJSONEngine (counting_driver (Some 1)) demo_codec ''/data'' None (0, {})
      = (Some ''cannot open'', None, (1, {0}))"
    by (simp add: StartJSONEngine_def) (simp add: counting_driver_def)
  have "dr_open (counting_driver (Some 1)) (dsn (meta_file ''/data'')) (0, {}) = (Inr 0, (1, {0}))"
    by (simp add: counting_driver_def)
  from failed_start_leaks[OF counting_driver_ok st this] st show ?thesis by blast
qed

end
