(* ===== verification/EngineUpdate.thy ===== *)
theory EngineUpdate
  imports Engine
begin

text \<open>
  Concurrent calls of \<^verbatim>\<open>Update\<close> in \<^verbatim>\<open>internal/jsondb/engine.go\<close>.  It reads a document with one
  statement and writes it with another, with no transaction around them: \<open>upd_read\<close> and
  \<open>upd_write\<close> are its two halves, \<open>engine_Update_split\<close> proves that run together they are
  \<open>engine_Update\<close>, and \<open>upd_step\<close> interleaves the halves of any number of callers.  The
  properties: an update can be lost, and an update is not checked against the schema.
\<close>

section \<open>The two halves\<close>

datatype caller =
    Ready string string "(string \<times> gval) list"
  | HasRead string string goDoc
  | Returned "(string + unit) result"

definition upd_read :: "('db, 'meta) sql_api \<Rightarrow> codec \<Rightarrow> string \<Rightarrow> string \<Rightarrow> (string \<times> gval) list
    \<Rightarrow> ('db, 'meta) jsonEngine \<Rightarrow> caller \<times> ('db, 'meta) jsonEngine" where
  "upd_read sql cd c docid u je0 =
    (let je = op_count je0 in
     case route je docid c of
       None \<Rightarrow> (Returned Panic, je)
     | Some (s, db) \<Rightarrow>
         (case db_get sql docid db of
            Inl e \<Rightarrow> (Returned (Value (Inl e)), err_count je)
          | Inr dataStr \<Rightarrow>
              (case merge_doc (dec_doc cd dataStr) u of
                 Panic \<Rightarrow> (Returned Panic, je)
               | Value doc \<Rightarrow> (HasRead c docid doc, je))))"

definition upd_write :: "('db, 'meta) sql_api \<Rightarrow> codec \<Rightarrow> int \<Rightarrow> string \<Rightarrow> string \<Rightarrow> goDoc
    \<Rightarrow> ('db, 'meta) jsonEngine \<Rightarrow> (string + unit) result \<times> ('db, 'meta) jsonEngine" where
  "upd_write sql cd now c docid doc je =
    (case route je docid c of
       None \<Rightarrow> (Panic, je)
     | Some (s, db) \<Rightarrow>
         (case db_update sql docid (enc_doc cd doc) now db of
            Inl e \<Rightarrow> (Value (Inl e), err_count je)
          | Inr db' \<Rightarrow> (Value (Inr ()), put_shard s db' je)))"

lemma engine_Update_split:
  "engine_Update sql cd now c docid u je =
    (case upd_read sql cd c docid u je of
       (HasRead c' i doc, je') \<Rightarrow> upd_write sql cd now c docid doc je'
     | (Returned r, je') \<Rightarrow> (r, je')
     | (Ready c' i u', je') \<Rightarrow> (Panic, je'))"
  by (auto simp: engine_Update_def upd_read_def upd_write_def Let_def
      split: option.splits sum.splits result.splits)

section \<open>Interleaving\<close>

record ('db, 'meta) updSys =
  us_engine :: "('db, 'meta) jsonEngine"
  us_callers :: "nat \<Rightarrow> caller"

inductive upd_step ::
  "('db, 'meta) sql_api \<Rightarrow> codec \<Rightarrow> ('db, 'meta) updSys \<Rightarrow> ('db, 'meta) updSys \<Rightarrow> bool"
  for sql :: "('db, 'meta) sql_api" and cd :: codec where
  Read: "us_callers s n = Ready c i u \<Longrightarrow> upd_read sql cd c i u (us_engine s) = (st, je) \<Longrightarrow>
    upd_step sql cd s \<lparr>us_engine = je, us_callers = (us_callers s)(n := st)\<rparr>"
| Write: "us_callers s n = HasRead c i doc \<Longrightarrow>
    upd_write sql cd now c i doc (us_engine s) = (r, je) \<Longrightarrow>
    upd_step sql cd s \<lparr>us_engine = je, us_callers = (us_callers s)(n := Returned r)\<rparr>"

inductive upd_steps ::
  "('db, 'meta) sql_api \<Rightarrow> codec \<Rightarrow> ('db, 'meta) updSys \<Rightarrow> ('db, 'meta) updSys \<Rightarrow> bool"
  for sql :: "('db, 'meta) sql_api" and cd :: codec where
  Stop: "upd_steps sql cd s s"
| More: "upd_step sql cd s t \<Longrightarrow> upd_steps sql cd t v \<Longrightarrow> upd_steps sql cd s v"

inductive_cases upd_stepE: "upd_step sql cd s t"

text \<open>The documents a caller may still write.\<close>

fun touches :: "caller \<Rightarrow> string set" where
  "touches (Ready c i u) = {i}"
| "touches (HasRead c i doc) = {i}"
| "touches (Returned r) = {}"

lemma upd_read_frame:
  assumes "engine_ok je" and "upd_read sql cd c i u je = (st, je')"
  shows "engine_ok je'" "doc_row sql je' c' k = doc_row sql je c' k" "touches st \<subseteq> {i}"
proof -
  have ok: "engine_ok (op_count je)" using assms(1) by (simp add: engine_ok_frame)
  then show "engine_ok je'" "doc_row sql je' c' k = doc_row sql je c' k" "touches st \<subseteq> {i}"
    using assms(2)
    by (auto simp: upd_read_def route_ok[OF ok] engine_ok_frame Let_def split: sum.splits result.splits)
qed

lemma upd_write_cases:
  assumes "table_ok sql" and ok: "engine_ok je" and "upd_write sql cd now c i doc je = (r, je')"
  obtains e where "r = Value (Inl e)" "je' = err_count je"
  | db where "r = Value (Inr ())" "je' = put_shard (shard16 (c, i)) db je"
      "t_rows sql db = (t_rows sql (shards je ! shard16 (c, i)))(i :=
         map_option (\<lambda>r. r\<lparr>r_data := enc_doc cd doc, r_updated := now\<rparr>) (doc_row sql je c i))"
proof (cases "db_update sql i (enc_doc cd doc) now (shards je ! shard16 (c, i))")
  case (Inl e)
  with assms(3) that(1)[of e] show ?thesis by (auto simp: upd_write_def route_ok[OF ok])
next
  case (Inr db)
  with assms(3) table_okD(4)[OF assms(1) Inr] that(2)[of db] show ?thesis
    by (auto simp: upd_write_def route_ok[OF ok] doc_row_def)
qed

lemma upd_write_frame:
  assumes "table_ok sql" and ok: "engine_ok je" and "upd_write sql cd now c i doc je = (r, je')"
  shows "engine_ok je'" "k \<noteq> i \<Longrightarrow> doc_row sql je' c' k = doc_row sql je c' k"
  using assms
  by (cases rule: upd_write_cases[OF assms];
      auto simp: engine_ok_frame put_shard_ok doc_row_put[OF ok] doc_row_def[of sql je c'])+

text \<open>No schedule touches a document that no caller is updating.\<close>

lemma upd_steps_frame:
  assumes "table_ok sql" and "upd_steps sql cd s t" and "engine_ok (us_engine s)"
    and "\<forall>n. i \<notin> touches (us_callers s n)"
  shows "engine_ok (us_engine t) \<and> doc_row sql (us_engine t) c i = doc_row sql (us_engine s) c i"
  using assms(2-)
proof induction
  case (More s t v)
  have "engine_ok (us_engine t) \<and> doc_row sql (us_engine t) c i = doc_row sql (us_engine s) c i
      \<and> (\<forall>n. i \<notin> touches (us_callers t n))"
    using More.hyps(1)
  proof (cases rule: upd_step.cases)
    case (Read n c' k u st je)
    moreover have "i \<noteq> k" using More.prems(2) Read(2) by (metis singletonI touches.simps(1))
    ultimately show ?thesis
      using upd_read_frame[OF More.prems(1) Read(3)] More.prems(2) by auto
  next
    case (Write n c' k doc now r je)
    moreover have "i \<noteq> k" using More.prems(2) Write(2) by (metis singletonI touches.simps(2))
    ultimately show ?thesis
      using upd_write_frame[OF assms(1) More.prems(1) Write(3)] More.prems(2) by auto
  qed
  with More.IH show ?case by auto
qed simp

section \<open>Properties\<close>

text \<open>A database in which a statement fails only when it must.\<close>

definition sql_healthy :: "('db, 'meta) sql_api \<Rightarrow> bool" where
  "sql_healthy sql \<longleftrightarrow>
     (\<forall>i db. t_rows sql db i \<noteq> None \<longrightarrow> (\<exists>d. db_get sql i db = Inr d))
   \<and> (\<forall>i d t db. \<exists>db'. db_update sql i d t db = Inr db')"

lemma upd_read_succeeds:
  assumes sql: "table_ok sql" "sql_healthy sql" and ok: "engine_ok je"
    and row: "doc_row sql je c i = Some r" and dec: "dec_doc cd (r_data r) = Some m"
  shows "\<exists>m'. upd_read sql cd c i u je = (HasRead c i (Some m'), op_count je)
    \<and> map_of m' = map_of m ++ map_of (rev u)"
proof -
  have ok1: "engine_ok (op_count je)" using ok by (simp add: engine_ok_frame)
  have r: "t_rows sql (shards (op_count je) ! shard16 (c, i)) i = Some r"
    using row by (simp add: doc_row_def op_count_def)
  obtain d where get: "db_get sql i (shards (op_count je) ! shard16 (c, i)) = Inr d"
    using sql(2) r unfolding sql_healthy_def by blast
  with table_okD(3)[OF sql(1) get] r have "d = r_data r" by simp
  with get dec show ?thesis
    by (simp add: upd_read_def route_ok[OF ok1] merge_doc_def map_of_merge Let_def)
qed

lemma upd_write_succeeds:
  assumes sql: "table_ok sql" "sql_healthy sql" and ok: "engine_ok je"
    and row: "doc_row sql je c i = Some r"
  shows "\<exists>je'. upd_write sql cd now c i doc je = (Value (Inr ()), je') \<and> engine_ok je'
    \<and> doc_row sql je' c i = Some (r\<lparr>r_data := enc_doc cd doc, r_updated := now\<rparr>)"
proof -
  obtain db where db: "db_update sql i (enc_doc cd doc) now (shards je ! shard16 (c, i)) = Inr db"
    using sql(2) unfolding sql_healthy_def by blast
  have "t_rows sql db i = Some (r\<lparr>r_data := enc_doc cd doc, r_updated := now\<rparr>)"
    using table_okD(4)[OF sql(1) db] row by (simp add: doc_row_def)
  with db show ?thesis
    by (simp add: upd_write_def route_ok[OF ok] put_shard_ok[OF ok] doc_row_put[OF ok])
qed

text \<open>
  C8. Lost update: of two callers that update the same document at the same time, both may
  return success while the document holds the fields of the second one only.
\<close>

theorem update_can_be_lost:
  assumes sql: "table_ok sql" "sql_healthy sql" and ok: "engine_ok (us_engine s)"
    and row: "doc_row sql (us_engine s) c i = Some r" and dec: "dec_doc cd (r_data r) = Some m"
    and callers: "us_callers s a = Ready c i u" "us_callers s b = Ready c i v" "a \<noteq> b"
  shows "\<exists>t m'. upd_steps sql cd s t
    \<and> us_callers t a = Returned (Value (Inr ())) \<and> us_callers t b = Returned (Value (Inr ()))
    \<and> doc_row sql (us_engine t) c i = Some (r\<lparr>r_data := enc_doc cd (Some m'), r_updated := now\<rparr>)
    \<and> map_of m' = map_of m ++ map_of (rev v)"
proof -
  let ?je = "us_engine s" and ?je1 = "op_count (us_engine s)"
  have ok1: "engine_ok ?je1" and row1: "doc_row sql ?je1 c i = Some r"
    using ok row by (simp_all add: engine_ok_frame)
  obtain ma where ra: "upd_read sql cd c i u ?je = (HasRead c i (Some ma), ?je1)"
    using upd_read_succeeds[OF sql ok row dec] by blast
  obtain mb where rb: "upd_read sql cd c i v ?je1 = (HasRead c i (Some mb), op_count ?je1)"
    and mb: "map_of mb = map_of m ++ map_of (rev v)"
    using upd_read_succeeds[OF sql ok1 row1 dec] by blast
  have ok2: "engine_ok (op_count ?je1)" "doc_row sql (op_count ?je1) c i = Some r"
    using ok1 row1 by (simp_all add: engine_ok_frame)
  obtain je3 where wa: "upd_write sql cd now c i (Some ma) (op_count ?je1) = (Value (Inr ()), je3)"
    and ok3: "engine_ok je3"
    and row3: "doc_row sql je3 c i = Some (r\<lparr>r_data := enc_doc cd (Some ma), r_updated := now\<rparr>)"
    using upd_write_succeeds[OF sql ok2] by blast
  obtain je4 where wb: "upd_write sql cd now c i (Some mb) je3 = (Value (Inr ()), je4)"
    and row4: "doc_row sql je4 c i = Some (r\<lparr>r_data := enc_doc cd (Some mb), r_updated := now\<rparr>)"
    using upd_write_succeeds[OF sql ok3 row3, of cd now "Some mb"] by auto
  let ?s1 = "\<lparr>us_engine = ?je1, us_callers = (us_callers s)(a := HasRead c i (Some ma))\<rparr>"
  let ?s2 = "\<lparr>us_engine = op_count ?je1, us_callers = (us_callers ?s1)(b := HasRead c i (Some mb))\<rparr>"
  let ?s3 = "\<lparr>us_engine = je3, us_callers = (us_callers ?s2)(a := Returned (Value (Inr ())))\<rparr>"
  let ?s4 = "\<lparr>us_engine = je4, us_callers = (us_callers ?s3)(b := Returned (Value (Inr ())))\<rparr>"
  have "upd_step sql cd s ?s1" using upd_step.Read[OF callers(1) ra] by simp
  moreover have "upd_step sql cd ?s1 ?s2" by (rule upd_step.Read) (use callers rb in simp_all)
  moreover have "upd_step sql cd ?s2 ?s3" by (rule upd_step.Write) (use callers wa in simp_all)
  moreover have "upd_step sql cd ?s3 ?s4" by (rule upd_step.Write) (use callers wb in simp_all)
  ultimately have "upd_steps sql cd s ?s4" by (meson Stop More)
  with row4 mb callers(3) show ?thesis by (intro exI[of _ ?s4] exI[of _ mb]) simp
qed

text \<open>
  C39. \<open>Insert\<close> checks a document against the schema of its collection, \<open>Update\<close> does not: after
  a successful update of a field with a value of the wrong type the stored document is one
  \<open>Insert\<close> refuses, and the refusal is not counted as an error.
\<close>

theorem update_ignores_schema:
  assumes sql: "table_ok sql" and ok: "engine_ok je"
    and col: "collectionCache je c = Some col" and field: "(f, ft) \<in> set (col_schema col)"
    and bad: "\<not> has_type ft v"
    and upd: "engine_Update sql cd now c docid [(f, v)] je = (Value (Inr ()), je')"
  shows "\<exists>r d e. doc_row sql je' c docid = Some r \<and> r_data r = enc_doc cd (Some d)
    \<and> doc_get (Some d) f = Some v
    \<and> engine_Insert sql cd nanos rnd now c (Some d) je = (Value (Inl e), op_count je)"
proof -
  obtain r doc where doc: "merge_doc (dec_doc cd (r_data r)) [(f, v)] = Value doc"
    and row: "doc_row sql je' c docid = Some (r\<lparr>r_data := enc_doc cd doc, r_updated := now\<rparr>)"
    using update_stores[OF sql ok upd] by blast
  from doc obtain m where d: "doc = Some (AList.update f v m)"
    by (auto simp: merge_doc_def split: option.splits)
  have get: "doc_get doc f = Some v" by (simp add: d doc_get_def)
  then have "validate_schema (col_schema col) doc \<noteq> None"
    using field bad by (auto simp: validate_schema_None)
  then obtain e where e: "validate_schema (col_schema col) doc = Some e" by blast
  have gc: "getCollection sql cd c (op_count je) = (Inr col, op_count je)"
    using col by (simp add: getCollection_def op_count_def)
  have "engine_Insert sql cd nanos rnd now c doc je = (Value (Inl e), op_count je)"
    by (simp add: engine_Insert_def gc e)
  with row get d show ?thesis by auto
qed

section \<open>Witnesses\<close>

lemma map_sql_healthy: "sql_healthy map_sql"
  by (auto simp: sql_healthy_def map_sql_def)

lemma inserted_row:
  "engine_ok inserted"
  "doc_row map_sql inserted ''c'' ''c_5_6'' = Some \<lparr>r_id = ''c_5_6'', r_collection = ''c'',
     r_data = ''k'', r_created = 7, r_updated = 7\<rparr>"
  using insert_row[OF map_sql_ok demo_engine_ok(1) demo_insert] by (simp_all add: demo_codec_def)

lemma Insert_keeps_cache:
  "collectionCache je c = Some col \<Longrightarrow>
   collectionCache (snd (engine_Insert sql cd nanos rnd now c doc je)) = collectionCache je"
  by (auto simp: engine_Insert_def getCollection_def op_count_def err_count_def put_shard_def Let_def
      split: option.splits sum.splits prod.splits)

lemma update_can_be_lost_witness:
  "\<exists>t. upd_steps map_sql demo_codec \<lparr>us_engine = inserted, us_callers =
        (\<lambda>_. Ready ''c'' ''c_5_6'' [(''z'', VNil)])(0 := Ready ''c'' ''c_5_6'' [(''j'', VNil)])\<rparr> t
    \<and> us_callers t 0 = Returned (Value (Inr ())) \<and> us_callers t 1 = Returned (Value (Inr ()))
    \<and> doc_row map_sql (us_engine t) ''c'' ''c_5_6'' \<noteq> None"
  using update_can_be_lost[OF map_sql_ok map_sql_healthy, of
      "\<lparr>us_engine = inserted, us_callers =
         (\<lambda>_. Ready ''c'' ''c_5_6'' [(''z'', VNil)])(0 := Ready ''c'' ''c_5_6'' [(''j'', VNil)])\<rparr>"
      "''c''" "''c_5_6''" _ demo_codec _ 0 _ 1 _ 9] inserted_row
  by (fastforce simp: demo_codec_def)

lemma update_ignores_schema_witness:
  "\<exists>je' d e. fst (engine_Insert map_sql demo_codec 0 0 9 ''c'' (Some d) inserted) = Value (Inl e)
    \<and> engine_Update map_sql demo_codec 9 ''c'' ''c_5_6'' [(''k'', VNil)] inserted = (Value (Inr ()), je')
    \<and> doc_get (Some d) ''k'' = Some VNil"
proof -
  let ?u = "engine_Update map_sql demo_codec 9 ''c'' ''c_5_6'' [(''k'', VNil)] inserted"
  have ok': "engine_ok (op_count inserted)" using inserted_row by (simp add: engine_ok_frame)
  have "doc_row map_sql (op_count inserted) ''c'' ''c_5_6'' \<noteq> None"
    using inserted_row by (simp add: engine_ok_frame)
  then have "fst ?u = Value (Inr ())"
    unfolding engine_Update_def Let_def route_ok[OF ok']
    by (auto simp: doc_row_def map_sql_def merge_doc_def demo_codec_def)
  then have u: "?u = (Value (Inr ()), snd ?u)" by (metis prod.collapse)
  have col: "collectionCache inserted ''c'' = Some demo_col"
    using Insert_keeps_cache[OF demo_engine_ok(2)] demo_engine_ok(2) by (simp add: inserted_def)
  have "(''k'', ''boolean'') \<in> set (col_schema demo_col)" "\<not> has_type ''boolean'' VNil"
    by (simp_all add: demo_col_def has_type.simps)
  from update_ignores_schema[OF map_sql_ok inserted_row(1) col this u, of 0 0] obtain d e
    where "doc_get (Some d) ''k'' = Some VNil"
      and "engine_Insert map_sql demo_codec 0 0 9 ''c'' (Some d) inserted = (Value (Inl e), op_count inserted)"
    by blast
  with u show ?thesis by (intro exI[of _ "snd ?u"] exI[of _ d] exI[of _ e]) simp
qed

end
